(* ===== verification/Diago_Prelude.thy ===== *)
theory Diago_Prelude
  imports Complex_Main "HOL-Library.Word" "HOL-Library.Multiset"
begin

text \<open>
  Shared vocabulary of the development: the machine integer types of the Go sources, the
  wrap-around lemmas on 16-bit sequence numbers every RTP component needs, generic lemmas on
  lists of optional entries, and the locale of labelled transition systems in which
  invariants are lifted from one step to every run.

  Go's \<open>int\<close>, \<open>time.Duration\<close> and \<open>time.Time\<close> are \<^typ>\<open>int\<close>: a duration counts
  nanoseconds, and a time is an instant on the same axis. The zero \<open>time.Time\<close> the sources
  test with \<open>IsZero\<close> is \<^term>\<open>None\<close> of an optional instant.
\<close>

section \<open>Types of the sources\<close>

type_synonym u8 = "8 word"
type_synonym u16 = "16 word"
type_synonym u32 = "32 word"
type_synonym u64 = "64 word"
type_synonym bytes = "u8 list"
type_synonym duration = int
type_synonym instant = int

abbreviation millisecond :: duration where
  "millisecond \<equiv> 1000000"

abbreviation second :: duration where
  "second \<equiv> 1000000000"

text \<open>
  The errors the media sources return. \<open>ErrOther\<close> carries an error of a collaborator the
  sources only pass on, named by a number.
\<close>

datatype go_error = ErrClosedPipe | ErrShortBuffer | EOF | ErrNetClosed | ErrOther nat

section \<open>Sequence number arithmetic\<close>

text \<open>
  The sources compare sequence numbers by the signed 16-bit value of their difference,
  \<open>int16(a - b)\<close>: that is \<^term>\<open>sint (a - b :: u16)\<close>.
\<close>

lemma unat_u16_less [simp]: "unat (x :: u16) < 65536"
  using unsigned_less [of x] by simp

lemma signed_take_bit_15:
  assumes "0 \<le> k" "k < 65536"
  shows "signed_take_bit 15 (k::int) = (if k < 32768 then k else k - 65536)"
proof -
  have "(k + 32768) mod 65536 = (if k < 32768 then k + 32768 else k - 32768)"
    using assms minus_mod_self2 [of "k + 32768" 65536] by (auto simp del: minus_mod_self2)
  then show ?thesis by (simp add: signed_take_bit_eq_take_bit_shift take_bit_eq_mod)
qed

lemma sint_u16:
  "sint (x :: u16) = (if unat x < 32768 then int (unat x) else int (unat x) - 65536)"
proof -
  have u: "uint x = int (unat x)" by simp
  show ?thesis
    using signed_take_bit_15 [of "int (unat x)"] unat_u16_less [of x]
    by (simp add: sint_uint u del: of_nat_unat)
qed

lemma sint_u16_bounds: "- 32768 \<le> sint (x :: u16)" "sint (x :: u16) < 32768"
  using sint_ge [of x] sint_lt [of x] by simp_all

lemma sint_of_int_u16:
  assumes "- 32768 \<le> k" "k < 32768"
  shows "sint (of_int k :: u16) = k"
proof -
  have "(k + 32768) mod 65536 = k + 32768" using assms by (intro mod_pos_pos_trivial) auto
  then show ?thesis by (simp add: int_word_sint)
qed

text \<open>
  The distance to a moved origin: as long as the exact difference fits 16 signed bits, moving
  the origin of a distance subtracts the distance of the origins.
\<close>

lemma sint_shift_origin:
  fixes s e n :: u16
  assumes "- 32768 \<le> sint (s - e) - sint (n - e)" "sint (s - e) - sint (n - e) < 32768"
  shows "sint (s - n) = sint (s - e) - sint (n - e)"
proof -
  have "(of_int (sint (s - e) - sint (n - e)) :: u16) = (s - e) - (n - e)"
    by (simp only: of_int_diff of_int_sint scast_id)
  also have "\<dots> = s - n" by simp
  finally show ?thesis using sint_of_int_u16 [OF assms] by simp
qed

lemma sint_1_u16 [simp]: "sint (1 :: u16) = 1"
  by (simp add: sint_u16)

lemma sint_next_origin:
  fixes s e :: u16
  assumes "0 \<le> sint (s - e)"
  shows "sint (s - (e + 1)) = sint (s - e) - 1"
  using sint_shift_origin [of s e "e + 1"] assms sint_u16_bounds [of "s - e"] by simp

lemma sint_diff_eq_0 [simp]: "sint (s - e) = 0 \<longleftrightarrow> s = (e :: u16)"
  by (metis of_int_0 of_int_sint right_minus_eq scast_id sint_0)

lemma sint_diff_inject: "sint (s - e) = sint (t - e) \<longleftrightarrow> s = (t :: u16)"
  by (metis diff_add_cancel of_int_sint scast_id)

lemma sint_nonneg_u16: "0 \<le> sint (x :: u16) \<Longrightarrow> sint x = int (unat x)"
  using unat_u16_less [of x] by (simp add: sint_u16 del: of_nat_unat unat_u16_less split: if_splits)

lemma of_nat_sint_diff:
  fixes s e :: u16
  assumes "0 \<le> sint (s - e)"
  shows "s = e + of_nat (nat (sint (s - e)))"
proof -
  have "(of_nat (nat (sint (s - e))) :: u16) = of_int (sint (s - e))"
    using assms by (simp add: sint_nonneg_u16)
  also have "\<dots> = s - e" by simp
  finally show ?thesis by simp
qed

section \<open>Lists of optional entries\<close>

text \<open>
  An array whose entries are slot indexes or \<open>-1\<close> is a list of optional naturals. Its
  entries are collected as a multiset, so that ownership of the slots can be counted.
\<close>

definition entries :: "'a option list \<Rightarrow> 'a multiset" where
  "entries xs = mset (List.map_filter id xs)"

lemma entries_Nil [simp]: "entries [] = {#}"
  by (simp add: entries_def map_filter_simps)

lemma entries_Cons [simp]:
  "entries (x # xs) = (case x of None \<Rightarrow> {#} | Some a \<Rightarrow> {#a#}) + entries xs"
  by (cases x) (simp_all add: entries_def map_filter_simps)

lemma entries_append [simp]: "entries (xs @ ys) = entries xs + entries ys"
  by (induction xs) (auto split: option.splits)

lemma entries_replicate_None [simp]: "entries (replicate n None) = {#}"
  by (induction n) auto

lemma set_entries: "a \<in># entries xs \<longleftrightarrow> Some a \<in> set xs"
  by (induction xs) (auto split: option.splits)

lemma entries_update:
  assumes "i < length xs"
  shows "entries (xs[i := v]) + (case xs ! i of None \<Rightarrow> {#} | Some a \<Rightarrow> {#a#})
       = entries xs + (case v of None \<Rightarrow> {#} | Some a \<Rightarrow> {#a#})"
proof -
  define pre x post where "pre = take i xs" and "x = xs ! i" and "post = drop (Suc i) xs"
  have xs: "xs = pre @ x # post" and len: "length pre = i"
    using assms by (simp_all add: pre_def x_def post_def id_take_nth_drop)
  show ?thesis unfolding xs by (simp add: len [symmetric] ac_simps)
qed

lemma entries_insert:
  "i < length xs \<Longrightarrow> xs ! i = None \<Longrightarrow> entries (xs[i := Some a]) = entries xs + {#a#}"
  using entries_update [of i xs "Some a"] by simp

lemma entries_delete:
  "i < length xs \<Longrightarrow> xs ! i = Some a \<Longrightarrow> entries xs = entries (xs[i := None]) + {#a#}"
  using entries_update [of i xs None] by simp

lemma entries_empty_iff: "entries xs = {#} \<longleftrightarrow> (\<forall>x \<in> set xs. x = None)"
  by (induction xs) (auto split: option.splits)

lemma size_entries_le: "size (entries xs) \<le> length xs"
  by (induction xs) (auto split: option.splits)

lemma mset_set_disjoint:
  assumes "M + N = mset_set S" "x \<in># M"
  shows "x \<notin># N"
proof
  assume "x \<in># N"
  have "count M x + count N x = count (mset_set S) x" by (simp flip: assms(1))
  moreover have "count (mset_set S) x \<le> 1" by (cases "finite S \<and> x \<in> S") auto
  moreover have "0 < count M x" "0 < count N x"
    using assms(2) \<open>x \<in># N\<close> by (simp_all only: count_greater_zero_iff)
  ultimately show False by linarith
qed

section \<open>Division\<close>

text \<open>Go's division truncates towards zero; the divisors here are positive.\<close>

definition goDiv :: "int \<Rightarrow> int \<Rightarrow> int" where
  "goDiv a b = (if a < 0 then - ((- a) div b) else a div b)"

lemma goDiv_nonneg [simp]: "0 \<le> a \<Longrightarrow> goDiv a b = a div b"
  by (simp add: goDiv_def)

section \<open>Folds\<close>

text \<open>A field that no pass of a loop changes is the same after the loop.\<close>

lemma fold_keeps: "(\<And>x s. f (op x s) = f s) \<Longrightarrow> f (fold op xs s) = f s"
  by (induction xs arbitrary: s) simp_all

section \<open>Labelled transition systems\<close>

text \<open>
  Runs of a step relation with the labels they pass through, and the interface of a system
  with an invariant: a component supplies its step relation and proves the invariant for one
  step, and gets it for every run and every reachable state.
\<close>

inductive exec :: "('s \<Rightarrow> 'l \<Rightarrow> 's \<Rightarrow> bool) \<Rightarrow> 's \<Rightarrow> 'l list \<Rightarrow> 's \<Rightarrow> bool"
  for step where
  exec_nil: "exec step s [] s"
| exec_cons: "step s l t \<Longrightarrow> exec step t ls u \<Longrightarrow> exec step s (l # ls) u"

inductive_cases exec_NilE [elim!]: "exec step s [] t"
inductive_cases exec_ConsE [elim]: "exec step s (l # ls) t"

lemma exec_snoc: "exec step s ls t \<Longrightarrow> step t l u \<Longrightarrow> exec step s (ls @ [l]) u"
  by (induction rule: exec.induct) (auto intro: exec.intros)

lemma exec_two: "step s l t \<Longrightarrow> step t m u \<Longrightarrow> exec step s [l, m] u"
  by (blast intro: exec.intros)

lemma exec_append: "exec step s ls t \<Longrightarrow> exec step t ms u \<Longrightarrow> exec step s (ls @ ms) u"
  by (induction rule: exec.induct) (auto intro: exec.intros)

locale transition_system =
  fixes init :: "'s \<Rightarrow> bool"
    and step :: "'s \<Rightarrow> 'l \<Rightarrow> 's \<Rightarrow> bool"
    and inv :: "'s \<Rightarrow> bool"
  assumes inv_init: "init s \<Longrightarrow> inv s"
    and inv_step: "inv s \<Longrightarrow> step s l t \<Longrightarrow> inv t"
begin

lemma inv_exec: "exec step s ls t \<Longrightarrow> inv s \<Longrightarrow> inv t"
  by (induction rule: exec.induct) (auto intro: inv_step)

lemma inv_reachable: "init s \<Longrightarrow> exec step s ls t \<Longrightarrow> inv t"
  by (blast intro: inv_exec inv_init)

end

end
