(* ===== verification/Go_Strings.thy ===== *)
theory Go_Strings
  imports Diago_Prelude
begin

text \<open>
  The functions of Go's \<open>strings\<close> and \<open>strconv\<close> that the sources use, on ASCII strings: cutting,
  splitting and joining at a character, trimming, folding case, and reading and writing decimal
  numbers. The round trips are what the header and SDP theories build on.
\<close>

section \<open>Characters\<close>

definition isSpace :: "char \<Rightarrow> bool" where
  "isSpace c \<longleftrightarrow> c \<in> {CHR 0x09, CHR 0x0A, CHR 0x0B, CHR 0x0C, CHR 0x0D, CHR '' ''}"

definition isDigit :: "char \<Rightarrow> bool" where
  "isDigit c \<longleftrightarrow> 48 \<le> (of_char c :: nat) \<and> (of_char c :: nat) \<le> 57"

definition toLowerChar :: "char \<Rightarrow> char" where
  "toLowerChar c = (if 65 \<le> (of_char c :: nat) \<and> (of_char c :: nat) \<le> 90
     then char_of ((of_char c :: nat) + 32) else c)"

definition toUpperChar :: "char \<Rightarrow> char" where
  "toUpperChar c = (if 97 \<le> (of_char c :: nat) \<and> (of_char c :: nat) \<le> 122
     then char_of ((of_char c :: nat) - 32) else c)"

section \<open>Package \<open>strings\<close>\<close>

definition ToLower :: "string \<Rightarrow> string" where
  "ToLower s = map toLowerChar s"

definition ToUpper :: "string \<Rightarrow> string" where
  "ToUpper s = map toUpperChar s"

definition EqualFold :: "string \<Rightarrow> string \<Rightarrow> bool" where
  "EqualFold s t \<longleftrightarrow> ToLower s = ToLower t"

definition TrimSpace :: "string \<Rightarrow> string" where
  "TrimSpace s = rev (dropWhile isSpace (rev (dropWhile isSpace s)))"

text \<open>\<open>strings.Cut\<close> at a separator of one character: before, after, found.\<close>

definition Cut :: "char \<Rightarrow> string \<Rightarrow> string \<times> string \<times> bool" where
  "Cut c s = (if c \<in> set s
     then (takeWhile (\<lambda>x. x \<noteq> c) s, tl (dropWhile (\<lambda>x. x \<noteq> c) s), True)
     else (s, [], False))"

fun Split :: "char \<Rightarrow> string \<Rightarrow> string list" where
  "Split c [] = [[]]"
| "Split c (x # xs) = (if x = c then [] # Split c xs
     else (case Split c xs of [] \<Rightarrow> [[x]] | w # ws \<Rightarrow> (x # w) # ws))"

fun Join :: "string list \<Rightarrow> string \<Rightarrow> string" where
  "Join [] sep = []"
| "Join [w] sep = w"
| "Join (w # ws) sep = w @ sep @ Join ws sep"

fun fieldsAcc :: "string \<Rightarrow> string \<Rightarrow> string list" where
  "fieldsAcc w [] = (if w = [] then [] else [rev w])"
| "fieldsAcc w (x # xs) = (if isSpace x then (if w = [] then fieldsAcc [] xs else rev w # fieldsAcc [] xs)
     else fieldsAcc (x # w) xs)"

definition Fields :: "string \<Rightarrow> string list" where
  "Fields s = fieldsAcc [] s"

definition HasPrefix :: "string \<Rightarrow> string \<Rightarrow> bool" where
  "HasPrefix s p \<longleftrightarrow> take (length p) s = p"

definition HasSuffix :: "string \<Rightarrow> string \<Rightarrow> bool" where
  "HasSuffix s p \<longleftrightarrow> HasPrefix (rev s) (rev p)"

definition TrimPrefix :: "string \<Rightarrow> string \<Rightarrow> string" where
  "TrimPrefix s p = (if HasPrefix s p then drop (length p) s else s)"

definition TrimSuffix :: "string \<Rightarrow> string \<Rightarrow> string" where
  "TrimSuffix s p = (if HasSuffix s p then take (length s - length p) s else s)"

text \<open>\<open>strings.IndexAny\<close>, with the index \<open>-1\<close> as \<^term>\<open>None\<close>.\<close>

fun IndexAny :: "string \<Rightarrow> string \<Rightarrow> nat option" where
  "IndexAny [] chars = None"
| "IndexAny (x # xs) chars = (if x \<in> set chars then Some 0 else map_option Suc (IndexAny xs chars))"

section \<open>Package \<open>strconv\<close>\<close>

definition digitChar :: "nat \<Rightarrow> char" where
  "digitChar d = char_of (48 + d)"

definition digitValue :: "char \<Rightarrow> nat" where
  "digitValue c = of_char c - 48"

fun formatNat :: "nat \<Rightarrow> string" where
  "formatNat n = (if n < 10 then [digitChar n] else formatNat (n div 10) @ [digitChar (n mod 10)])"

declare formatNat.simps [simp del]

definition FormatInt :: "int \<Rightarrow> string" where
  "FormatInt i = (if i < 0 then CHR ''-'' # formatNat (nat (- i)) else formatNat (nat i))"

definition decimalValue :: "string \<Rightarrow> nat" where
  "decimalValue s = foldl (\<lambda>v c. 10 * v + digitValue c) 0 s"

text \<open>\<open>strconv.ParseUint(s, 10, bits)\<close>: a syntax or range error is \<^term>\<open>None\<close>.\<close>

definition ParseUint :: "nat \<Rightarrow> string \<Rightarrow> nat option" where
  "ParseUint bits s = (if s = [] \<or> \<not> list_all isDigit s then None
     else let v = decimalValue s in if v < 2 ^ bits then Some v else None)"

text \<open>
  \<open>strconv.Atoi\<close>: an optional sign and digits that fit a 64-bit \<open>int\<close>. It returns a value with its
  error too: zero for a syntax error, the nearest bound for a value out of range.
\<close>

definition signed :: "string \<Rightarrow> bool \<times> string" where
  "signed s = (case s of
     c # cs \<Rightarrow> if c = CHR ''-'' then (True, cs) else if c = CHR ''+'' then (False, cs) else (False, s)
   | [] \<Rightarrow> (False, []))"

definition AtoiValue :: "string \<Rightarrow> int \<times> bool" where
  "AtoiValue s = (case signed s of (neg, ds) \<Rightarrow>
     if ds = [] \<or> \<not> list_all isDigit ds then (0, False)
     else let v = int (decimalValue ds) in
       if neg then (if v \<le> 2 ^ 63 then (- v, True) else (- (2 ^ 63), False))
       else (if v < 2 ^ 63 then (v, True) else (2 ^ 63 - 1, False)))"

definition Atoi :: "string \<Rightarrow> int option" where
  "Atoi s = (case AtoiValue s of (v, ok) \<Rightarrow> if ok then Some v else None)"

section \<open>Laws\<close>

lemma digitChar_value:
  assumes "d < 10"
  shows "digitValue (digitChar d) = d" "isDigit (digitChar d)"
proof -
  have "of_char (char_of (48 + d) :: char) = (48 + d) mod 256" by (simp only: of_char_of)
  then have "of_char (digitChar d) = 48 + d" using assms by (simp add: digitChar_def)
  then show "digitValue (digitChar d) = d" "isDigit (digitChar d)"
    using assms by (simp_all add: digitValue_def isDigit_def)
qed

lemma formatNat_digits: "list_all isDigit (formatNat n)"
  by (induction n rule: formatNat.induct) (subst formatNat.simps, simp add: digitChar_value)

lemma formatNat_nonempty [simp]: "formatNat n \<noteq> []"
  by (subst formatNat.simps) simp

lemma decimalValue_snoc [simp]: "decimalValue (s @ [c]) = 10 * decimalValue s + digitValue c"
  by (simp add: decimalValue_def)

lemma decimalValue_formatNat [simp]: "decimalValue (formatNat n) = n"
proof (induction n rule: formatNat.induct)
  case (1 n)
  show ?case
  proof (cases "n < 10")
    case True
    then show ?thesis
      using decimalValue_snoc [of "[]" "digitChar n"] by (subst formatNat.simps) (simp add: digitChar_value decimalValue_def)
  next
    case False
    then show ?thesis using 1 by (subst formatNat.simps) (simp add: digitChar_value)
  qed
qed

text \<open>Reading a number that was written gives it back.\<close>

lemma ParseUint_formatNat: "n < 2 ^ bits \<Longrightarrow> ParseUint bits (formatNat n) = Some n"
  using formatNat_digits [of n] by (simp add: ParseUint_def)

lemma ParseUint_bound: "ParseUint bits s = Some n \<Longrightarrow> n < 2 ^ bits"
  by (auto simp: ParseUint_def Let_def split: if_splits)

lemma Cut_append:
  "c \<notin> set s \<Longrightarrow> Cut c (s @ c # t) = (s, t, True)"
  by (simp add: Cut_def takeWhile_append dropWhile_append)

lemma Cut_none: "c \<notin> set s \<Longrightarrow> Cut c s = (s, [], False)"
  by (simp add: Cut_def)

lemma Cut_found: "Cut c s = (a, b, True) \<Longrightarrow> s = a @ c # b \<and> c \<notin> set a"
proof -
  assume cut: "Cut c s = (a, b, True)"
  then have c: "c \<in> set s" by (auto simp: Cut_def split: if_splits)
  obtain xs ys where s: "s = xs @ c # ys" "c \<notin> set xs" using split_list_first [OF c] by blast
  then show ?thesis using Cut_append [of c xs ys] cut by simp
qed

lemma Split_nonempty [simp]: "Split c s \<noteq> []"
  by (induction s) (auto split: list.split)

lemma Split_single: "c \<notin> set s \<Longrightarrow> Split c s = [s]"
  by (induction s) (auto split: list.split)

lemma Split_append: "c \<notin> set s \<Longrightarrow> Split c (s @ c # t) = s # Split c t"
  by (induction s) (auto split: list.split)

lemma Split_no_sep: "w \<in> set (Split c s) \<Longrightarrow> c \<notin> set w"
  by (induction s arbitrary: w) (auto split: list.splits if_splits)

lemma Split_Join:
  "ws \<noteq> [] \<Longrightarrow> \<forall>w \<in> set ws. c \<notin> set w \<Longrightarrow> Split c (Join ws [c]) = ws"
  by (induction ws "[c]" rule: Join.induct) (simp_all add: Split_single Split_append)

lemma Join_Split: "Join (Split c s) [c] = s"
  by (induction s) (auto split: list.split, metis Join.simps list.exhaust append_Cons append_Nil Split_nonempty)

lemma isDigit_not_space: "isDigit c \<Longrightarrow> \<not> isSpace c"
  by (auto simp: isDigit_def isSpace_def)

lemma TrimSpace_id: "list_all (\<lambda>c. \<not> isSpace c) s \<Longrightarrow> TrimSpace s = s"
proof -
  assume a: "list_all (\<lambda>c. \<not> isSpace c) s"
  have d: "dropWhile isSpace t = t" if "list_all (\<lambda>c. \<not> isSpace c) t" for t
    using that by (cases t) simp_all
  show "TrimSpace s = s" using a d [of s] d [of "rev s"] by (simp add: TrimSpace_def list_all_iff)
qed

lemma TrimSpace_formatNat [simp]: "TrimSpace (formatNat n) = formatNat n"
  using formatNat_digits [of n] by (intro TrimSpace_id) (auto simp: list_all_iff isDigit_not_space)

lemma formatNat_not_in: "\<not> isDigit c \<Longrightarrow> c \<notin> set (formatNat n)"
  using formatNat_digits [of n] by (auto simp: list_all_iff)

lemma fieldsAcc_word:
  "list_all (\<lambda>c. \<not> isSpace c) v \<Longrightarrow> fieldsAcc w (v @ s) = fieldsAcc (rev v @ w) s"
  by (induction v arbitrary: w) simp_all

lemma Fields_Join:
  "\<forall>w \<in> set ws. w \<noteq> [] \<and> list_all (\<lambda>c. \<not> isSpace c) w \<Longrightarrow> Fields (Join ws '' '') = ws"
proof (induction ws "'' ''" rule: Join.induct)
  case (2 w)
  then show ?case using fieldsAcc_word [of w "[]" "[]"] by (simp add: Fields_def)
next
  case (3 w v vs)
  have "isSpace (CHR '' '')" by (simp add: isSpace_def)
  then show ?case using 3 fieldsAcc_word [of w "[]" "CHR '' '' # Join (v # vs) '' ''"] by (simp add: Fields_def)
qed (simp add: Fields_def)

lemma fieldsAcc_no_space:
  "list_all (\<lambda>c. \<not> isSpace c) w \<Longrightarrow> f \<in> set (fieldsAcc w s) \<Longrightarrow> f \<noteq> [] \<and> list_all (\<lambda>c. \<not> isSpace c) f"
proof (induction w s arbitrary: f rule: fieldsAcc.induct)
  case (1 w)
  then show ?case by (simp add: list_all_iff split: if_splits)
next
  case (2 w x xs)
  show ?case
  proof (cases "isSpace x")
    case True
    then show ?thesis using 2 by (cases "w = []") (simp_all, auto simp: list_all_iff)
  next
    case False
    then show ?thesis using 2 by simp
  qed
qed

lemma Fields_no_space: "f \<in> set (Fields s) \<Longrightarrow> f \<noteq> [] \<and> list_all (\<lambda>c. \<not> isSpace c) f"
  unfolding Fields_def by (rule fieldsAcc_no_space) auto

lemma AtoiValue_FormatInt:
  assumes "- (2 ^ 63) \<le> i" "i < 2 ^ 63"
  shows "AtoiValue (FormatInt i) = (i, True)"
proof -
  have neq: "hd (formatNat n) \<noteq> CHR ''-''" "hd (formatNat n) \<noteq> CHR ''+''" for n
    using formatNat_digits [of n] formatNat_nonempty [of n] by (cases "formatNat n"; auto simp: isDigit_def)+
  have pos: "signed (formatNat n) = (False, formatNat n)" for n
    using neq [of n] formatNat_nonempty [of n] by (cases "formatNat n") (simp_all add: signed_def)
  show ?thesis
  proof (cases "i < 0")
    case True
    then show ?thesis
      using assms formatNat_digits [of "nat (- i)"] by (simp add: AtoiValue_def FormatInt_def signed_def)
  next
    case False
    then show ?thesis
      using assms formatNat_digits [of "nat i"] by (simp add: AtoiValue_def FormatInt_def pos)
  qed
qed

lemma FormatInt_chars: "c \<in> set (FormatInt i) \<Longrightarrow> isDigit c \<or> c = CHR ''-''"
  using formatNat_digits by (auto simp: FormatInt_def list_all_iff split: if_splits)

lemma FormatInt_nonempty [simp]: "FormatInt i \<noteq> []"
  by (simp add: FormatInt_def)

lemma HasPrefix_append [simp]: "HasPrefix (p @ s) p"
  by (simp add: HasPrefix_def)

lemma HasPrefix_iff: "HasPrefix s p \<longleftrightarrow> (\<exists>t. s = p @ t)"
  unfolding HasPrefix_def by (metis append_eq_conv_conj append_take_drop_id)

lemma HasPrefix_word:
  assumes "c \<notin> set v" "c \<notin> set w"
  shows "HasPrefix (p @ v @ c # s) (p @ w @ [c]) \<longleftrightarrow> v = w"
proof
  assume "HasPrefix (p @ v @ c # s) (p @ w @ [c])"
  then obtain t where "v @ c # s = w @ c # t" by (auto simp: HasPrefix_iff)
  then show "v = w" using Cut_append [OF assms(1)] Cut_append [OF assms(2)] by (metis prod.inject)
next
  assume "v = w"
  then show "HasPrefix (p @ v @ c # s) (p @ w @ [c])" using HasPrefix_append [of "p @ w @ [c]" s] by simp
qed

end
