(* ===== verification/Float64.thy ===== *)
theory Float64
  imports Diago_Prelude "HOL-Library.Log_Nat"
begin

text \<open>
  Go's \<open>float64\<close> as far as the media code uses it: rationals rounded to 53 significant bits, to the
  nearest and to the even one of two nearest, after every operation. Infinities, NaN and the
  subnormal range are left out; the one place a NaN can arise is treated where it does.
\<close>

section \<open>Rounding\<close>

text \<open>The exponent of the leading bit of a positive rational.\<close>

definition expo :: "rat \<Rightarrow> int" where
  "expo x = (let (n, d) = quotient_of x; k = bitlen n - bitlen d
     in if 2 powi k \<le> x then k else k - 1)"

definition roundEven :: "rat \<Rightarrow> int" where
  "roundEven x = (let f = \<lfloor>x\<rfloor>; r = x - of_int f in
     if r < 1 / 2 then f else if r > 1 / 2 then f + 1 else if even f then f else f + 1)"

definition round64 :: "rat \<Rightarrow> rat" where
  "round64 x = (if x = 0 then 0
     else let e = expo \<bar>x\<bar> - 52 in of_int (roundEven (x / 2 powi e)) * 2 powi e)"

definition fadd :: "rat \<Rightarrow> rat \<Rightarrow> rat" where "fadd x y = round64 (x + y)"
definition fsub :: "rat \<Rightarrow> rat \<Rightarrow> rat" where "fsub x y = round64 (x - y)"
definition fmul :: "rat \<Rightarrow> rat \<Rightarrow> rat" where "fmul x y = round64 (x * y)"
definition fdiv :: "rat \<Rightarrow> rat \<Rightarrow> rat" where "fdiv x y = round64 (x / y)"

definition ofInt64 :: "int \<Rightarrow> rat" where "ofInt64 i = round64 (of_int i)"

text \<open>Conversion to an integer drops the fraction.\<close>

definition truncInt :: "rat \<Rightarrow> int" where
  "truncInt x = (if x < 0 then - \<lfloor>- x\<rfloor> else \<lfloor>x\<rfloor>)"

section \<open>The exponent\<close>

lemma bitlen_bounds_rat:
  assumes "0 < n"
  shows "2 powi (bitlen n - 1) \<le> (of_int n :: rat)" "(of_int n :: rat) < 2 powi bitlen n"
proof -
  have b: "0 < bitlen n" using assms bitlen_eq_zero_iff [of n] bitlen_nonneg [of n] by linarith
  have "2 ^ nat (bitlen n - 1) \<le> n" "n < 2 ^ nat (bitlen n)"
    using bitlen_bounds [OF assms] by simp_all
  then have "(of_int (2 ^ nat (bitlen n - 1)) :: rat) \<le> of_int n" "(of_int n :: rat) < of_int (2 ^ nat (bitlen n))"
    by (simp_all only: of_int_le_iff of_int_less_iff)
  then show "2 powi (bitlen n - 1) \<le> (of_int n :: rat)" "(of_int n :: rat) < 2 powi bitlen n"
    using b by (simp_all add: power_int_def)
qed

lemma expo_bounds:
  assumes "0 < x"
  shows "2 powi expo x \<le> x" "x < 2 powi (expo x + 1)"
proof -
  obtain n d where q: "quotient_of x = (n, d)" by (meson surj_pair)
  have d: "0 < d" using quotient_of_denom_pos [OF q] .
  have x: "x = of_int n / of_int d" using quotient_of_div [OF q] .
  have n: "0 < n" using assms d x by (simp add: zero_less_divide_iff)
  define k where "k = bitlen n - bitlen d"
  note bn = bitlen_bounds_rat [OF n] and bd = bitlen_bounds_rat [OF d]
  have p: "(0 :: rat) < 2 powi i" for i by simp
  have "x < 2 powi bitlen n / 2 powi (bitlen d - 1)"
    unfolding x using bn bd n d p by (intro frac_less) simp_all
  also have "\<dots> = 2 powi (k + 1)" by (simp add: k_def power_int_diff power_int_add)
  finally have hi: "x < 2 powi (k + 1)" .
  have "2 powi (bitlen n - 1) / 2 powi bitlen d \<le> x"
    unfolding x using bn bd n d p by (intro frac_le) simp_all
  then have lo: "2 powi (k - 1) \<le> x" by (simp add: k_def power_int_diff power_int_add)
  have e: "expo x = (if 2 powi k \<le> x then k else k - 1)"
    by (simp add: expo_def q k_def)
  show "2 powi expo x \<le> x" "x < 2 powi (expo x + 1)" using hi lo by (auto simp: e)
qed

section \<open>The error of rounding\<close>

lemma roundEven_error: "\<bar>of_int (roundEven x) - x\<bar> \<le> 1 / 2"
proof -
  have "of_int \<lfloor>x\<rfloor> \<le> x" "x < of_int \<lfloor>x\<rfloor> + 1" by linarith+
  then show ?thesis by (auto simp: roundEven_def Let_def abs_le_iff)
qed

lemma roundEven_of_int [simp]: "roundEven (of_int n) = n"
  by (simp add: roundEven_def)

text \<open>The relative error is at most one part in \<open>2 ^ 53\<close>.\<close>

lemma round64_error: "\<bar>round64 x - x\<bar> \<le> \<bar>x\<bar> / 2 ^ 53"
proof (cases "x = 0")
  case False
  define e where "e = expo \<bar>x\<bar> - 52"
  have p: "(0 :: rat) < 2 powi e" by simp
  have "round64 x - x = (of_int (roundEven (x / 2 powi e)) - x / 2 powi e) * 2 powi e"
    using False by (simp add: round64_def e_def Let_def algebra_simps)
  then have "\<bar>round64 x - x\<bar> = \<bar>of_int (roundEven (x / 2 powi e)) - x / 2 powi e\<bar> * 2 powi e"
    using p by (simp add: abs_mult)
  also have "\<dots> \<le> 1 / 2 * 2 powi e"
    using roundEven_error [of "x / 2 powi e"] p by (intro mult_right_mono) simp_all
  also have "1 / 2 * 2 powi e = (2 powi expo \<bar>x\<bar> :: rat) / 2 ^ 53"
    by (simp add: e_def power_int_diff)
  also have "\<dots> \<le> \<bar>x\<bar> / 2 ^ 53" using expo_bounds(1) [of "\<bar>x\<bar>"] False by (simp add: divide_right_mono)
  finally show ?thesis .
qed (simp add: round64_def)

lemma round64_0 [simp]: "round64 0 = 0"
  by (simp add: round64_def)

lemma round64_nonneg:
  assumes "0 \<le> x"
  shows "0 \<le> round64 x"
proof -
  have "x - round64 x \<le> \<bar>round64 x - x\<bar>" by simp
  also have "\<dots> \<le> x / 2 ^ 53" using round64_error [of x] assms by simp
  also have "\<dots> \<le> x" using assms by (simp add: field_simps)
  finally show ?thesis by simp
qed

text \<open>Integers below \<open>2 ^ 53\<close> are exact.\<close>

lemma round64_of_int:
  assumes "\<bar>n\<bar> < 2 ^ 53"
  shows "round64 (of_int n) = of_int n"
proof (cases "n = 0")
  case False
  define k where "k = expo \<bar>of_int n\<bar>"
  have "2 powi k \<le> \<bar>of_int n :: rat\<bar>" using expo_bounds(1) [of "\<bar>of_int n\<bar>"] False by (simp add: k_def)
  also have "\<dots> < 2 powi 53" using assms by (simp flip: of_int_abs)
  finally have "(2 :: rat) powi k < 2 powi 53" .
  then have "k < 53" using power_int_increasing [of 53 k "2 :: rat"] by (meson not_le one_le_numeral)
  then have m: "2 powi (52 - k) = (of_int (2 ^ nat (52 - k)) :: rat)" by (simp add: power_int_def)
  have "of_int n / 2 powi (k - 52) = (of_int n * 2 powi (52 - k) :: rat)"
    by (simp add: power_int_diff)
  also have "\<dots> = of_int (n * 2 ^ nat (52 - k))" unfolding m by simp
  finally have "roundEven (of_int n / 2 powi (k - 52)) = n * 2 ^ nat (52 - k)" by (simp only: roundEven_of_int)
  then have "round64 (of_int n) = of_int (n * 2 ^ nat (52 - k)) * 2 powi (k - 52)"
    using False by (simp add: round64_def k_def Let_def)
  also have "\<dots> = of_int n * (2 powi (52 - k) * 2 powi (k - 52))" by (simp add: m)
  also have "\<dots> = of_int n" by (simp flip: power_int_add)
  finally show ?thesis .
qed simp

lemma ofInt64_exact: "\<bar>n\<bar> < 2 ^ 53 \<Longrightarrow> ofInt64 n = of_int n"
  by (simp only: ofInt64_def round64_of_int)

lemma truncInt_nonneg: "0 \<le> x \<Longrightarrow> truncInt x = \<lfloor>x\<rfloor>"
  by (simp add: truncInt_def)

section \<open>Integers as bounds survive rounding\<close>

lemma expo_unique:
  assumes "2 powi k \<le> x" "x < 2 powi (k + 1)"
  shows "expo x = k"
proof -
  have pos: "0 < x" using assms(1) by (meson less_le_trans zero_less_numeral zero_less_power_int)
  have less: "i < j" if "(2 :: rat) powi i < 2 powi j" for i j
    using that power_int_increasing [of j i "2 :: rat"] by (meson not_le one_le_numeral)
  have "2 powi expo x < (2 :: rat) powi (k + 1)" "(2 :: rat) powi k < 2 powi (expo x + 1)"
    using expo_bounds [OF pos] assms by linarith+
  then have "expo x < k + 1" "k < expo x + 1" by (simp_all only: less)
  then show ?thesis by linarith
qed

lemma roundEven_ge: "of_int m \<le> x \<Longrightarrow> m \<le> roundEven x"
proof -
  assume "of_int m \<le> x"
  then have "m \<le> \<lfloor>x\<rfloor>" by (simp add: le_floor_iff)
  then show "m \<le> roundEven x" by (auto simp: roundEven_def Let_def)
qed

lemma round64_ge_int:
  assumes "of_int n \<le> x" "0 \<le> n" "n < 2 ^ 53"
  shows "of_int n \<le> round64 x"
proof (cases "x = 0")
  case False
  have "0 \<le> (of_int n :: rat)" using assms(2) by simp
  then have x: "0 < x" using assms(1) False by linarith
  define e where "e = expo x - 52"
  have p: "(0 :: rat) < 2 powi e" by simp
  have r: "round64 x = of_int (roundEven (x / 2 powi e)) * 2 powi e"
    using x by (simp add: round64_def e_def Let_def)
  show ?thesis
  proof (cases "e \<le> 0")
    case True
    have m: "2 powi (- e) = (of_int (2 ^ nat (- e)) :: rat)" using True by (simp add: power_int_def)
    have i: "of_int n / 2 powi e = (of_int (n * 2 ^ nat (- e)) :: rat)"
      using m by (simp add: power_int_minus divide_inverse)
    have "of_int (n * 2 ^ nat (- e)) \<le> x / 2 powi e"
      unfolding i [symmetric] using assms(1) p by (simp add: divide_right_mono)
    then have "of_int (n * 2 ^ nat (- e)) \<le> (of_int (roundEven (x / 2 powi e)) :: rat)"
      using roundEven_ge by (simp only: of_int_le_iff)
    then have "of_int n / 2 powi e \<le> (of_int (roundEven (x / 2 powi e)) :: rat)" unfolding i .
    then show ?thesis unfolding r using p by (simp add: field_simps)
  next
    case False
    have "2 powi (e + 52) \<le> x" using expo_bounds(1) [OF x] by (simp add: e_def)
    then have "of_int (2 ^ 52) \<le> x / 2 powi e" using p by (simp add: power_int_add field_simps)
    then have "(2 :: rat) ^ 52 \<le> of_int (roundEven (x / 2 powi e))"
      using roundEven_ge by (metis of_int_le_iff of_int_numeral of_int_power)
    then have "2 ^ 52 * 2 powi e \<le> round64 x" unfolding r using p by (intro mult_right_mono) simp_all
    moreover have "(2 :: rat) powi 1 \<le> 2 powi e" using False by (intro power_int_increasing) simp_all
    ultimately have "2 ^ 53 \<le> round64 x" by simp
    moreover have "(of_int n :: rat) < 2 ^ 53" using assms(3) by (metis of_int_less_iff of_int_numeral of_int_power)
    ultimately show ?thesis by linarith
  qed
qed (use assms in simp)

section \<open>Durations in seconds\<close>

text \<open>\<open>time.Duration.Seconds\<close>: the whole seconds plus the rounded fraction.\<close>

definition Seconds :: "duration \<Rightarrow> rat" where
  "Seconds d = fadd (ofInt64 (truncInt (of_int d / of_int second)))
     (fdiv (ofInt64 (d - truncInt (of_int d / of_int second) * second)) 1000000000)"

end
