(* ===== verification/Codec.thy ===== *)
theory Codec
  imports Go_Strings Float64
begin

text \<open>
  \<open>media/codec.go\<close> and \<open>media/sdp/formats.go\<close>: the codecs, their frame sizes, and reading the
  codecs of a media description from its formats and \<open>rtpmap\<close> attributes into a slice the caller
  allocates. A write past the end of the slice panics, which is \<^term>\<open>None\<close>.
\<close>

section \<open>Codecs\<close>

record Codec =
  Name :: string
  CPayloadType :: u8
  SampleRate :: u32
  SampleDur :: duration
  NumChannels :: int

definition zeroCodec :: Codec where
  "zeroCodec = \<lparr>Name = [], CPayloadType = 0, SampleRate = 0, SampleDur = 0, NumChannels = 0\<rparr>"

definition CodecAudioUlaw :: Codec where
  "CodecAudioUlaw = \<lparr>Name = ''PCMU'', CPayloadType = 0, SampleRate = 8000, SampleDur = 20 * millisecond, NumChannels = 1\<rparr>"
definition CodecAudioAlaw :: Codec where
  "CodecAudioAlaw = \<lparr>Name = ''PCMA'', CPayloadType = 8, SampleRate = 8000, SampleDur = 20 * millisecond, NumChannels = 1\<rparr>"
definition CodecAudioOpus :: Codec where
  "CodecAudioOpus = \<lparr>Name = ''opus'', CPayloadType = 96, SampleRate = 48000, SampleDur = 20 * millisecond, NumChannels = 2\<rparr>"
definition CodecTelephoneEvent8000 :: Codec where
  "CodecTelephoneEvent8000 = \<lparr>Name = ''telephone-event'', CPayloadType = 101, SampleRate = 8000,
     SampleDur = 20 * millisecond, NumChannels = 1\<rparr>"
definition CodecAudioG722 :: Codec where
  "CodecAudioG722 = \<lparr>Name = ''G722'', CPayloadType = 9, SampleRate = 8000, SampleDur = 20 * millisecond, NumChannels = 1\<rparr>"

definition SampleTimestamp :: "Codec \<Rightarrow> u32" where
  "SampleTimestamp c = of_int (truncInt (fmul (ofInt64 (int (unat (SampleRate c)))) (Seconds (SampleDur c))))"

definition SamplesPCM :: "int \<Rightarrow> Codec \<Rightarrow> int" where
  "SamplesPCM bitSize c =
    goDiv bitSize 8 * truncInt (fmul (ofInt64 (int (unat (SampleRate c)))) (Seconds (SampleDur c))) * NumChannels c"

definition Samples16 :: "Codec \<Rightarrow> int" where
  "Samples16 c = SamplesPCM 16 c"

fun CodecAudioFromList :: "Codec list \<Rightarrow> Codec option" where
  "CodecAudioFromList [] = None"
| "CodecAudioFromList (c # cs) = (if Name c = ''telephone-event'' then CodecAudioFromList cs else Some c)"

text \<open>\<open>s.Codecs[0]\<close> panics on an empty list.\<close>

definition CodecAudioFromSession :: "Codec list \<Rightarrow> Codec list \<Rightarrow> Codec option" where
  "CodecAudioFromSession filterCodecs codecs = (case CodecAudioFromList filterCodecs of
     Some c \<Rightarrow> Some c
   | None \<Rightarrow> (case codecs of c # cs \<Rightarrow> Some c | [] \<Rightarrow> None))"

definition CodecTelephoneEventFromSession :: "Codec list \<Rightarrow> Codec option" where
  "CodecTelephoneEventFromSession active =
    List.find (\<lambda>c. EqualFold (Name c) (Name CodecTelephoneEvent8000)) active"

section \<open>Payload types\<close>

definition FORMAT_TYPE_ULAW :: string where "FORMAT_TYPE_ULAW = ''0''"
definition FORMAT_TYPE_ALAW :: string where "FORMAT_TYPE_ALAW = ''8''"
definition FORMAT_TYPE_G722 :: string where "FORMAT_TYPE_G722 = ''9''"
definition FORMAT_TYPE_OPUS :: string where "FORMAT_TYPE_OPUS = ''96''"
definition FORMAT_TYPE_TELEPHONE_EVENT :: string where "FORMAT_TYPE_TELEPHONE_EVENT = ''101''"

definition CodecAudioFromPayloadType :: "u8 \<Rightarrow> Codec option" where
  "CodecAudioFromPayloadType pt =
    (let f = FormatInt (int (unat pt)) in
     if f = FORMAT_TYPE_ALAW then Some CodecAudioAlaw
     else if f = FORMAT_TYPE_ULAW then Some CodecAudioUlaw
     else if f = FORMAT_TYPE_G722 then Some CodecAudioG722
     else if f = FORMAT_TYPE_OPUS then Some CodecAudioOpus
     else if f = FORMAT_TYPE_TELEPHONE_EVENT then Some CodecTelephoneEvent8000
     else None)"

text \<open>\<open>FormatNumeric\<close> returns the low byte of whatever \<open>Atoi\<close> returns, with its error.\<close>

definition FormatNumeric :: "string \<Rightarrow> u8 \<times> bool" where
  "FormatNumeric f = (case AtoiValue f of (n, ok) \<Rightarrow> (of_int n, ok))"

definition mapSupportedCodec :: "string \<Rightarrow> Codec" where
  "mapSupportedCodec f =
    (if f = FORMAT_TYPE_ALAW then CodecAudioAlaw
     else if f = FORMAT_TYPE_ULAW then CodecAudioUlaw
     else if f = FORMAT_TYPE_G722 then CodecAudioG722
     else if f = FORMAT_TYPE_OPUS then CodecAudioOpus
     else if f = FORMAT_TYPE_TELEPHONE_EVENT then CodecTelephoneEvent8000
     else zeroCodec\<lparr>CPayloadType := fst (FormatNumeric f), SampleRate := 8000, SampleDur := 20 * millisecond\<rparr>)"

definition CodecFromPayloadType :: "u8 \<Rightarrow> Codec" where
  "CodecFromPayloadType pt = mapSupportedCodec (FormatInt (int (unat pt)))"

fun ToNumeric :: "string list \<Rightarrow> int list option" where
  "ToNumeric [] = Some []"
| "ToNumeric (f # fs) = (case Atoi f of None \<Rightarrow> None | Some n \<Rightarrow> map_option ((#) n) (ToNumeric fs))"

definition formatString :: "string \<Rightarrow> string" where
  "formatString v =
    (if v = FORMAT_TYPE_ULAW then ''0(ulaw)'' else if v = FORMAT_TYPE_ALAW then ''8(alaw)''
     else if v = FORMAT_TYPE_G722 then ''9(g722)'' else if v = FORMAT_TYPE_OPUS then ''96(opus)'' else v)"

definition FormatsString :: "string list \<Rightarrow> string" where
  "FormatsString fmts = Join (map formatString fmts) '',''"

section \<open>Reading codecs from a description\<close>

text \<open>One \<open>rtpmap\<close> attribute for a format; an attribute the loop skips gives \<^term>\<open>None\<close>.\<close>

definition rtpmapCodec :: "u8 \<Rightarrow> string \<Rightarrow> string \<Rightarrow> Codec option" where
  "rtpmapCodec pt f a =
    (let pref = ''rtpmap:'' @ f @ '' '' in
     if \<not> HasPrefix a pref then None
     else
       let firstProp = hd (Split (CHR '' '') (drop (length pref) a));
           propsCodec = Split (CHR ''/'') firstProp
       in if length propsCodec < 2 then None
          else case ParseUint 32 (propsCodec ! 1) of
              None \<Rightarrow> None
            | Some rate \<Rightarrow>
                Some \<lparr>Name = propsCodec ! 0, CPayloadType = pt, SampleRate = of_nat rate,
                  SampleDur = 20 * millisecond,
                  NumChannels = (if length propsCodec = 3
                    then (case ParseUint 32 (propsCodec ! 2) of Some k \<Rightarrow> int k | None \<Rightarrow> 1) else 1)\<rparr>)"

definition putCodec :: "Codec \<Rightarrow> Codec list \<times> nat \<Rightarrow> (Codec list \<times> nat) option" where
  "putCodec c st = (case st of (cs, n) \<Rightarrow> if n < length cs then Some (cs[n := c], Suc n) else None)"

fun readAttrs :: "u8 \<Rightarrow> string \<Rightarrow> string list \<Rightarrow> Codec list \<times> nat \<Rightarrow> (Codec list \<times> nat) option" where
  "readAttrs pt f [] st = Some st"
| "readAttrs pt f (a # attrs) st = (case rtpmapCodec pt f a of
     None \<Rightarrow> readAttrs pt f attrs st
   | Some c \<Rightarrow> (case putCodec c st of None \<Rightarrow> None | Some st' \<Rightarrow> readAttrs pt f attrs st'))"

definition readFormat :: "string list \<Rightarrow> string \<Rightarrow> Codec list \<times> nat \<Rightarrow> (Codec list \<times> nat) option" where
  "readFormat attrs f st =
    (if f = ''0'' then putCodec CodecAudioUlaw st
     else if f = ''8'' then putCodec CodecAudioAlaw st
     else if f = ''9'' then putCodec CodecAudioG722 st
     else case ParseUint 8 f of None \<Rightarrow> Some st | Some pt \<Rightarrow> readAttrs (of_nat pt) f attrs st)"

fun readFormats :: "string list \<Rightarrow> string list \<Rightarrow> Codec list \<times> nat \<Rightarrow> (Codec list \<times> nat) option" where
  "readFormats attrs [] st = Some st"
| "readFormats attrs (f # fs) st = (case readFormat attrs f st of None \<Rightarrow> None | Some st' \<Rightarrow> readFormats attrs fs st')"

text \<open>The slice, the count and the error, which is always nil: the errors collected are dropped.\<close>

definition CodecsFromSDPRead ::
  "string list \<Rightarrow> string list \<Rightarrow> Codec list \<Rightarrow> (Codec list \<times> nat \<times> go_error option) option" where
  "CodecsFromSDPRead formats attrs codecsAudio =
    map_option (\<lambda>(cs, n). (cs, n, None)) (readFormats attrs formats (codecsAudio, 0))"

section \<open>What is read\<close>

text \<open>The codecs a format stands for, given the attributes of the description.\<close>

definition codecsOf :: "string list \<Rightarrow> string \<Rightarrow> Codec list" where
  "codecsOf attrs f =
    (if f = ''0'' then [CodecAudioUlaw] else if f = ''8'' then [CodecAudioAlaw]
     else if f = ''9'' then [CodecAudioG722]
     else case ParseUint 8 f of None \<Rightarrow> [] | Some pt \<Rightarrow> List.map_filter (rtpmapCodec (of_nat pt) f) attrs)"

fun putAll :: "Codec list \<Rightarrow> Codec list \<times> nat \<Rightarrow> (Codec list \<times> nat) option" where
  "putAll [] st = Some st"
| "putAll (c # xs) st = (case putCodec c st of None \<Rightarrow> None | Some st' \<Rightarrow> putAll xs st')"

lemma putAll_append: "putAll (xs @ ys) st = (case putAll xs st of None \<Rightarrow> None | Some st' \<Rightarrow> putAll ys st')"
  by (induction xs arbitrary: st) (auto split: option.split)

lemma readAttrs_putAll: "readAttrs pt f attrs st = putAll (List.map_filter (rtpmapCodec pt f) attrs) st"
  by (induction attrs arbitrary: st) (auto simp: map_filter_simps split: option.split)

lemma readFormat_putAll: "readFormat attrs f st = putAll (codecsOf attrs f) st"
  by (simp add: readFormat_def codecsOf_def readAttrs_putAll split: option.split)

lemma readFormats_putAll: "readFormats attrs fs st = putAll (concat (map (codecsOf attrs) fs)) st"
  by (induction fs arbitrary: st) (auto simp: readFormat_putAll putAll_append split: option.split)

lemma putAll_spec:
  "n \<le> length cs \<Longrightarrow> putAll xs (cs, n) =
    (if n + length xs \<le> length cs then Some (take n cs @ xs @ drop (n + length xs) cs, n + length xs) else None)"
proof (induction xs arbitrary: cs n)
  case (Cons x xs)
  show ?case
  proof (cases "n < length cs")
    case True
    then have t: "take (Suc n) (cs[n := x]) = take n cs @ [x]"
      by (simp add: take_Suc_conv_app_nth)
    show ?thesis
      using True Cons.IH [of "Suc n" "cs[n := x]"] by (simp add: putCodec_def t)
  next
    case False
    then show ?thesis by (simp add: putCodec_def)
  qed
qed simp

section \<open>Properties\<close>

text \<open>
  What \<open>CodecsFromSDPRead\<close> reads: the codecs of the formats in their order, each format its
  static codec or one codec per well-formed \<open>rtpmap\<close> line for it, written to the front of the
  slice. It panics exactly when there are more of them than the slice has room for, and it never
  returns an error.
\<close>

theorem CodecsFromSDPRead_spec:
  "CodecsFromSDPRead formats attrs cs =
    (let xs = concat (map (codecsOf attrs) formats) in
     if length xs \<le> length cs then Some (xs @ drop (length xs) cs, length xs, None) else None)"
  by (simp add: CodecsFromSDPRead_def readFormats_putAll putAll_spec Let_def)

lemma length_codecsOf:
  assumes "\<And>f. length (filter (\<lambda>a. HasPrefix a (''rtpmap:'' @ f @ '' '')) attrs) \<le> 1"
  shows "length (codecsOf attrs f) \<le> 1"
proof -
  have le: "length (List.map_filter (rtpmapCodec pt f) as)
      \<le> length (filter (\<lambda>a. HasPrefix a (''rtpmap:'' @ f @ '' '')) as)" for pt as
    by (induction as) (auto simp: map_filter_simps rtpmapCodec_def Let_def split: option.splits)
  show ?thesis
    using le [of _ attrs] assms [of f] by (auto simp: codecsOf_def split: option.split intro: order.trans)
qed

lemma in_map_filter: "c \<in> set (List.map_filter g xs) \<Longrightarrow> \<exists>x. g x = Some c"
  by (induction xs) (auto simp: map_filter_simps split: option.splits)

text \<open>
  A description with at most one \<open>rtpmap\<close> line per format never makes the reader panic on a
  slice with one place per format, and every codec it reads carries a payload type of its formats.
\<close>

theorem CodecsFromSDPRead_no_panic:
  assumes "\<And>f. length (filter (\<lambda>a. HasPrefix a (''rtpmap:'' @ f @ '' '')) attrs) \<le> 1"
  shows "\<exists>cs n. CodecsFromSDPRead formats attrs (replicate (length formats) zeroCodec) = Some (cs, n, None)
    \<and> n \<le> length formats \<and> (\<forall>c \<in> set (take n cs). \<exists>f \<in> set formats. ParseUint 8 f = Some (unat (CPayloadType c)))"
proof -
  let ?xs = "concat (map (codecsOf attrs) formats)"
  have l: "length ?xs \<le> length formats"
  proof (induction formats)
    case (Cons f fs)
    then show ?case using length_codecsOf [OF assms, of f] by simp
  qed simp
  have static: "ParseUint 8 ''0'' = Some 0" "ParseUint 8 ''8'' = Some 8" "ParseUint 8 ''9'' = Some 9"
    by (simp_all add: ParseUint_def isDigit_def decimalValue_def digitValue_def)
  have pt: "ParseUint 8 f = Some (unat (CPayloadType c))" if c: "c \<in> set (codecsOf attrs f)" for c f
  proof (cases "f = ''0'' \<or> f = ''8'' \<or> f = ''9''")
    case True
    then show ?thesis
      using c static
      by (auto simp: codecsOf_def CodecAudioUlaw_def CodecAudioAlaw_def CodecAudioG722_def split: if_splits)
  next
    case False
    then obtain pt where p: "ParseUint 8 f = Some pt" "c \<in> set (List.map_filter (rtpmapCodec (of_nat pt) f) attrs)"
      using c by (cases "ParseUint 8 f") (simp_all add: codecsOf_def)
    obtain a where "rtpmapCodec (of_nat pt) f a = Some c" using in_map_filter [OF p(2)] by blast
    then have "CPayloadType c = of_nat pt"
      by (auto simp: rtpmapCodec_def Let_def split: if_splits option.splits)
    moreover have "pt < 256" using ParseUint_bound [OF p(1)] by simp
    ultimately show ?thesis using p(1) by (simp add: unat_of_nat)
  qed
  show ?thesis using l pt by (auto simp: CodecsFromSDPRead_spec Let_def)
qed

theorem CodecsFromSDPRead_no_panic_witness:
  "\<exists>cs n. CodecsFromSDPRead [''0'', ''96''] [''rtpmap:96 opus/48000/2''] [zeroCodec, zeroCodec] = Some (cs, n, None)"
proof -
  have "\<exists>cs n. CodecsFromSDPRead [''0'', ''96''] [''rtpmap:96 opus/48000/2''] (replicate (length [''0'', ''96'']) zeroCodec)
      = Some (cs, n, None) \<and> n \<le> length [''0'', ''96'']
      \<and> (\<forall>c \<in> set (take n cs). \<exists>f \<in> set [''0'', ''96'']. ParseUint 8 f = Some (unat (CPayloadType c)))"
    by (rule CodecsFromSDPRead_no_panic) simp
  then show ?thesis by auto
qed

text \<open>
  A peer that repeats an \<open>rtpmap\<close> line makes the reader panic: with one format and the slice of
  one codec that the caller allocates for it, two \<open>rtpmap\<close> lines for that format write past the end
  of the slice.
\<close>

theorem CodecsFromSDPRead_duplicate_panics:
  "CodecsFromSDPRead [''96''] [''rtpmap:96 opus/48000/2'', ''rtpmap:96 opus/48000/2'']
     (replicate (length [''96'']) zeroCodec) = None"
proof -
  have "ParseUint 8 ''96'' = Some 96"
    by (simp add: ParseUint_def isDigit_def decimalValue_def digitValue_def)
  moreover have "ParseUint 32 ''48000'' = Some 48000"
    by (simp add: ParseUint_def isDigit_def decimalValue_def digitValue_def)
  ultimately have "length (codecsOf [''rtpmap:96 opus/48000/2'', ''rtpmap:96 opus/48000/2''] ''96'') = 2"
    by (simp add: codecsOf_def rtpmapCodec_def HasPrefix_def map_filter_simps)
  then show ?thesis by (simp add: CodecsFromSDPRead_spec Let_def)
qed

section \<open>Frame sizes\<close>

lemma Seconds_20ms: "Seconds (20 * millisecond) = 5764607523034235 / 288230376151711744"
proof -
  have e: "expo (1 / 50) = - 6" by (rule expo_unique) (simp_all add: power_int_def power_one_over)
  have f: "\<lfloor>144115188075855872 / 25 :: rat\<rfloor> = 5764607523034234" by (rule floor_unique) simp_all
  have r: "round64 (1 / 50) = 5764607523034235 / 288230376151711744"
    by (simp add: round64_def e Let_def power_int_def power_one_over roundEven_def f)
  have e2: "expo (5764607523034235 / 288230376151711744) = - 6"
    by (rule expo_unique) (simp_all add: power_int_def power_one_over)
  have "round64 (5764607523034235 / 288230376151711744)
      = of_int (roundEven (of_int 5764607523034235)) * 2 powi (- 58)"
    by (simp add: round64_def e2 Let_def power_int_def power_one_over del: roundEven_of_int)
  then have r2: "round64 (5764607523034235 / 288230376151711744) = 5764607523034235 / 288230376151711744"
    by (simp only: roundEven_of_int) (simp add: power_int_def power_one_over)
  have z: "\<lfloor>1 / 50 :: rat\<rfloor> = 0" by (rule floor_unique) simp_all
  have i: "round64 20000000 = 20000000" using round64_of_int [of 20000000] by simp
  have d: "fdiv (ofInt64 20000000) 1000000000 = round64 (1 / 50)" by (simp add: fdiv_def ofInt64_def i)
  have "Seconds (20 * millisecond) = round64 (fdiv (ofInt64 20000000) 1000000000)"
    by (simp add: Seconds_def fadd_def truncInt_def z ofInt64_def [of 0])
  then show ?thesis by (simp only: d r r2)
qed

lemma frame_samples:
  assumes "k < 2 ^ 32"
  shows "truncInt (fmul (ofInt64 (50 * int k)) (Seconds (20 * millisecond))) = int k"
proof -
  let ?x = "(50 * of_nat k :: rat) * (5764607523034235 / 288230376151711744)"
  have k: "(of_nat k :: rat) < 2 ^ 32" using assms by (metis of_nat_less_iff of_nat_numeral of_nat_power)
  have "\<bar>50 * int k\<bar> < 2 ^ 53" using assms by simp
  then have i: "ofInt64 (50 * int k) = 50 * of_nat k" by (simp add: ofInt64_exact)
  have x: "of_nat k \<le> ?x" "?x \<le> of_nat k + of_nat k * (1 / 2 ^ 55)" by (simp_all add: field_simps)
  have lo: "of_nat k \<le> round64 ?x" using round64_ge_int [of "int k" ?x] x(1) assms by simp
  have "round64 ?x \<le> ?x + ?x / 2 ^ 53"
    using round64_error [of ?x] abs_le_D1 [of "round64 ?x - ?x" "\<bar>?x\<bar> / 2 ^ 53"] by simp
  also have "\<dots> < of_nat k + 1" using x(2) k by (simp add: field_simps)
  finally have "\<lfloor>round64 ?x\<rfloor> = int k" using lo by (intro floor_unique) simp_all
  moreover have "0 \<le> round64 ?x" using lo by (meson of_nat_0_le_iff order.trans)
  ultimately show ?thesis by (simp only: fmul_def i Seconds_20ms truncInt_nonneg)
qed

text \<open>
  For a codec with 20 millisecond frames whose clock rate is a multiple of 50, as that of every
  codec of the library is, \<open>SampleTimestamp\<close> is exact: the floating-point product of the rate and
  the frame duration, both rounded, truncates to exactly the number of clock ticks of a frame.
\<close>

theorem SampleTimestamp_exact:
  assumes "SampleDur c = 20 * millisecond" "unat (SampleRate c) = 50 * k"
  shows "unat (SampleTimestamp c) = k \<and> Samples16 c = 2 * int k * NumChannels c"
proof -
  have "unat (SampleRate c) < 2 ^ LENGTH(32)" by (rule unsigned_less)
  then have k: "k < 2 ^ 32" using assms(2) by simp
  have e: "int (unat (SampleRate c)) = 50 * int k" using assms(2) by simp
  show ?thesis
    using k unfolding SampleTimestamp_def Samples16_def SamplesPCM_def assms(1) e frame_samples [OF k]
    by (simp add: unat_of_nat)
qed

theorem SampleTimestamp_exact_witness:
  "unat (SampleTimestamp CodecAudioOpus) = 960 \<and> Samples16 CodecAudioOpus = 3840"
  using SampleTimestamp_exact [of CodecAudioOpus 960] by (simp add: CodecAudioOpus_def)

end
