(* ===== verification/Audio.thy ===== *)
theory Audio
  imports Codec
begin

text \<open>
  The audio helpers of directory \<open>audio\<close>: mixing of 16-bit samples (\<open>utils.go\<close>), the wav writer
  (\<open>wav_writer.go\<close>), the silence a recording is filled with and the stereo recording
  (\<open>monitor_pcm.go\<close>). A buffer is a list of bytes; an index out of range, which panics, is \<^term>\<open>None\<close>.
\<close>

section \<open>Samples\<close>

text \<open>\<open>binary.LittleEndian\<close>.\<close>

definition le16 :: "u16 \<Rightarrow> bytes" where
  "le16 v = [ucast v, ucast (drop_bit 8 v)]"

definition le32 :: "u32 \<Rightarrow> bytes" where
  "le32 v = [ucast v, ucast (drop_bit 8 v), ucast (drop_bit 16 v), ucast (drop_bit 24 v)]"

definition getLe16 :: "u8 \<Rightarrow> u8 \<Rightarrow> u16" where
  "getLe16 a b = word_cat b a"

lemma getLe16_le16: "getLe16 (ucast v) (ucast (drop_bit 8 v)) = v"
  unfolding getLe16_def
  by (rule bit_word_eqI) (auto simp: bit_word_cat_iff bit_ucast_iff bit_drop_bit_eq)

lemma le16_getLe16: "le16 (getLe16 a b) = [a, b]"
  unfolding getLe16_def le16_def
  by (auto intro!: bit_word_eqI simp: bit_word_cat_iff bit_ucast_iff bit_drop_bit_eq)

text \<open>The samples of a buffer as numbers; \<open>int16\<close> reads a word as signed.\<close>

fun samples :: "bytes \<Rightarrow> int list" where
  "samples (a # b # xs) = sint (getLe16 a b) # samples xs"
| "samples xs = []"

definition clip :: "int \<Rightarrow> int" where
  "clip x = (if x > 32767 then 32767 else if x < -32768 then -32768 else x)"

text \<open>The loop of \<open>PCMMix\<close> and \<open>PCMUnmix\<close>: as many bytes as were read, two at a time. A
  sample is read before it is written, so the destination may be the mixed buffer itself.\<close>

fun pcmLoop :: "(int \<Rightarrow> int \<Rightarrow> int) \<Rightarrow> bytes \<Rightarrow> bytes \<Rightarrow> bytes \<Rightarrow> bytes option" where
  "pcmLoop f dst mixed [] = Some dst"
| "pcmLoop f (d0 # d1 # dst) (m0 # m1 # mixed) (r0 # r1 # rest) =
    map_option (\<lambda>t. le16 (word_of_int (clip (f (sint (getLe16 m0 m1)) (sint (getLe16 r0 r1))))) @ t) (pcmLoop f dst mixed rest)"
| "pcmLoop f dst mixed rest = None"

definition PCMMix :: "bytes \<Rightarrow> bytes \<Rightarrow> bytes \<Rightarrow> (int \<times> bytes) option" where
  "PCMMix dst mixed frame = map_option (\<lambda>out. (int (length frame), out)) (pcmLoop (+) dst mixed frame)"

definition PCMUnmix :: "bytes \<Rightarrow> bytes \<Rightarrow> bytes \<Rightarrow> bytes option" where
  "PCMUnmix dst mixed frame = pcmLoop (-) dst mixed frame"

section \<open>The wav writer\<close>

text \<open>
  The file behind the writer: its bytes and the position. A write that fails has written a part of
  what it was given; \<^term>\<open>None\<close> is a write without an error.
\<close>

record wavFile =
  fbytes :: bytes
  fpos :: nat

definition fileWrite :: "nat option \<Rightarrow> bytes \<Rightarrow> wavFile \<Rightarrow> nat \<times> bool \<times> wavFile" where
  "fileWrite r data f =
    (let k = (case r of None \<Rightarrow> length data | Some k \<Rightarrow> min k (length data)) in
     (k, r \<noteq> None, f\<lparr>fbytes := take (fpos f) (fbytes f) @ take k data @ drop (fpos f + k) (fbytes f), fpos := fpos f + k\<rparr>))"

record WavWriter =
  SampleRateW :: int
  BitDepth :: int
  NumChansW :: int
  AudioFormat :: int
  wavW :: wavFile
  headersWritten :: bool
  dataSize :: int

definition NewWavWriter :: "wavFile \<Rightarrow> WavWriter" where
  "NewWavWriter f = \<lparr>SampleRateW = 8000, BitDepth = 16, NumChansW = 2, AudioFormat = 1, wavW = f,
     headersWritten = False, dataSize = 0\<rparr>"

definition asciiBytes :: "string \<Rightarrow> bytes" where
  "asciiBytes s = map of_char s"

text \<open>The header, with the conversions to 32 and 16 bits of the source.\<close>

definition wavHeader :: "WavWriter \<Rightarrow> bytes" where
  "wavHeader ww =
    asciiBytes ''RIFF'' @ le32 (word_of_int (dataSize ww + 44 - 8)) @ asciiBytes ''WAVE'' @
    asciiBytes ''fmt '' @ le32 16 @ le16 (word_of_int (AudioFormat ww)) @ le16 (word_of_int (NumChansW ww)) @
    le32 (word_of_int (SampleRateW ww)) @ le32 (word_of_int (goDiv (SampleRateW ww * BitDepth ww * NumChansW ww) 8)) @
    le16 (word_of_int (goDiv (BitDepth ww * NumChansW ww) 8)) @ le16 (word_of_int (BitDepth ww)) @
    asciiBytes ''data'' @ le32 (word_of_int (dataSize ww))"

definition writeHeader :: "nat option \<Rightarrow> WavWriter \<Rightarrow> bool \<times> WavWriter" where
  "writeHeader r ww = (case fileWrite r (wavHeader ww) (wavW ww) of (n, err, f) \<Rightarrow> (err, ww\<lparr>wavW := f\<rparr>))"

text \<open>\<open>Write\<close>, given what the write of the header, if it is due, and of the audio report.\<close>

definition wavWrite :: "nat option \<Rightarrow> nat option \<Rightarrow> bytes \<Rightarrow> WavWriter \<Rightarrow> nat \<times> bool \<times> WavWriter" where
  "wavWrite rh rd audio ww =
    (let (n, err, ww) =
       (if headersWritten ww
        then (case fileWrite rd audio (wavW ww) of (n, err, f) \<Rightarrow> (n, err, ww\<lparr>wavW := f\<rparr>))
        else (case writeHeader rh ww of (err, ww) \<Rightarrow>
          if err then (0, True, ww)
          else (case fileWrite rd audio (wavW ww) of (n, err, f) \<Rightarrow> (n, err, ww\<lparr>headersWritten := True, wavW := f\<rparr>))))
     in (n, err, ww\<lparr>dataSize := dataSize ww + int n\<rparr>))"

definition wavClose :: "bool \<Rightarrow> nat option \<Rightarrow> WavWriter \<Rightarrow> bool \<times> WavWriter" where
  "wavClose seekFails r ww =
    (if seekFails then (True, ww) else writeHeader r (ww\<lparr>wavW := (wavW ww)\<lparr>fpos := 0\<rparr>\<rparr>))"

section \<open>Silence in a recording\<close>

text \<open>
  The loop of \<open>writeSilenceUnsafe\<close>, on 32-bit numbers: the frames of silence it writes when no
  write fails, starting with \<open>i\<close> at two frames.
\<close>

partial_function (option) silenceLoop :: "u32 \<Rightarrow> u32 \<Rightarrow> u32 \<Rightarrow> nat option" where
  "silenceLoop srt diff i =
    (if i < diff then Option.bind (silenceLoop srt diff (i + srt)) (\<lambda>n. Some (Suc n)) else Some 0)"

definition silenceFrames :: "u32 \<Rightarrow> u32 \<Rightarrow> nat option" where
  "silenceFrames srt diff = silenceLoop srt diff (2 * srt)"

section \<open>The stereo recording\<close>

definition chunkSize :: nat where "chunkSize = 2048"

fun interleaveBytes :: "bytes \<Rightarrow> bytes \<Rightarrow> bytes" where
  "interleaveBytes (a # b # xs) (c # d # ys) = a # b # c # d # interleaveBytes xs ys"
| "interleaveBytes xs ys = []"

definition padTo :: "nat \<Rightarrow> bytes \<Rightarrow> bytes" where
  "padTo n xs = xs @ replicate (n - length xs) 0"

text \<open>
  \<open>interleave\<close> reads both files in chunks, here without an error of the files; the shorter one is filled with silence. The files have an
  even number of bytes, as they are written in whole samples.
\<close>

function interleave :: "bytes \<Rightarrow> bytes \<Rightarrow> bytes" where
  "interleave fr fw =
    (let n = max (min chunkSize (length fr)) (min chunkSize (length fw)) in
     if n = 0 then []
     else interleaveBytes (padTo n (take chunkSize fr)) (padTo n (take chunkSize fw))
       @ interleave (drop chunkSize fr) (drop chunkSize fw))"
  by auto
termination
proof (relation "measure (\<lambda>(fr, fw). length fr + length fw)")
  fix fr fw :: bytes and n
  assume "n = max (min chunkSize (length fr)) (min chunkSize (length fw))" "n \<noteq> 0"
  then have "0 < length fr \<or> 0 < length fw" by auto
  then have "length fr - 2048 + (length fw - 2048) < length fr + length fw" by linarith
  then show "((drop chunkSize fr, drop chunkSize fw), fr, fw) \<in> measure (\<lambda>(fr, fw). length fr + length fw)"
    by (simp add: chunkSize_def)
qed simp

declare interleave.simps [simp del]


section \<open>Mixing\<close>

lemma clip_bounds: "- 32768 \<le> clip x" "clip x \<le> 32767"
  by (simp_all add: clip_def)

lemma clip_idle: "- 32768 \<le> x \<Longrightarrow> x \<le> 32767 \<Longrightarrow> clip x = x"
  by (simp add: clip_def)

lemma sint_int16:
  assumes "- 32768 \<le> x" "x \<le> 32767"
  shows "sint (word_of_int x :: u16) = x"
proof -
  have "signed_take_bit 15 x = x" using assms by (intro signed_take_bit_int_eq_self) simp_all
  then show ?thesis by (simp add: sint_sbintrunc')
qed

lemma sint_getLe16: "- 32768 \<le> sint (getLe16 a b)" "sint (getLe16 a b) \<le> 32767"
  using sint_ge [of "getLe16 a b"] sint_lt [of "getLe16 a b"] by simp_all

lemma samples_le16: "samples (le16 (word_of_int (clip x)) @ t) = clip x # samples t"
  using sint_int16 [OF clip_bounds, of x] by (simp add: le16_def getLe16_le16)

lemma samples_bounds: "v \<in> set (samples xs) \<Longrightarrow> - 32768 \<le> v \<and> v \<le> 32767"
  by (induction xs rule: samples.induct) (auto simp: sint_getLe16)

lemma pcmLoop_nth:
  assumes "pcmLoop f dst mixed frame = Some out" "i < length frame div 2"
  shows "samples out ! i = clip (f (samples mixed ! i) (samples frame ! i))"
  using assms
proof (induction f dst mixed frame arbitrary: out i rule: pcmLoop.induct)
  case (2 f d0 d1 dst m0 m1 mixed r0 r1 rest)
  then obtain t where t: "pcmLoop f dst mixed rest = Some t"
    "out = le16 (word_of_int (clip (f (sint (getLe16 m0 m1)) (sint (getLe16 r0 r1))))) @ t" by auto
  show ?case using 2 t by (cases i) (auto simp: samples_le16)
qed simp_all

lemma pcmLoop_total:
  assumes "even (length frame)" "length frame \<le> length dst" "length frame \<le> length mixed"
  shows "\<exists>out. pcmLoop f dst mixed frame = Some out \<and> length out = length dst \<and> drop (length frame) out = drop (length frame) dst"
  using assms
proof (induction f dst mixed frame rule: pcmLoop.induct)
  case (2 f d0 d1 dst m0 m1 mixed r0 r1 rest)
  then show ?case by (auto simp: le16_def)
qed auto

text \<open>
  C40. Taking a participant out of the mix. A frame mixed into a buffer gives, sample by sample, the sum
  cut off at the limits of 16 bits, never a wrapped one; taking the same frame out again gives back
  the buffer in every sample that was not cut off. Bytes past the frame stay as they were.
\<close>

theorem pcm_mix_unmix:
  assumes "even (length frame)" "length frame \<le> length dst" "length frame \<le> length mixed" "length frame \<le> length dst'"
  shows "\<exists>out out'. PCMMix dst mixed frame = Some (int (length frame), out) \<and> PCMUnmix dst' out frame = Some out' \<and>
    drop (length frame) out = drop (length frame) dst \<and>
    (\<forall>i < length frame div 2. let s = samples mixed ! i + samples frame ! i in
       samples out ! i = clip s \<and> (- 32768 \<le> s \<and> s \<le> 32767 \<longrightarrow> samples out' ! i = samples mixed ! i))"
proof -
  obtain out where out: "pcmLoop (+) dst mixed frame = Some out" "length out = length dst"
    "drop (length frame) out = drop (length frame) dst"
    using pcmLoop_total [OF assms(1,2,3)] by blast
  obtain out' where out': "pcmLoop (-) dst' out frame = Some out'"
    using pcmLoop_total [OF assms(1,4), of out] assms(2) out(2) by force
  have len: "length (samples xs) = length xs div 2" for xs by (induction xs rule: samples.induct) auto
  have "samples out' ! i = samples mixed ! i"
    if "i < length frame div 2" "- 32768 \<le> samples mixed ! i + samples frame ! i" "samples mixed ! i + samples frame ! i \<le> 32767" for i
  proof -
    have "samples mixed ! i \<in> set (samples mixed)" using that(1) assms(3) len [of mixed] by (intro nth_mem) simp
    then show ?thesis
      using pcmLoop_nth [OF out(1) that(1)] pcmLoop_nth [OF out' that(1)] that samples_bounds clip_idle by auto
  qed
  then show ?thesis using out out' pcmLoop_nth [OF out(1)] by (auto simp: PCMMix_def PCMUnmix_def Let_def)
qed

theorem pcm_mix_unmix_witness:
  "\<exists>out out'. PCMMix [0, 0, 9] [0xFF, 0x7F] [1, 0] = Some (2, out) \<and> samples out ! 0 = 32767 \<and>
    PCMMix [0, 0] [4, 0] [1, 0] = Some (2, out') \<and> samples out' ! 0 = 5"
proof -
  have s: "sint (getLe16 0xFF 0x7F) = 32767" "sint (getLe16 1 0) = 1" "sint (getLe16 4 0) = 4"
    by (simp_all add: getLe16_def word_cat_eq')
  show ?thesis
    using pcm_mix_unmix [of "[1, 0]" "[0, 0, 9]" "[0xFF, 0x7F]" "[0, 0]"] pcm_mix_unmix [of "[1, 0]" "[0, 0]" "[4, 0]" "[0, 0]"]
    by (auto simp: s clip_def Let_def)
qed


section \<open>A wav file\<close>

lemma le32_length [simp]: "length (le32 v) = 4"
  by (simp add: le32_def)

lemma wavHeader_length [simp]: "length (wavHeader ww) = 44"
  by (simp add: wavHeader_def asciiBytes_def le16_def le32_def)

lemma wavHeader_file [simp]: "wavHeader (ww\<lparr>wavW := f\<rparr>) = wavHeader ww"
  by (simp add: wavHeader_def)

text \<open>What a write has put into the file.\<close>

definition written :: "nat option \<times> bytes \<Rightarrow> bytes" where
  "written w = (case fst w of None \<Rightarrow> snd w | Some k \<Rightarrow> take k (snd w))"

lemma fileWrite_end:
  assumes "fpos f = length (fbytes f)" "fileWrite r data f = (n, err, f')"
  shows "fbytes f' = fbytes f @ written (r, data)" "fpos f' = length (fbytes f')" "n = length (written (r, data))" "err \<longleftrightarrow> r \<noteq> None"
  using assms by (auto simp: fileWrite_def written_def Let_def min_def split: option.splits)

definition wavInv :: "bytes \<Rightarrow> WavWriter \<Rightarrow> bool" where
  "wavInv data ww = (dataSize ww = int (length data) \<and> fpos (wavW ww) = length (fbytes (wavW ww)) \<and>
     (if headersWritten ww then \<exists>h. length h = 44 \<and> fbytes (wavW ww) = h @ data else data = [] \<and> fbytes (wavW ww) = []))"

lemma wavWrite_inv:
  assumes "wavInv data ww" "wavWrite None r audio ww = (n, err, ww')"
  shows "wavInv (data @ written (r, audio)) ww' \<and> n = length (written (r, audio)) \<and> (err \<longleftrightarrow> r \<noteq> None)"
proof (cases "headersWritten ww")
  case True
  obtain n1 err1 f where f: "fileWrite r audio (wavW ww) = (n1, err1, f)" by (metis prod_cases3)
  then show ?thesis using assms True fileWrite_end [OF _ f] by (auto simp: wavWrite_def wavInv_def)
next
  case False
  obtain n0 err0 f0 where f0: "fileWrite None (wavHeader ww) (wavW ww) = (n0, err0, f0)" by (metis prod_cases3)
  have h: "fbytes f0 = wavHeader ww" "fpos f0 = length (fbytes f0)" "\<not> err0"
    using fileWrite_end [OF _ f0] assms(1) False by (auto simp: wavInv_def written_def)
  obtain n1 err1 f where f: "fileWrite r audio f0 = (n1, err1, f)" by (metis prod_cases3)
  show ?thesis using assms False f0 h f fileWrite_end [OF h(2) f]
    by (auto simp: wavWrite_def wavInv_def writeHeader_def)
qed

definition wavRun :: "(nat option \<times> bytes) list \<Rightarrow> WavWriter \<Rightarrow> WavWriter" where
  "wavRun ws ww = fold (\<lambda>w ww. snd (snd (wavWrite None (fst w) (snd w) ww))) ws ww"

lemma wavRun_inv: "wavInv data ww \<Longrightarrow> wavInv (data @ concat (map written ws)) (wavRun ws ww)"
proof (induction ws arbitrary: data ww)
  case (Cons w ws)
  obtain n err ww' where ww': "wavWrite None (fst w) (snd w) ww = (n, err, ww')" by (metis prod_cases3)
  from wavWrite_inv [OF Cons.prems ww'] Cons.IH [of "data @ written w" ww'] show ?case
    by (simp add: wavRun_def ww')
qed (simp add: wavRun_def)




section \<open>Silence\<close>

text \<open>A codec whose frames have no ticks would keep the loop from ending.\<close>

lemma silence_hangs:
  assumes "diff \<noteq> 0"
  shows "silenceFrames 0 diff = None"
proof -
  have "srt = 0 \<longrightarrow> \<not> i < diff" if "silenceLoop srt diff i = Some n" for srt diff i n
    using that
  proof (rule silenceLoop.raw_induct [rotated])
    fix f :: "u32 \<Rightarrow> u32 \<Rightarrow> u32 \<Rightarrow> nat option" and srt diff i n
    assume "\<And>srt diff i n. f srt diff i = Some n \<Longrightarrow> srt = 0 \<longrightarrow> \<not> i < diff"
      "(if i < diff then Option.bind (f srt diff (i + srt)) (\<lambda>n. Some (Suc n)) else Some 0) = Some n"
    then show "srt = 0 \<longrightarrow> \<not> i < diff" by (cases "f srt diff (i + srt)") (fastforce split: if_splits)+
  qed
  from this [of 0 diff 0] show ?thesis
    using assms by (cases "silenceFrames 0 diff") (auto simp: silenceFrames_def word_gt_0)
qed

lemma silenceLoop_returns:
  assumes "0 < srt" "uint diff + uint srt \<le> 2 ^ 32"
  shows "\<exists>k. silenceLoop srt diff i = Some k \<and> uint diff \<le> uint i + int k * uint srt \<and>
    (0 < k \<longrightarrow> uint i + (int k - 1) * uint srt < uint diff)"
proof (induction "nat (uint diff - uint i)" arbitrary: i rule: less_induct)
  case less
  show ?case
  proof (cases "i < diff")
    case False
    then show ?thesis by (subst silenceLoop.simps) (simp add: word_less_def)
  next
    case True
    have srt: "0 < uint srt" using assms(1) by (simp add: word_less_def)
    have lt: "uint i < uint diff" using True by (simp add: word_less_def)
    then have add: "uint (i + srt) = uint i + uint srt" using assms(2) by (simp add: uint_plus_if')
    then have "nat (uint diff - uint (i + srt)) < nat (uint diff - uint i)" using srt lt by simp
    from less [OF this] obtain k where k: "silenceLoop srt diff (i + srt) = Some k"
      "uint diff \<le> uint (i + srt) + int k * uint srt" "0 < k \<longrightarrow> uint (i + srt) + (int k - 1) * uint srt < uint diff"
      by blast
    have "silenceLoop srt diff i = Some (Suc k)" using True k(1) by (subst silenceLoop.simps) simp
    moreover have "uint i + int k * uint srt < uint diff"
      using k(3) lt add by (cases k) (simp_all add: algebra_simps)
    ultimately show ?thesis using k(2) add by (intro exI [of _ "Suc k"]) (simp add: algebra_simps)
  qed
qed

text \<open>
  The gaps of a recording are filled. When \<open>diff\<close> ticks have passed since the last frame of \<open>srt\<close>
  ticks, the loop ends, and with the frames of silence it writes the recording is less than two
  frames behind and never ahead: one frame is still to come, and the fraction of another. It is
  assumed that a frame is not empty and the numbers are far enough from the limit of 32 bits.
\<close>

theorem silence_fills_gap:
  assumes "0 < srt" "uint diff + uint srt \<le> 2 ^ 32" "2 * uint srt < 2 ^ 32"
  shows "\<exists>k. silenceFrames srt diff = Some k \<and> uint diff \<le> (int k + 2) * uint srt \<and>
    (0 < k \<longrightarrow> (int k + 1) * uint srt < uint diff)"
proof -
  have "uint (2 * srt) = 2 * uint srt" using assms(3) by (simp add: uint_word_ariths(3) mod_pos_pos_trivial)
  then show ?thesis using silenceLoop_returns [OF assms(1,2), of "2 * srt"]
    by (auto simp: silenceFrames_def algebra_simps)
qed

theorem silence_fills_gap_witness:
  "\<exists>k. silenceFrames 160 1000 = Some k \<and> k = 5"
proof -
  obtain k where "silenceFrames 160 1000 = Some k" "1000 \<le> (int k + 2) * 160" "0 < k \<longrightarrow> (int k + 1) * 160 < 1000"
    using silence_fills_gap [of 160 1000] by auto
  then show ?thesis by (intro exI [of _ k]) auto
qed

section \<open>Both channels\<close>

lemma interleaveBytes_append:
  "length a = length c \<Longrightarrow> even (length a) \<Longrightarrow> interleaveBytes (a @ b) (c @ d) = interleaveBytes a c @ interleaveBytes b d"
  by (induction a c rule: interleaveBytes.induct) (auto simp: length_Suc_conv)

fun leftOf :: "bytes \<Rightarrow> bytes" where
  "leftOf (a # b # c # d # xs) = a # b # leftOf xs"
| "leftOf xs = []"

fun rightOf :: "bytes \<Rightarrow> bytes" where
  "rightOf (a # b # c # d # xs) = c # d # rightOf xs"
| "rightOf xs = []"

lemma channels_interleaveBytes:
  "length a = length c \<Longrightarrow> even (length a) \<Longrightarrow> leftOf (interleaveBytes a c) = a \<and> rightOf (interleaveBytes a c) = c"
  by (induction a c rule: interleaveBytes.induct) (auto simp: length_Suc_conv)

lemma padTo_split:
  assumes "chunkSize \<le> n"
  shows "padTo n xs = padTo chunkSize (take chunkSize xs) @ padTo (n - chunkSize) (drop chunkSize xs)"
proof (cases "length xs \<le> chunkSize")
  case True
  then show ?thesis using assms by (simp add: padTo_def replicate_add [symmetric])
next
  case False
  then have "padTo chunkSize (take chunkSize xs) = take chunkSize xs" by (simp add: padTo_def)
  then show ?thesis using False by (simp add: padTo_def)
qed

lemma interleave_padded:
  assumes "even (length fr)" "even (length fw)" "n = max (length fr) (length fw)"
  shows "interleave fr fw = interleaveBytes (padTo n fr) (padTo n fw)"
  using assms
proof (induction fr fw arbitrary: n rule: interleave.induct)
  case (1 fr fw)
  let ?k = "max (min chunkSize (length fr)) (min chunkSize (length fw))"
  show ?case
  proof (cases "n \<le> chunkSize")
    case True
    then have k: "?k = n" "take chunkSize fr = fr" "take chunkSize fw = fw" "drop chunkSize fr = []" "drop chunkSize fw = []"
      using 1(4) by auto
    have "interleave [] [] = []" by (simp add: interleave.simps)
    moreover have "fr = []" if "n = 0" using that 1(4) by simp
    ultimately show ?thesis using k by (subst interleave.simps) (simp add: padTo_def Let_def)
  next
    case False
    then have k: "?k = chunkSize" using 1(4) by linarith
    have c: "chunkSize \<noteq> 0" "even chunkSize" by (simp_all add: chunkSize_def)
    have r: "interleave (drop chunkSize fr) (drop chunkSize fw)
        = interleaveBytes (padTo (n - chunkSize) (drop chunkSize fr)) (padTo (n - chunkSize) (drop chunkSize fw))"
    proof -
      have "n - chunkSize = max (length (drop chunkSize fr)) (length (drop chunkSize fw))" using 1(4) by (simp add: max_def)
      then show ?thesis using 1(1) [OF refl, of "n - chunkSize"] 1(2,3) k c by simp
    qed
    have "length (padTo chunkSize (take chunkSize fr)) = chunkSize" "length (padTo chunkSize (take chunkSize fw)) = chunkSize"
      by (simp_all add: padTo_def)
    then show ?thesis using False k c r
      by (subst interleave.simps) (simp add: padTo_split [of n] interleaveBytes_append Let_def)
  qed
qed

text \<open>
  C39. A stereo recording has both sides in full. Interleaving in chunks is interleaving the whole files
  with the shorter one filled with silence: the left channel of the recording is what was read, the
  right channel what was written, each followed by silence up to the length of the longer one.
\<close>

theorem stereo_channels:
  assumes "even (length fr)" "even (length fw)"
  shows "leftOf (interleave fr fw) = fr @ replicate (length fw - length fr) 0 \<and>
    rightOf (interleave fr fw) = fw @ replicate (length fr - length fw) 0"
proof -
  let ?n = "max (length fr) (length fw)"
  have "length (padTo ?n fr) = ?n" "length (padTo ?n fw) = ?n" "even ?n" using assms by (auto simp: padTo_def max_def)
  then show ?thesis using interleave_padded [OF assms refl] channels_interleaveBytes [of "padTo ?n fr" "padTo ?n fw"]
    by (simp add: padTo_def max_def split: if_splits)
qed

theorem stereo_channels_witness:
  "leftOf (interleave [1, 2, 3, 4] [5, 6]) = [1, 2, 3, 4] \<and> rightOf (interleave [1, 2, 3, 4] [5, 6]) = [5, 6, 0, 0]"
  using stereo_channels [of "[1, 2, 3, 4]" "[5, 6]"] by simp

end
