(* ===== verification/Go_Net.thy ===== *)
theory Go_Net
  imports Go_Strings
begin

text \<open>
  What the sources use of Go's \<open>net\<close> and \<open>encoding/base64\<close>: IP addresses as byte slices of 4 or 16
  bytes, their textual form in both directions, UDP addresses, and the standard base64 encoding.
  A nil IP is the empty slice.
\<close>

section \<open>IP addresses\<close>

type_synonym ip = bytes

definition v4InV6Prefix :: bytes where
  "v4InV6Prefix = replicate 10 0 @ [255, 255]"

definition To4 :: "ip \<Rightarrow> ip" where
  "To4 a = (if length a = 4 then a
     else if length a = 16 \<and> take 12 a = v4InV6Prefix then drop 12 a else [])"

definition To16 :: "ip \<Rightarrow> ip" where
  "To16 a = (if length a = 4 then v4InV6Prefix @ a else if length a = 16 then a else [])"

text \<open>\<open>IP.Equal\<close>: an IPv4 address and its IPv6 form are equal.\<close>

definition ipEqual :: "ip \<Rightarrow> ip \<Rightarrow> bool" where
  "ipEqual a b = (if length a = length b then a = b
     else if length a = 4 \<and> length b = 16 then take 12 b = v4InV6Prefix \<and> drop 12 b = a
     else if length a = 16 \<and> length b = 4 then take 12 a = v4InV6Prefix \<and> drop 12 a = b
     else False)"

subsection \<open>Reading\<close>

definition ipv4Field :: "string \<Rightarrow> u8 option" where
  "ipv4Field s = (if s = [] \<or> \<not> list_all isDigit s \<or> (hd s = CHR ''0'' \<and> length s > 1) then None
     else let v = decimalValue s in if v \<le> 255 then Some (of_nat v) else None)"

definition parseIPv4Fields :: "string \<Rightarrow> bytes option" where
  "parseIPv4Fields s = (case map ipv4Field (Split (CHR ''.'') s) of
     [Some a, Some b, Some c, Some d] \<Rightarrow> Some [a, b, c, d] | _ \<Rightarrow> None)"

definition hexValue :: "char \<Rightarrow> nat option" where
  "hexValue c = (let n = (of_char c :: nat) in
     if 48 \<le> n \<and> n \<le> 57 then Some (n - 48)
     else if 97 \<le> n \<and> n \<le> 102 then Some (n - 87)
     else if 65 \<le> n \<and> n \<le> 70 then Some (n - 55) else None)"

definition hexNumber :: "string \<Rightarrow> nat" where
  "hexNumber s = foldl (\<lambda>v c. 16 * v + (case hexValue c of Some d \<Rightarrow> d | None \<Rightarrow> 0)) 0 s"

text \<open>
  The loop of \<open>parseIPv6\<close>: the bytes read so far, the place of the \<open>::\<close> among them, and the rest of
  the text. It runs while fewer than 16 bytes are read, each time reading a hexadecimal group of at
  most four digits or, last, four dotted bytes.
\<close>

definition v6Group :: "nat option \<Rightarrow> bytes \<Rightarrow> string \<Rightarrow> (bytes \<times> string) option" where
  "v6Group ell acc s =
    (let w = takeWhile (\<lambda>c. hexValue c \<noteq> None) s; r = dropWhile (\<lambda>c. hexValue c \<noteq> None) s in
     if w = [] \<or> length w > 4 then None
     else if r \<noteq> [] \<and> hd r = CHR ''.'' then
       (if (ell = None \<and> length acc \<noteq> 12) \<or> length acc + 4 > 16 then None
        else map_option (\<lambda>f. (acc @ f, [])) (parseIPv4Fields s))
     else Some (acc @ [of_nat (hexNumber w div 256), of_nat (hexNumber w)], r))"

fun v6Loop :: "nat \<Rightarrow> nat option \<Rightarrow> bytes \<Rightarrow> string \<Rightarrow> (bytes \<times> nat option) option" where
  "v6Loop 0 ell acc s = (if s = [] then Some (acc, ell) else None)"
| "v6Loop (Suc k) ell acc s =
    (if length acc \<ge> 16 then (if s = [] then Some (acc, ell) else None)
     else case v6Group ell acc s of
       None \<Rightarrow> None
     | Some (acc', r) \<Rightarrow>
         if r = [] then Some (acc', ell)
         else if hd r \<noteq> CHR '':'' \<or> length r = 1 then None
         else if hd (tl r) = CHR '':'' then
           (if ell \<noteq> None then None
            else if tl (tl r) = [] then Some (acc', Some (length acc'))
            else v6Loop k (Some (length acc')) acc' (tl (tl r)))
         else v6Loop k ell acc' (tl r))"

definition v6Expand :: "bytes \<times> nat option \<Rightarrow> bytes option" where
  "v6Expand r = (case r of (acc, ell) \<Rightarrow>
     (case ell of
        None \<Rightarrow> if length acc < 16 then None else Some acc
      | Some e \<Rightarrow> if length acc < 16 then Some (take e acc @ replicate (16 - length acc) 0 @ drop e acc) else None))"

text \<open>A text with a zone is an address to \<open>netip\<close>, but not to \<open>ParseIP\<close>.\<close>

definition parseIPv6 :: "string \<Rightarrow> bytes option" where
  "parseIPv6 s = (if CHR ''%'' \<in> set s then None
     else if HasPrefix s ''::'' then
       (if length s = 2 then Some (replicate 16 0)
        else Option.bind (v6Loop 8 (Some 0) [] (drop 2 s)) v6Expand)
     else Option.bind (v6Loop 8 None [] s) v6Expand)"

definition ParseIP :: "string \<Rightarrow> ip" where
  "ParseIP s = (case IndexAny s ''.:%'' of
     None \<Rightarrow> []
   | Some i \<Rightarrow>
       if s ! i = CHR ''.'' then (case parseIPv4Fields s of Some a \<Rightarrow> To16 a | None \<Rightarrow> [])
       else if s ! i = CHR '':'' then (case parseIPv6 s of Some a \<Rightarrow> a | None \<Rightarrow> [])
       else [])"

subsection \<open>Writing\<close>

definition ipv4String :: "bytes \<Rightarrow> string" where
  "ipv4String a = Join (map (\<lambda>b. formatNat (unat b)) a) ''.''"

definition hexDigit :: "nat \<Rightarrow> char" where
  "hexDigit d = (if d < 10 then char_of (48 + d) else char_of (87 + d))"

fun formatHex :: "nat \<Rightarrow> string" where
  "formatHex n = (if n < 16 then [hexDigit n] else formatHex (n div 16) @ [hexDigit (n mod 16)])"

declare formatHex.simps [simp del]

definition v6Groups :: "bytes \<Rightarrow> nat list" where
  "v6Groups a = map (\<lambda>i. 256 * unat (a ! (2 * i)) + unat (a ! (2 * i + 1))) [0..<8]"

text \<open>The first longest run of at least two zero groups is written as \<open>::\<close>.\<close>

definition zeroRun :: "nat list \<Rightarrow> nat \<Rightarrow> nat" where
  "zeroRun g i = length (takeWhile (\<lambda>n. n = 0) (drop i g))"

definition longestRun :: "nat list \<Rightarrow> nat \<times> nat" where
  "longestRun g = fold (\<lambda>i best. if zeroRun g i > snd best then (i, zeroRun g i) else best) [0..<8] (0, 1)"

definition ipv6String :: "bytes \<Rightarrow> string" where
  "ipv6String a = (let g = v6Groups a; (i, l) = longestRun g in
     if l \<ge> 2 then Join (map formatHex (take i g)) '':'' @ ''::'' @ Join (map formatHex (drop (i + l) g)) '':''
     else Join (map formatHex g) '':'')"

definition hexString :: "bytes \<Rightarrow> string" where
  "hexString a = concat (map (\<lambda>b. [hexDigit (unat b div 16), hexDigit (unat b mod 16)]) a)"

definition ipString :: "ip \<Rightarrow> string" where
  "ipString a = (if a = [] then ''<nil>''
     else if length a \<noteq> 4 \<and> length a \<noteq> 16 then CHR ''?'' # hexString a
     else if To4 a \<noteq> [] then ipv4String (To4 a) else ipv6String a)"

section \<open>UDP addresses\<close>

record UDPAddr =
  IP :: ip
  Port :: int
  Zone :: string

definition zeroUDPAddr :: UDPAddr where
  "zeroUDPAddr = \<lparr>IP = [], Port = 0, Zone = []\<rparr>"

definition JoinHostPort :: "string \<Rightarrow> string \<Rightarrow> string" where
  "JoinHostPort host port = (if CHR '':'' \<in> set host then CHR ''['' # host @ '']:'' @ port else host @ CHR '':'' # port)"

definition udpString :: "UDPAddr \<Rightarrow> string" where
  "udpString a = JoinHostPort ((if IP a = [] then [] else ipString (IP a))
     @ (if Zone a = [] then [] else CHR ''%'' # Zone a)) (FormatInt (Port a))"

text \<open>An address a packet came from: the sources tell UDP addresses from all others.\<close>

datatype Addr = UDP UDPAddr | OtherAddr string

fun addrString :: "Addr \<Rightarrow> string" where
  "addrString (UDP a) = udpString a"
| "addrString (OtherAddr s) = s"

section \<open>Base64\<close>

definition base64Char :: "nat \<Rightarrow> char" where
  "base64Char v = (if v < 26 then char_of (65 + v) else if v < 52 then char_of (71 + v)
     else if v < 62 then char_of (v - 4) else if v = 62 then CHR ''+'' else CHR ''/'')"

definition base64Value :: "char \<Rightarrow> nat option" where
  "base64Value c = (let n = (of_char c :: nat) in
     if 65 \<le> n \<and> n \<le> 90 then Some (n - 65) else if 97 \<le> n \<and> n \<le> 122 then Some (n - 71)
     else if 48 \<le> n \<and> n \<le> 57 then Some (n + 4)
     else if c = CHR ''+'' then Some 62 else if c = CHR ''/'' then Some 63 else None)"

fun base64Encode :: "bytes \<Rightarrow> string" where
  "base64Encode [] = []"
| "base64Encode [a] = (let v = unat a in [base64Char (v div 4), base64Char (v mod 4 * 16), CHR ''='', CHR ''=''])"
| "base64Encode [a, b] = (let v = unat a; w = unat b in
     [base64Char (v div 4), base64Char (v mod 4 * 16 + w div 16), base64Char (w mod 16 * 4), CHR ''=''])"
| "base64Encode (a # b # c # r) = (let v = unat a; w = unat b; x = unat c in
     base64Char (v div 4) # base64Char (v mod 4 * 16 + w div 16) # base64Char (w mod 16 * 4 + x div 64)
       # base64Char (x mod 64) # base64Encode r)"

text \<open>The decoder skips line breaks and ignores the unused bits of the last group.\<close>

fun base64Quads :: "string \<Rightarrow> bytes option" where
  "base64Quads [] = Some []"
| "base64Quads (c1 # c2 # c3 # c4 # r) =
    (case (base64Value c1, base64Value c2) of
       (Some a, Some b) \<Rightarrow>
         (case base64Value c3 of
            Some c \<Rightarrow>
              (case base64Value c4 of
                 Some d \<Rightarrow> map_option (\<lambda>bs. [of_nat (a * 4 + b div 16), of_nat (b mod 16 * 16 + c div 4), of_nat (c mod 4 * 64 + d)] @ bs)
                   (base64Quads r)
               | None \<Rightarrow> if c4 = CHR ''='' \<and> r = [] then Some [of_nat (a * 4 + b div 16), of_nat (b mod 16 * 16 + c div 4)] else None)
          | None \<Rightarrow> if c3 = CHR ''='' \<and> c4 = CHR ''='' \<and> r = [] then Some [of_nat (a * 4 + b div 16)] else None)
     | _ \<Rightarrow> None)"
| "base64Quads _ = None"

definition base64Decode :: "string \<Rightarrow> bytes option" where
  "base64Decode s = base64Quads (filter (\<lambda>c. c \<noteq> CHR 0x0A \<and> c \<noteq> CHR 0x0D) s)"

section \<open>Round trips\<close>

lemma unat_u8_less [simp]: "unat (x :: u8) < 256"
  using unsigned_less [of x] by simp

lemma of_nat_unat_u8 [simp]: "(of_nat (unat x) :: u8) = x"
  by simp

lemma base64Value_Char:
  assumes "v < 64"
  shows "base64Value (base64Char v) = Some v"
proof -
  have c: "(of_char (char_of k :: char) :: nat) = k" if "k < 256" for k :: nat
    using that by (simp only: of_char_of) simp
  consider "v < 26" | "26 \<le> v" "v < 52" | "52 \<le> v" "v < 62" | "v = 62" | "v = 63"
    using assms by linarith
  then show ?thesis
  proof cases
    case 3
    then have "48 \<le> v - 4 \<and> v - 4 \<le> 57" by linarith
    then show ?thesis using 3 by (simp add: base64Char_def base64Value_def c Let_def)
  qed (simp_all add: base64Char_def base64Value_def c Let_def)
qed

lemma base64Char_not: "v < 64 \<Longrightarrow> base64Char v \<noteq> CHR 0x0A \<and> base64Char v \<noteq> CHR 0x0D"
proof -
  assume "v < 64"
  from base64Value_Char [OF this] show ?thesis by (auto simp: base64Value_def Let_def)
qed

lemma base64Value_pad [simp]: "base64Value (CHR ''='') = None"
  by (simp add: base64Value_def)

lemma u8_div:
  fixes a :: u8
  shows "unat a div 4 < 64" "unat a div 16 < 16" "unat a div 64 < 4"
  using unat_u8_less [of a] by (simp_all add: less_mult_imp_div_less del: unat_u8_less)

lemma base64_parts:
  fixes a b c :: u8
  shows "unat a div 4 < 64" "unat a mod 4 * 16 < 64" "unat a mod 4 * 16 + unat b div 16 < 64"
    "unat b mod 16 * 4 < 64" "unat b mod 16 * 4 + unat c div 64 < 64" "unat c mod 64 < 64"
proof -
  have d: "unat a div 4 < 64" "unat b div 16 < 16" "unat c div 64 < 4"
    by (rule u8_div)+
  moreover have "unat a mod 4 < 4" "unat b mod 16 < 16" by simp_all
  ultimately show "unat a div 4 < 64" "unat a mod 4 * 16 < 64" "unat a mod 4 * 16 + unat b div 16 < 64"
    "unat b mod 16 * 4 < 64" "unat b mod 16 * 4 + unat c div 64 < 64" "unat c mod 64 < 64"
    by (linarith, linarith, linarith, linarith, linarith, simp)
qed

lemma base64Quads_Encode: "base64Quads (base64Encode bs) = Some bs"
  by (induction bs rule: base64Encode.induct)
    (simp_all add: Let_def base64Value_Char base64_parts u8_div del: of_nat_add of_nat_mult)

lemma base64Encode_no_break: "c \<in> set (base64Encode bs) \<Longrightarrow> c \<noteq> CHR 0x0A \<and> c \<noteq> CHR 0x0D"
  by (induction bs rule: base64Encode.induct) (auto simp: Let_def base64Char_not base64_parts)

text \<open>Decoding what was encoded gives the bytes back.\<close>

lemma base64Decode_Encode: "base64Decode (base64Encode bs) = Some bs"
proof -
  have "filter (\<lambda>c. c \<noteq> CHR 0x0A \<and> c \<noteq> CHR 0x0D) (base64Encode bs) = base64Encode bs"
    using base64Encode_no_break by (intro filter_True) blast
  then show ?thesis by (simp add: base64Decode_def base64Quads_Encode)
qed

text \<open>A written IPv4 address reads back as its 16-byte form.\<close>

lemma formatNat_no_leading_zero: "hd (formatNat n) = CHR ''0'' \<Longrightarrow> n = 0"
proof (induction n rule: formatNat.induct)
  case (1 n)
  show ?case
  proof (cases "n < 10")
    case True
    then have "digitValue (hd (formatNat n)) = n"
      by (subst formatNat.simps) (simp add: digitChar_value)
    moreover have "digitValue (hd (formatNat n)) = 0" using 1(2) by (simp add: digitValue_def)
    ultimately show ?thesis by simp
  next
    case False
    have "formatNat n = formatNat (n div 10) @ [digitChar (n mod 10)]" using False by (subst formatNat.simps) simp
    then have "hd (formatNat (n div 10)) = CHR ''0''" using 1(2) by simp
    then show ?thesis using 1(1) [OF False] False by simp
  qed
qed

lemma ipv4Field_formatNat: "ipv4Field (formatNat (unat (b :: u8))) = Some b"
proof -
  have "formatNat 0 = ''0''" by (subst formatNat.simps) (simp add: digitChar_def char_of_def bit_0)
  then show ?thesis
    using formatNat_digits [of "unat b"] formatNat_no_leading_zero [of "unat b"] unat_u8_less [of b]
    by (auto simp: ipv4Field_def Let_def simp del: unat_u8_less)
qed

lemma parseIPv4Fields_String: "length a = 4 \<Longrightarrow> parseIPv4Fields (ipv4String a) = Some a"
proof -
  assume "length a = 4"
  then obtain w x y z where a: "a = [w, x, y, z]" by (auto simp: length_Suc_conv eval_nat_numeral)
  have d: "CHR ''.'' \<notin> set (formatNat n)" for n by (rule formatNat_not_in) (simp add: isDigit_def)
  have "Split (CHR ''.'') (ipv4String a) = map (\<lambda>b. formatNat (unat b)) a"
    unfolding ipv4String_def by (rule Split_Join) (auto simp: a d)
  then show ?thesis by (simp add: parseIPv4Fields_def a ipv4Field_formatNat)
qed

lemma IndexAny_append_none:
  "\<forall>c \<in> set s. c \<notin> set chars \<Longrightarrow> x \<in> set chars \<Longrightarrow> IndexAny (s @ x # t) chars = Some (length s)"
  by (induction s) auto

lemma ParseIP_ipv4String: "length a = 4 \<Longrightarrow> ParseIP (ipv4String a) = v4InV6Prefix @ a"
proof -
  assume l: "length a = 4"
  then obtain w x y z where a: "a = [w, x, y, z]" by (auto simp: length_Suc_conv eval_nat_numeral)
  obtain t where s: "ipv4String a = formatNat (unat w) @ CHR ''.'' # t" by (auto simp: ipv4String_def a)
  have "\<forall>c \<in> set (formatNat (unat w)). c \<notin> set ''.:%''"
    using formatNat_digits [of "unat w"] by (auto simp: list_all_iff isDigit_def)
  then have "IndexAny (ipv4String a) ''.:%'' = Some (length (formatNat (unat w)))"
    unfolding s by (rule IndexAny_append_none) simp
  moreover have "ipv4String a ! length (formatNat (unat w)) = CHR ''.''" by (simp add: s)
  ultimately show ?thesis using parseIPv4Fields_String [OF l] by (simp add: ParseIP_def To16_def l)
qed

lemma ipString_v4: "To4 a \<noteq> [] \<Longrightarrow> ipString a = ipv4String (To4 a)"
  by (auto simp: ipString_def To4_def split: if_splits)

lemma length_To4: "To4 a \<noteq> [] \<Longrightarrow> length (To4 a) = 4"
  by (auto simp: To4_def split: if_splits)

lemma To4_v4InV6 [simp]: "length a = 4 \<Longrightarrow> To4 (v4InV6Prefix @ a) = a"
  by (simp add: To4_def v4InV6Prefix_def)

lemma To4_ParseIP_ipString: "To4 a \<noteq> [] \<Longrightarrow> To4 (ParseIP (ipString a)) = To4 a"
  by (simp add: ipString_v4 ParseIP_ipv4String length_To4)

lemma ipEqual_refl [simp]: "ipEqual a a"
  by (simp add: ipEqual_def)

lemma ipEqual_To4: "To4 a \<noteq> [] \<Longrightarrow> ipEqual a (To4 a)"
  by (auto simp: ipEqual_def To4_def)

section \<open>Characters of an address\<close>

lemma hexDigit_not_space: "d < 16 \<Longrightarrow> \<not> isSpace (hexDigit d)"
proof -
  assume d: "d < 16"
  have c: "(of_char (char_of k :: char) :: nat) = k" if "k < 256" for k :: nat
    using that by (simp only: of_char_of) simp
  have "48 \<le> (of_char (hexDigit d) :: nat)" using d by (auto simp: hexDigit_def c)
  then show ?thesis by (auto simp: isSpace_def)
qed

lemma formatHex_not_space: "list_all (\<lambda>c. \<not> isSpace c) (formatHex n)"
  by (induction n rule: formatHex.induct) (subst formatHex.simps, simp add: hexDigit_not_space)

lemma formatNat_not_space: "list_all (\<lambda>c. \<not> isSpace c) (formatNat n)"
  using formatNat_digits [of n] by (auto simp: list_all_iff isDigit_not_space)

lemma list_all_Join: "\<forall>w \<in> set ws. list_all P w \<Longrightarrow> list_all P sep \<Longrightarrow> list_all P (Join ws sep)"
  by (induction ws sep rule: Join.induct) simp_all

lemma ipString_not_space: "list_all (\<lambda>c. \<not> isSpace c) (ipString a)"
proof -
  have sp: "\<not> isSpace (CHR ''.'')" "\<not> isSpace (CHR '':'')" "\<not> isSpace (CHR ''?'')"
    "\<not> isSpace (CHR ''<'')" "\<not> isSpace (CHR ''n'')" "\<not> isSpace (CHR ''i'')" "\<not> isSpace (CHR ''l'')" "\<not> isSpace (CHR ''>'')"
    by (simp_all add: isSpace_def)
  have v4: "list_all (\<lambda>c. \<not> isSpace c) (ipv4String b)" for b
    unfolding ipv4String_def by (rule list_all_Join) (auto simp: formatNat_not_space sp)
  have j: "list_all (\<lambda>c. \<not> isSpace c) (Join (map formatHex g) '':'')" for g
    by (rule list_all_Join) (auto simp: formatHex_not_space sp)
  have v6: "list_all (\<lambda>c. \<not> isSpace c) (ipv6String b)" for b
    by (auto simp: ipv6String_def Let_def j sp split: prod.split)
  have "list_all (\<lambda>c. \<not> isSpace c) (hexString b)" for b :: bytes
  proof -
    have "unat (x :: u8) div 16 < 16" for x by (rule u8_div)
    then show ?thesis by (auto simp: hexString_def list_all_iff hexDigit_not_space)
  qed
  then show ?thesis using v4 v6 by (simp add: ipString_def sp)
qed

lemma Join_nonempty: "w \<noteq> [] \<Longrightarrow> Join (w # ws) sep \<noteq> []"
  by (cases ws) simp_all

lemma ipv4String_nonempty: "length a = 4 \<Longrightarrow> ipv4String a \<noteq> []"
  by (cases a) (simp_all add: ipv4String_def Join_nonempty)

lemma ipString_nonempty [simp]: "ipString a \<noteq> []"
proof -
  have "formatHex n \<noteq> []" for n by (subst formatHex.simps) simp
  then have "ipv6String a \<noteq> []"
    by (auto simp: ipv6String_def Let_def v6Groups_def upt_conv_Cons Join_nonempty split: prod.split)
  then show ?thesis by (auto simp: ipString_def ipv4String_nonempty length_To4)
qed

end
