(* ===== verification/Digest_Auth.thy ===== *)
theory Digest_Auth
  imports Go_Net "HOL-Library.AList"
begin

text \<open>
  The digest authentication of incoming requests (\<open>digest_auth.go\<close>): challenges with fresh nonces,
  their cache and its timers, and the check of credentials. The digest itself, the parser of
  credentials and the text of a challenge are those of the digest library and parameters here.
\<close>

section \<open>Challenges\<close>

record DigestAuth =
  authUsername :: string
  authPassword :: string
  authRealm :: string
  authExpire :: duration

definition authExpiry :: "DigestAuth \<Rightarrow> duration" where
  "authExpiry a = (if 0 < authExpire a then authExpire a else 5 * second)"

record Challenge =
  chalRealm :: string
  chalNonce :: string
  chalAlgorithm :: string

record Credentials =
  credNonce :: string
  credURI :: string
  credResponse :: string

record digest_lib =
  ParseCredentials :: "string \<Rightarrow> nat + Credentials"
  DigestOf :: "Challenge \<Rightarrow> string \<Rightarrow> string \<Rightarrow> string \<Rightarrow> string \<Rightarrow> nat + string"
  challengeString :: "Challenge \<Rightarrow> string"

text \<open>
  An entry of the cache has its challenge and its timer. The entry is stored before its timer is set,
  so the timer may be nil; a set timer fires at its instant.
\<close>

datatype entryTimer = NilTimer | Armed instant | Stopped

record digestChallengeEntry =
  entryChallenge :: Challenge
  expireTimer :: entryTimer

record DigestAuthServer =
  cache :: "(string \<times> digestChallengeEntry) list"

definition NewDigestServer :: DigestAuthServer where
  "NewDigestServer = \<lparr>cache = []\<rparr>"

text \<open>\<open>Close\<close> stops every timer; \<open>Stop\<close> on a nil timer panics.\<close>

definition digestClose :: "DigestAuthServer \<Rightarrow> DigestAuthServer option" where
  "digestClose s = (if list_ex (\<lambda>(n, e). expireTimer e = NilTimer) (cache s) then None
     else Some \<lparr>cache = map (\<lambda>(n, e). (n, e\<lparr>expireTimer := Stopped\<rparr>)) (cache s)\<rparr>)"

text \<open>The URL alphabet of base64 differs from the standard one in two characters.\<close>

definition urlChar :: "char \<Rightarrow> char" where
  "urlChar c = (if c = CHR ''+'' then CHR ''-'' else if c = CHR ''/'' then CHR ''_'' else c)"

definition generateNonce :: "bytes option \<Rightarrow> string option" where
  "generateNonce rnd = map_option (\<lambda>b. map urlChar (base64Encode b)) rnd"

section \<open>Authorizing a request\<close>

record authRequest =
  authMethod :: string
  Authorization :: "string option"

datatype authErr = NonceFailed | ParseFailed nat | DigestAuthNoChallenge | DigestFailed nat | DigestAuthBadCreds

record authResponse =
  authStatus :: int
  WWWAuthenticate :: "string option"

definition plainResponse :: "int \<Rightarrow> authResponse" where
  "plainResponse code = \<lparr>authStatus = code, WWWAuthenticate = None\<rparr>"

definition challengeFor :: "DigestAuth \<Rightarrow> string \<Rightarrow> Challenge" where
  "challengeFor auth nonce = \<lparr>chalRealm = authRealm auth, chalNonce = nonce, chalAlgorithm = ''MD5''\<rparr>"

definition storeChallenge :: "Challenge \<Rightarrow> DigestAuthServer \<Rightarrow> DigestAuthServer" where
  "storeChallenge chal s = \<lparr>cache = AList.update (chalNonce chal) \<lparr>entryChallenge = chal, expireTimer = NilTimer\<rparr> (cache s)\<rparr>"

definition armTimer :: "string \<Rightarrow> instant \<Rightarrow> DigestAuthServer \<Rightarrow> DigestAuthServer" where
  "armTimer nonce d s = (case map_of (cache s) nonce of
     None \<Rightarrow> s
   | Some e \<Rightarrow> \<lparr>cache = AList.update nonce (e\<lparr>expireTimer := Armed d\<rparr>) (cache s)\<rparr>)"

definition expireNonce :: "string \<Rightarrow> DigestAuthServer \<Rightarrow> DigestAuthServer" where
  "expireNonce nonce s = \<lparr>cache = AList.delete nonce (cache s)\<rparr>"

text \<open>\<open>rnd\<close> is what the random source gives: 32 bytes, or nothing.\<close>

definition AuthorizeRequest ::
  "digest_lib \<Rightarrow> bytes option \<Rightarrow> instant \<Rightarrow> DigestAuth \<Rightarrow> authRequest \<Rightarrow> DigestAuthServer \<Rightarrow>
   (authResponse \<times> authErr option) \<times> DigestAuthServer" where
  "AuthorizeRequest L rnd now auth req s = (case Authorization req of
     None \<Rightarrow>
       (case generateNonce rnd of
          None \<Rightarrow> ((plainResponse 500, Some NonceFailed), s)
        | Some nonce \<Rightarrow>
            let chal = challengeFor auth nonce in
            ((\<lparr>authStatus = 401, WWWAuthenticate = Some (challengeString L chal)\<rparr>, None),
             armTimer nonce (now + authExpiry auth) (storeChallenge chal s)))
   | Some h \<Rightarrow>
       (case ParseCredentials L h of
          Inl e \<Rightarrow> ((plainResponse 400, Some (ParseFailed e)), s)
        | Inr cred \<Rightarrow>
            (case map_of (cache s) (credNonce cred) of
               None \<Rightarrow> ((plainResponse 401, Some DigestAuthNoChallenge), s)
             | Some e \<Rightarrow>
                 (case DigestOf L (entryChallenge e) (authMethod req) (credURI cred) (authUsername auth) (authPassword auth) of
                    Inl e \<Rightarrow> ((plainResponse 403, Some (DigestFailed e)), s)
                  | Inr r \<Rightarrow>
                      if credResponse cred \<noteq> r then ((plainResponse 401, Some DigestAuthBadCreds), s)
                      else ((plainResponse 200, None), s)))))"

text \<open>
  \<open>AuthorizeDialog\<close>: the error, the response it sends, if any. Only a response without an error is sent.
\<close>

definition AuthorizeDialog ::
  "digest_lib \<Rightarrow> bytes option \<Rightarrow> instant \<Rightarrow> DigestAuth \<Rightarrow> authRequest \<Rightarrow> DigestAuthServer \<Rightarrow>
   bool \<times> authResponse option \<times> DigestAuthServer" where
  "AuthorizeDialog L rnd now auth req s =
    (let auth = (if authRealm auth = [] then auth\<lparr>authRealm := ''sipgo''\<rparr> else auth) in
     case AuthorizeRequest L rnd now auth req s of ((res, err), s) \<Rightarrow>
       if err = None \<and> authStatus res \<noteq> 200 then (True, Some res, s) else (err \<noteq> None, None, s))"

section \<open>The server over time\<close>

text \<open>
  The lock covers the map only, so storing a challenge and setting its timer are two steps, and other
  requests, timers and \<open>Close\<close> come between. \<open>pending\<close> has the requests between the two. A nonce is
  32 random bytes and taken to be new; the log keeps the nonces sent out and those that lapsed.
\<close>

record digest_sys =
  server :: DigestAuthServer
  digestNow :: instant
  pending :: "(string \<times> duration) list"
  challenged :: "string list"
  lapsed :: "string list"

datatype digest_label = Challenged string | TimerSet string | TimerFires string | Tick instant | CloseServer

inductive digest_step :: "digest_sys \<Rightarrow> digest_label \<Rightarrow> digest_sys \<Rightarrow> bool" where
  step_challenge: "length rnd = 32 \<Longrightarrow> generateNonce (Some rnd) = Some nonce \<Longrightarrow> nonce \<notin> set (challenged s) \<Longrightarrow>
    digest_step s (Challenged nonce) (s\<lparr>server := storeChallenge (challengeFor auth nonce) (server s),
      pending := (nonce, authExpiry auth) # pending s, challenged := nonce # challenged s\<rparr>)"
| step_set: "(nonce, d) \<in> set (pending s) \<Longrightarrow>
    digest_step s (TimerSet nonce) (s\<lparr>server := armTimer nonce (digestNow s + d) (server s),
      pending := remove1 (nonce, d) (pending s)\<rparr>)"
| step_fires: "map_of (cache (server s)) nonce = Some e \<Longrightarrow> expireTimer e = Armed d \<Longrightarrow> d \<le> digestNow s \<Longrightarrow>
    digest_step s (TimerFires nonce) (s\<lparr>server := expireNonce nonce (server s), lapsed := nonce # lapsed s\<rparr>)"
| step_tick: "digestNow s \<le> t \<Longrightarrow> digest_step s (Tick t) (s\<lparr>digestNow := t\<rparr>)"
| step_close: "digestClose (server s) = Some v \<Longrightarrow> digest_step s CloseServer (s\<lparr>server := v\<rparr>)"

inductive_cases digest_stepE: "digest_step s l t"

definition digest_init :: "digest_sys \<Rightarrow> bool" where
  "digest_init s = (server s = NewDigestServer \<and> pending s = [] \<and> challenged s = [] \<and> lapsed s = [])"

definition digest_inv :: "digest_sys \<Rightarrow> bool" where
  "digest_inv s =
    ((\<forall>n e. map_of (cache (server s)) n = Some e \<longrightarrow> n \<in> set (challenged s) \<and> n \<notin> set (lapsed s) \<and>
        chalNonce (entryChallenge e) = n \<and> chalAlgorithm (entryChallenge e) = ''MD5'') \<and>
     set (lapsed s) \<subseteq> set (challenged s))"

lemma map_of_stop: "map_of (map (\<lambda>(n, e). (n, f e)) xs) k = map_option f (map_of xs k)"
  by (induction xs) auto

lemma map_of_close: "digestClose s = Some v \<Longrightarrow>
    map_of (cache v) n = map_option (\<lambda>e. e\<lparr>expireTimer := Stopped\<rparr>) (map_of (cache s) n)"
  by (auto simp: digestClose_def map_of_stop split: if_splits)

lemma map_of_store: "map_of (cache (storeChallenge c s)) =
    (map_of (cache s))(chalNonce c \<mapsto> \<lparr>entryChallenge = c, expireTimer = NilTimer\<rparr>)"
  by (simp add: storeChallenge_def update_conv')

lemma map_of_arm: "map_of (cache (armTimer n d s)) k =
    (if k = n then map_option (\<lambda>e. e\<lparr>expireTimer := Armed d\<rparr>) (map_of (cache s) n) else map_of (cache s) k)"
  by (auto simp: armTimer_def update_conv' split: option.splits)

lemma map_of_expire: "map_of (cache (expireNonce n s)) = (map_of (cache s))(n := None)"
  by (simp add: expireNonce_def delete_conv')

lemmas digest_maps = map_of_close map_of_store map_of_arm map_of_expire

lemma digest_inv_step: "digest_inv s \<Longrightarrow> digest_step s l t \<Longrightarrow> digest_inv t"
  by (erule digest_stepE) (auto simp: digest_inv_def digest_maps challengeFor_def split: if_splits)

interpretation digests: transition_system digest_init digest_step digest_inv
  by unfold_locales (simp add: digest_init_def digest_inv_def NewDigestServer_def, rule digest_inv_step)

text \<open>The two steps of a challenge, taken together, are what \<open>AuthorizeRequest\<close> does to the server.\<close>

lemma authorize_challenges:
  assumes "Authorization req = None" "length rnd = 32" "generateNonce (Some rnd) = Some nonce" "nonce \<notin> set (challenged s)"
  shows "\<exists>u t. digest_step s (Challenged nonce) u \<and> digest_step u (TimerSet nonce) t \<and>
    snd (AuthorizeRequest L (Some rnd) (digestNow s) auth req (server s)) = server t"
proof -
  let ?u = "s\<lparr>server := storeChallenge (challengeFor auth nonce) (server s),
      pending := (nonce, authExpiry auth) # pending s, challenged := nonce # challenged s\<rparr>"
  have "digest_step s (Challenged nonce) ?u" by (rule step_challenge [OF assms(2,3,4)])
  moreover have "digest_step ?u (TimerSet nonce) (?u\<lparr>server := armTimer nonce (digestNow ?u + authExpiry auth) (server ?u),
      pending := remove1 (nonce, authExpiry auth) (pending ?u)\<rparr>)" by (rule step_set) simp
  moreover have "snd (AuthorizeRequest L (Some rnd) (digestNow s) auth req (server s)) =
      armTimer nonce (digestNow s + authExpiry auth) (storeChallenge (challengeFor auth nonce) (server s))"
    using assms by (simp add: AuthorizeRequest_def Let_def)
  ultimately show ?thesis
    by (intro exI [of _ ?u] exI conjI) (assumption, assumption, simp)
qed

lemma authorize_keeps: "Authorization req \<noteq> None \<Longrightarrow> snd (AuthorizeRequest L rnd now auth req s) = s"
  by (auto simp: AuthorizeRequest_def split: option.splits sum.splits)

lemma authorized_cases:
  assumes "AuthorizeRequest L rnd now auth req s = ((res, err), t)"
    and "authStatus res = 200 \<or> err = None \<and> Authorization req \<noteq> None"
  obtains h cred e where "Authorization req = Some h" "ParseCredentials L h = Inr cred"
    "map_of (cache s) (credNonce cred) = Some e"
    "DigestOf L (entryChallenge e) (authMethod req) (credURI cred) (authUsername auth) (authPassword auth) = Inr (credResponse cred)"
  using assms by (auto simp: AuthorizeRequest_def plainResponse_def Let_def split: option.splits sum.splits if_splits)

text \<open>
  C10. Nobody is let in without a live challenge of this server. In every state the server can reach,
  under every interleaving of requests, timers and \<open>Close\<close>, a call passes \<open>AuthorizeDialog\<close> only when
  its credentials name a nonce that the server sent out and that has not lapsed since, and their
  response is the MD5 digest of that very challenge for the configured user and password and the
  method of the request. Such a call is sent no response and leaves the server as it was.
\<close>

theorem digest_authorized:
  assumes "digest_init s" "exec digest_step s ls s'"
    and "AuthorizeDialog L rnd now auth req (server s') = (False, sent, t)"
  shows "\<exists>h cred chal. Authorization req = Some h \<and> ParseCredentials L h = Inr cred \<and>
    credNonce cred \<in> set (challenged s') \<and> credNonce cred \<notin> set (lapsed s') \<and>
    chalNonce chal = credNonce cred \<and> chalAlgorithm chal = ''MD5'' \<and>
    DigestOf L chal (authMethod req) (credURI cred) (authUsername auth) (authPassword auth) = Inr (credResponse cred) \<and>
    sent = None \<and> t = server s'"
proof -
  let ?auth = "if authRealm auth = [] then auth\<lparr>authRealm := ''sipgo''\<rparr> else auth"
  have inv: "digest_inv s'" by (rule digests.inv_reachable [OF assms(1,2)])
  obtain res err u where r: "AuthorizeRequest L rnd now ?auth req (server s') = ((res, err), u)"
    by (metis prod_cases3 surj_pair)
  with assms(3) have ok: "err = None" "authStatus res = 200" "sent = None" "t = u"
    by (auto simp: AuthorizeDialog_def Let_def split: if_splits)
  with r obtain h cred e where c: "Authorization req = Some h" "ParseCredentials L h = Inr cred"
    "map_of (cache (server s')) (credNonce cred) = Some e"
    "DigestOf L (entryChallenge e) (authMethod req) (credURI cred) (authUsername ?auth) (authPassword ?auth) = Inr (credResponse cred)"
    by (elim authorized_cases) auto
  have "t = server s'" using authorize_keeps [of req L rnd now ?auth "server s'"] r c(1) ok(4) by simp
  with c ok inv show ?thesis unfolding digest_inv_def by (auto split: if_splits)
qed

definition exBytes :: bytes where
  "exBytes = replicate 32 7"

definition exNonce :: string where
  "exNonce = map urlChar (base64Encode exBytes)"

definition exAuth :: DigestAuth where
  "exAuth = \<lparr>authUsername = ''bob'', authPassword = ''pw'', authRealm = [], authExpire = 0\<rparr>"

definition exDigestLib :: digest_lib where
  "exDigestLib = \<lparr>ParseCredentials = (\<lambda>h. Inr \<lparr>credNonce = h, credURI = ''sip:a'', credResponse = h @ ''bobpw''\<rparr>),
     DigestOf = (\<lambda>c m u n p. Inr (chalNonce c @ n @ p)), challengeString = chalNonce\<rparr>"

definition exDigestStart :: digest_sys where
  "exDigestStart = \<lparr>server = NewDigestServer, digestNow = 0, pending = [], challenged = [], lapsed = []\<rparr>"

definition exDigestStored :: digest_sys where
  "exDigestStored = exDigestStart\<lparr>server := storeChallenge (challengeFor exAuth exNonce) NewDigestServer,
     pending := [(exNonce, 5 * second)], challenged := [exNonce]\<rparr>"

definition exDigestSet :: digest_sys where
  "exDigestSet = exDigestStored\<lparr>server := armTimer exNonce (5 * second) (server exDigestStored), pending := []\<rparr>"

lemma exDigest_stored: "digest_step exDigestStart (Challenged exNonce) exDigestStored"
  using step_challenge [of exBytes exNonce exDigestStart exAuth]
  by (simp add: exBytes_def exNonce_def generateNonce_def exDigestStart_def exDigestStored_def authExpiry_def exAuth_def)

lemma exDigest_set: "digest_step exDigestStored (TimerSet exNonce) exDigestSet"
  using step_set [of exNonce "5 * second" exDigestStored]
  by (simp add: exDigestSet_def exDigestStored_def exDigestStart_def)

lemma exDigest_run: "digest_init exDigestStart" "exec digest_step exDigestStart [Challenged exNonce, TimerSet exNonce] exDigestSet"
  using exec_two [of digest_step, OF exDigest_stored exDigest_set] by (auto simp: digest_init_def exDigestStart_def)

lemma exDigest_lets_in: "AuthorizeDialog exDigestLib None 1 exAuth \<lparr>authMethod = ''INVITE'', Authorization = Some exNonce\<rparr>
    (server exDigestSet) = (False, None, server exDigestSet)"
  by (simp add: AuthorizeDialog_def AuthorizeRequest_def exDigestLib_def exDigestSet_def exDigestStored_def
      map_of_arm map_of_store challengeFor_def exAuth_def plainResponse_def)

theorem digest_authorized_witness:
  "exNonce \<in> set (challenged exDigestSet) \<and> exNonce \<notin> set (lapsed exDigestSet)"
  using digest_authorized [OF exDigest_run exDigest_lets_in] by (auto simp: exDigestLib_def)

text \<open>
  The lock does not cover the setting of the timer: a \<open>Close\<close> between the two steps of a challenge
  finds a nil timer and panics.
\<close>

theorem close_panics: "\<exists>s s' ls. digest_init s \<and> exec digest_step s ls s' \<and> digestClose (server s') = None"
proof (intro exI conjI)
  show "digest_init exDigestStart" by (rule exDigest_run)
  show "exec digest_step exDigestStart [Challenged exNonce] exDigestStored"
    by (rule exec_cons [of digest_step, OF exDigest_stored exec_nil])
  show "digestClose (server exDigestStored) = None"
    by (simp add: digestClose_def exDigestStored_def storeChallenge_def NewDigestServer_def)
qed

text \<open>
  Credentials are not used up: what was accepted once is accepted again for as long as the nonce is in
  the cache. A nonce whose timer \<open>Close\<close> stopped stays in it for good, until it is challenged anew.
\<close>

theorem digest_replay:
  assumes "AuthorizeRequest L rnd now auth req s = ((res, None), t)" "Authorization req \<noteq> None"
  shows "AuthorizeRequest L rnd' now' auth req t = ((res, None), t)"
  using assms by (auto simp: AuthorizeRequest_def split: option.splits sum.splits if_splits)

definition stopped :: "string \<Rightarrow> digest_sys \<Rightarrow> bool" where
  "stopped n s = (n \<in> set (challenged s) \<and> n \<notin> fst ` set (pending s) \<and>
     (\<exists>e. map_of (cache (server s)) n = Some e \<and> expireTimer e = Stopped))"

lemma stopped_step: "stopped n s \<Longrightarrow> digest_step s l t \<Longrightarrow> stopped n t"
  by (erule digest_stepE)
    (auto simp: stopped_def digest_maps challengeFor_def image_iff dest: notin_set_remove1)

theorem stopped_forever: "exec digest_step s ls t \<Longrightarrow> stopped n s \<Longrightarrow> stopped n t"
  by (induction rule: exec.induct) (auto dest: stopped_step)

end
