(* ===== verification/Rtp_Sequencer.thy ===== *)
theory Rtp_Sequencer
  imports Diago_Prelude
begin

text \<open>
  The extended RTP sequence number of \<open>media/rtp_sequencer.go\<close>: a 16-bit sequence number and
  a 16-bit count of its wrap-arounds. A writer draws consecutive numbers with
  \<open>NextSeqNumber\<close>; a reader follows the numbers that arrive with \<open>UpdateSeq\<close>, the algorithm
  of RFC 1889 appendix A.2.
\<close>

section \<open>State and operations\<close>

definition maxMisorder :: u16 where "maxMisorder = 100"
definition maxDropout :: u16 where "maxDropout = 3000"
definition maxSeqNum :: u16 where "maxSeqNum = 65535"

datatype seq_error = ErrRTPSequenceOutOfOrder | ErrRTPSequenceBad | ErrRTPSequnceDuplicate

record RTPExtendedSequenceNumber =
  seqNum :: u16
  wrapArroundCount :: u16
  badSeq :: u16

text \<open>The zero value of the struct, which the packet reader starts from.\<close>

definition zeroSeq :: RTPExtendedSequenceNumber where
  "zeroSeq = \<lparr>seqNum = 0, wrapArroundCount = 0, badSeq = 0\<rparr>"

definition InitSeq :: "u16 \<Rightarrow> RTPExtendedSequenceNumber \<Rightarrow> RTPExtendedSequenceNumber" where
  "InitSeq seq sn = sn\<lparr>seqNum := seq, badSeq := maxSeqNum, wrapArroundCount := 0\<rparr>"

text \<open>\<open>rand.Uint32()\<close> is the argument.\<close>

definition NewRTPSequencer :: "u32 \<Rightarrow> RTPExtendedSequenceNumber" where
  "NewRTPSequencer r = InitSeq (ucast r) zeroSeq"

definition UpdateSeq ::
  "u16 \<Rightarrow> RTPExtendedSequenceNumber \<Rightarrow> seq_error option \<times> RTPExtendedSequenceNumber" where
  "UpdateSeq seq sn =
    (let maxSeq = seqNum sn; udelta = seq - maxSeq in
     if udelta < maxDropout then
       (None,
        (if seq < maxSeq then sn\<lparr>wrapArroundCount := wrapArroundCount sn + 1\<rparr> else sn)
          \<lparr>seqNum := seq\<rparr>)
     else if udelta \<le> maxSeqNum - maxMisorder then
       (if seq = badSeq sn then (None, InitSeq seq sn)
        else (Some ErrRTPSequenceBad, sn\<lparr>badSeq := seq + 1\<rparr>))
     else (Some ErrRTPSequnceDuplicate, sn))"

definition ReadExtendedSeq :: "RTPExtendedSequenceNumber \<Rightarrow> u64" where
  "ReadExtendedSeq sn =
     ucast (seqNum sn) + (ucast maxSeqNum + 1) * ucast (wrapArroundCount sn)"

definition NextSeqNumber ::
  "RTPExtendedSequenceNumber \<Rightarrow> u16 \<times> RTPExtendedSequenceNumber" where
  "NextSeqNumber s =
    (let s1 = s\<lparr>seqNum := seqNum s + 1\<rparr>;
         s2 = (if seqNum s1 = 0 then s1\<lparr>wrapArroundCount := wrapArroundCount s1 + 1\<rparr> else s1)
     in (seqNum s2, s2))"

section \<open>The extended number as one 32-bit counter\<close>

lemma unat_ReadExtendedSeq:
  "unat (ReadExtendedSeq sn) = unat (seqNum sn) + 65536 * unat (wrapArroundCount sn)"
proof -
  have w: "unat (ucast (x :: u16) :: u64) = unat x" for x
    using unat_u16_less [of x]
    by (simp add: unsigned_ucast_eq take_bit_nat_eq_self_iff del: unat_u16_less)
  have b: "unat (seqNum sn) < 65536" "unat (wrapArroundCount sn) < 65536" by simp_all
  then have p: "65536 * unat (wrapArroundCount sn) < 2 ^ 64" by (simp del: unat_u16_less)
  show ?thesis
    unfolding ReadExtendedSeq_def using b p
    by (simp add: unat_word_ariths w maxSeqNum_def del: unat_u16_less)
qed

abbreviation extSeq :: "RTPExtendedSequenceNumber \<Rightarrow> nat" where
  "extSeq sn \<equiv> unat (ReadExtendedSeq sn)"

lemma extSeq_bound: "extSeq sn < 2 ^ 32"
  using unat_u16_less [of "seqNum sn"] unat_u16_less [of "wrapArroundCount sn"]
  by (simp add: unat_ReadExtendedSeq del: unat_u16_less)

lemma seqNum_extSeq: "unat (seqNum sn) = extSeq sn mod 65536"
  by (simp add: unat_ReadExtendedSeq)


text \<open>
  Adding \<open>d\<close> to the low half of the counter carries into the high half exactly when the
  16-bit sum wraps, so an advance by \<open>d\<close> adds \<open>d\<close> modulo \<open>2 ^ 32\<close>.
\<close>

lemma counter_carry:
  fixes m w d :: nat
  assumes "m < 65536" "w < 65536" "d < 65536"
  shows "(m + d) mod 65536 + 65536 * ((w + (if (m + d) mod 65536 < m then 1 else 0)) mod 65536)
       = (m + 65536 * w + d) mod 2 ^ 32"
proof (cases "m + d < 65536")
  case True
  then have a: "m + 65536 * w + d < 2 ^ 32" using assms by simp
  have "\<not> (m + d) mod 65536 < m" using True by simp
  then show ?thesis using True assms a by simp
next
  case False
  then have a: "(m + d) mod 65536 = m + d - 65536"
    using assms by (simp add: mod_if)
  then have b: "(m + d) mod 65536 < m" using assms False by simp
  show ?thesis
  proof (cases "w = 65535")
    case True
    then have "m + 65536 * w + d = 2 ^ 32 + (m + d - 65536)" using False by simp
    moreover have "m + d - 65536 < 2 ^ 32" using assms by simp
    ultimately have "(m + 65536 * w + d) mod 2 ^ 32 = m + d - 65536" by simp
    with a b True show ?thesis by simp
  next
    case w: False
    then have "w + 1 < 65536" using assms by simp
    moreover from w have "m + 65536 * w + d < 2 ^ 32" using assms by simp
    ultimately show ?thesis using a b False by simp
  qed
qed

lemma extSeq_advance:
  assumes "seqNum sn' = seqNum sn + d"
    and "wrapArroundCount sn' =
      wrapArroundCount sn + (if seqNum sn' < seqNum sn then 1 else 0)"
  shows "extSeq sn' = (extSeq sn + unat d) mod 2 ^ 32"
proof -
  have m: "unat (seqNum sn') = (unat (seqNum sn) + unat d) mod 65536"
    by (simp add: assms(1) unat_word_ariths)
  have "unat (wrapArroundCount sn') =
      (unat (wrapArroundCount sn) + (if unat (seqNum sn') < unat (seqNum sn) then 1 else 0))
        mod 65536"
    unfolding assms(2) by (simp add: unat_word_ariths word_less_nat_alt)
  then show ?thesis
    using counter_carry [of "unat (seqNum sn)" "unat (wrapArroundCount sn)" "unat d"] m
    by (simp add: unat_ReadExtendedSeq)
qed

section \<open>Drawing numbers: the writer\<close>

text \<open>
  The interface a packet writer relies on: each draw returns the low half of a counter that
  goes up by one. The client's facts about a series of draws are proved from it once.
\<close>

primrec draws :: "('s \<Rightarrow> u16 \<times> 's) \<Rightarrow> nat \<Rightarrow> 's \<Rightarrow> u16 list" where
  "draws draw 0 s = []"
| "draws draw (Suc n) s = fst (draw s) # draws draw n (snd (draw s))"

lemma length_draws [simp]: "length (draws draw n s) = n"
  by (induction n arbitrary: s) auto

locale seq_counter =
  fixes draw :: "'s \<Rightarrow> u16 \<times> 's"
    and ext :: "'s \<Rightarrow> nat"
  assumes ext_draw: "ext (snd (draw s)) = (ext s + 1) mod 2 ^ 32"
    and draw_low: "unat (fst (draw s)) = ext (snd (draw s)) mod 65536"
begin

lemma draws_nth: "i < n \<Longrightarrow> unat (draws draw n s ! i) = (ext s + i + 1) mod 65536"
proof (induction n arbitrary: s i)
  case (Suc n)
  show ?case
  proof (cases i)
    case 0
    then show ?thesis by (simp add: draw_low ext_draw mod_mod_cancel)
  next
    case (Suc k)
    then have "unat (draws draw (Suc n) s ! i) = (ext (snd (draw s)) + k + 1) mod 65536"
      using Suc.IH [of k "snd (draw s)"] Suc.prems by simp
    also have "\<dots> = ((ext s + 1) mod 2 ^ 32 mod 65536 + (k + 1)) mod 65536"
      by (simp only: ext_draw add.assoc mod_add_left_eq)
    also have "\<dots> = (ext s + 1 + (k + 1)) mod 65536"
    proof -
      have "(ext s + 1) mod 2 ^ 32 mod 65536 = (ext s + 1) mod 65536"
        by (rule mod_mod_cancel) simp
      then show ?thesis by (simp only: mod_add_left_eq)
    qed
    finally show ?thesis using Suc by simp
  qed
qed simp

lemma draws_distinct: "n \<le> 65536 \<Longrightarrow> distinct (draws draw n s)"
proof -
  assume n: "n \<le> 65536"
  have "draws draw n s ! i \<noteq> draws draw n s ! j" if "i < j" "j < n" for i j
  proof
    assume "draws draw n s ! i = draws draw n s ! j"
    then have "(ext s + i + 1) mod 65536 = (ext s + j + 1) mod 65536"
      using draws_nth [of i n s] draws_nth [of j n s] that by simp
    then have "65536 dvd (ext s + j + 1) - (ext s + i + 1)"
      using that by (metis mod_eq_dvd_iff_nat add_le_mono less_imp_le_nat order_refl)
    then have "65536 dvd j - i" by simp
    then show False using that n by (auto dest: dvd_imp_le)
  qed
  then show ?thesis
    by (simp add: distinct_conv_nth) (metis linorder_neqE_nat)
qed

end

lemma NextSeqNumber_ext: "extSeq (snd (NextSeqNumber s)) = (extSeq s + 1) mod 2 ^ 32"
proof -
  have z: "seqNum s + 1 < seqNum s \<longleftrightarrow> seqNum s + 1 = 0"
  proof (cases "seqNum s + 1 = 0")
    case True
    then have "seqNum s \<noteq> 0" by auto
    with True show ?thesis by (simp add: word_gt_0)
  next
    case False
    then have "unat (seqNum s + 1) = Suc (unat (seqNum s))"
      using unatSuc [of "seqNum s"] by (simp add: add.commute)
    with False show ?thesis by (simp add: word_less_nat_alt)
  qed
  show ?thesis
    using extSeq_advance [of "snd (NextSeqNumber s)" s 1] z
    by (simp add: NextSeqNumber_def Let_def)
qed

lemma NextSeqNumber_low:
  "unat (fst (NextSeqNumber s)) = extSeq (snd (NextSeqNumber s)) mod 65536"
  by (simp add: seqNum_extSeq [symmetric] NextSeqNumber_def Let_def)

interpretation sw: seq_counter NextSeqNumber extSeq
  by unfold_locales (rule NextSeqNumber_ext NextSeqNumber_low)+

text \<open>
  A writer never repeats a sequence number within one cycle: any 65536 numbers drawn in a
  row from any state are pairwise distinct, and the \<open>i\<close>-th of them is the low half of the
  extended number \<open>i + 1\<close> steps on.
\<close>

theorem NextSeqNumber_series:
  "distinct (draws NextSeqNumber 65536 s) \<and>
   (i < n \<longrightarrow> unat (draws NextSeqNumber n s ! i) = (extSeq s + i + 1) mod 65536)"
  using sw.draws_distinct [of 65536 s] sw.draws_nth [of i n s] by simp

theorem NextSeqNumber_series_witness:
  "unat (draws NextSeqNumber 3 (NewRTPSequencer 65534) ! 2) = 1"
proof -
  have "extSeq (NewRTPSequencer 65534) = 65534"
    by (simp add: unat_ReadExtendedSeq NewRTPSequencer_def InitSeq_def)
  then show ?thesis
    using NextSeqNumber_series [of "NewRTPSequencer 65534" 2 3]
    by simp
qed


section \<open>Following numbers: the reader\<close>

lemma UpdateSeq_forward:
  assumes "seq - seqNum sn < maxDropout"
  shows "fst (UpdateSeq seq sn) = None"
    and "seqNum (snd (UpdateSeq seq sn)) = seq"
    and "extSeq (snd (UpdateSeq seq sn)) = (extSeq sn + unat (seq - seqNum sn)) mod 2 ^ 32"
proof -
  show "fst (UpdateSeq seq sn) = None" "seqNum (snd (UpdateSeq seq sn)) = seq"
    using assms by (simp_all add: UpdateSeq_def Let_def)
  show "extSeq (snd (UpdateSeq seq sn)) = (extSeq sn + unat (seq - seqNum sn)) mod 2 ^ 32"
    by (rule extSeq_advance) (use assms in \<open>simp_all add: UpdateSeq_def Let_def\<close>)
qed


lemma UpdateSeq_late:
  assumes "maxSeqNum - maxMisorder < seq - seqNum sn"
  shows "UpdateSeq seq sn = (Some ErrRTPSequnceDuplicate, sn)"
  using assms by (auto simp: UpdateSeq_def Let_def maxDropout_def maxSeqNum_def maxMisorder_def
      word_less_nat_alt word_le_nat_alt)

lemma UpdateSeq_jump:
  assumes "maxDropout \<le> seq - seqNum sn" "seq - seqNum sn \<le> maxSeqNum - maxMisorder"
  shows "UpdateSeq seq sn =
    (if seq = badSeq sn then (None, InitSeq seq sn)
     else (Some ErrRTPSequenceBad, sn\<lparr>badSeq := seq + 1\<rparr>))"
  using assms by (auto simp: UpdateSeq_def Let_def)

text \<open>
  The packets that reach a reader: before each one the writer draws \<open>d\<close> numbers, of which
  the last arrives and the others are lost.
\<close>

definition drawN :: "nat \<Rightarrow> RTPExtendedSequenceNumber \<Rightarrow> RTPExtendedSequenceNumber" where
  "drawN d w = ((snd \<circ> NextSeqNumber) ^^ d) w"

fun follow :: "nat list \<Rightarrow> RTPExtendedSequenceNumber \<Rightarrow> RTPExtendedSequenceNumber
    \<Rightarrow> RTPExtendedSequenceNumber \<times> RTPExtendedSequenceNumber" where
  "follow [] w r = (w, r)"
| "follow (d # ds) w r =
     (let w' = drawN d w in follow ds w' (snd (UpdateSeq (seqNum w') r)))"

lemma drawN_ext: "extSeq (drawN d w) = (extSeq w + d) mod 2 ^ 32"
proof (induction d)
  case 0
  then show ?case using extSeq_bound [of w] by (simp add: drawN_def)
next
  case (Suc d)
  have "extSeq (drawN (Suc d) w) = (extSeq (drawN d w) + 1) mod 2 ^ 32"
    by (simp add: drawN_def NextSeqNumber_ext)
  then show ?case by (simp add: Suc.IH mod_simps)
qed

lemma drawN_seqNum: "seqNum (drawN d w) = seqNum w + of_nat d"
  by (induction d) (simp_all add: drawN_def NextSeqNumber_def Let_def ac_simps)

text \<open>
  A reader that starts level with a writer stays level with it whatever is lost on the
  way, as long as fewer than 3000 numbers pass between two arrivals: its sequence number is
  the writer's, and both extended numbers have gone on by the same total, wrap-arounds
  included.
\<close>

theorem follow_level:
  assumes "\<forall>d \<in> set ds. d < 3000" and "seqNum r = seqNum w" and "follow ds w r = (w', r')"
  shows "seqNum r' = seqNum w'
    \<and> extSeq w' = (extSeq w + sum_list ds) mod 2 ^ 32
    \<and> extSeq r' = (extSeq r + sum_list ds) mod 2 ^ 32"
  using assms
proof (induction ds arbitrary: w r)
  case Nil
  then show ?case using extSeq_bound [of w] extSeq_bound [of r] by simp
next
  case (Cons d ds)
  define w1 where "w1 = drawN d w"
  define r1 where "r1 = snd (UpdateSeq (seqNum w1) r)"
  have d: "seqNum w1 - seqNum r = of_nat d"
    using Cons.prems(2) by (simp add: w1_def drawN_seqNum)
  have u: "unat (of_nat d :: u16) = d"
    using Cons.prems(1) by (simp add: unat_of_nat)
  have near: "seqNum w1 - seqNum r < maxDropout"
    using Cons.prems(1) by (simp add: d maxDropout_def word_less_nat_alt u)
  have level: "seqNum r1 = seqNum w1" and ext: "extSeq r1 = (extSeq r + d) mod 2 ^ 32"
    using UpdateSeq_forward [OF near] by (simp_all add: r1_def d u)
  have "follow ds w1 r1 = (w', r')" using Cons.prems(3) by (simp add: w1_def r1_def Let_def)
  then show ?case
    using Cons.IH [OF _ level] Cons.prems(1) drawN_ext [of d w]
    by (simp add: w1_def [symmetric] ext mod_simps ac_simps)
qed

theorem follow_level_witness:
  "extSeq (snd (follow [2, 2999, 2] (NewRTPSequencer 65535) (InitSeq 65535 zeroSeq))) = 68538"
proof -
  let ?w = "NewRTPSequencer 65535" and ?r = "InitSeq 65535 zeroSeq"
  obtain w' r' where f: "follow [2, 2999, 2] ?w ?r = (w', r')" by (meson surj_pair)
  have "seqNum ?r = seqNum ?w" by (simp add: NewRTPSequencer_def InitSeq_def)
  moreover have "extSeq ?r = 65535" by (simp add: unat_ReadExtendedSeq InitSeq_def)
  ultimately show ?thesis using follow_level [OF _ _ f] by (simp add: f del: follow.simps)
qed

text \<open>
  A single far-off sequence number does not move the reader: a jump that is neither the
  expected restart nor within the dropout window is refused, leaving number and cycle count,
  and only when the very next number follows it does the reader restart there.
\<close>

theorem UpdateSeq_two_in_a_row:
  assumes "maxDropout \<le> seq - seqNum sn" and "seq - seqNum sn < maxSeqNum - maxMisorder"
    and "seq \<noteq> badSeq sn"
    and "UpdateSeq seq sn = (e1, sn1)" and "UpdateSeq (seq + 1) sn1 = (e2, sn2)"
  shows "e1 = Some ErrRTPSequenceBad \<and> extSeq sn1 = extSeq sn
    \<and> e2 = None \<and> sn2 = InitSeq (seq + 1) sn"
proof -
  have 1: "e1 = Some ErrRTPSequenceBad" "sn1 = sn\<lparr>badSeq := seq + 1\<rparr>"
    using UpdateSeq_jump [of seq sn] assms(1-4) by simp_all
  have "seq - seqNum sn + 1 \<noteq> 0"
    using assms(2) by (auto simp: maxSeqNum_def maxMisorder_def add_eq_0_iff2)
  then have "unat (seq + 1 - seqNum sn1) = Suc (unat (seq - seqNum sn))"
    using unatSuc [of "seq - seqNum sn"] by (simp add: 1 algebra_simps)
  then have "maxDropout \<le> seq + 1 - seqNum sn1" "seq + 1 - seqNum sn1 \<le> maxSeqNum - maxMisorder"
    using assms(1,2) by (simp_all add: word_le_nat_alt word_less_nat_alt)
  then show ?thesis
    using UpdateSeq_jump [of "seq + 1" sn1] assms(5) 1
    by (simp add: InitSeq_def unat_ReadExtendedSeq)
qed

theorem UpdateSeq_two_in_a_row_witness:
  "snd (UpdateSeq 5001 (snd (UpdateSeq 5000 (InitSeq 10 zeroSeq)))) = InitSeq 5001 (InitSeq 10 zeroSeq)"
proof -
  obtain e1 sn1 where 1: "UpdateSeq 5000 (InitSeq 10 zeroSeq) = (e1, sn1)" by (meson surj_pair)
  obtain e2 sn2 where 2: "UpdateSeq (5000 + 1) sn1 = (e2, sn2)" by (meson surj_pair)
  have "maxDropout \<le> 5000 - seqNum (InitSeq 10 zeroSeq)"
    "5000 - seqNum (InitSeq 10 zeroSeq) < maxSeqNum - maxMisorder"
    "5000 \<noteq> badSeq (InitSeq 10 zeroSeq)"
    by (simp_all add: maxDropout_def maxSeqNum_def maxMisorder_def InitSeq_def)
  then have "sn2 = InitSeq (5000 + 1) (InitSeq 10 zeroSeq)"
    using UpdateSeq_two_in_a_row [OF _ _ _ 1 2] by blast
  then show ?thesis using 1 2 by simp
qed

text \<open>
  The restart marker a fresh sequencer holds, 65535, is itself a valid sequence number:
  from a freshly initialised state, a single jump to 65535 is accepted as a restart, without a
  second packet in sequence.
\<close>

theorem UpdateSeq_fresh_accepts_maxSeqNum:
  assumes "maxDropout \<le> 65535 - seq0" "65535 - seq0 \<le> maxSeqNum - maxMisorder"
  shows "UpdateSeq 65535 (InitSeq seq0 sn) = (None, InitSeq 65535 sn)"
  using UpdateSeq_jump [of 65535 "InitSeq seq0 sn"] assms
  by (simp add: InitSeq_def maxSeqNum_def)

theorem UpdateSeq_fresh_accepts_maxSeqNum_witness:
  "UpdateSeq 65535 (InitSeq 1000 zeroSeq) = (None, InitSeq 65535 zeroSeq)"
  using UpdateSeq_fresh_accepts_maxSeqNum [of 1000 zeroSeq]
  by (simp add: maxDropout_def maxSeqNum_def maxMisorder_def)

end
