(* ===== verification/Rtp_Packet.thy ===== *)
theory Rtp_Packet
  imports Diago_Prelude
begin

text \<open>
  RTP packets as the media sources see them: the fields of \<open>rtp.Header\<close> and \<open>rtp.Packet\<close> of
  the \<open>pion/rtp\<close> package that the sources read or write. Parsing and the size of a marshalled
  header belong to that package and are parameters (\<open>unmarshal\<close>, \<open>marshalSize\<close>) of the
  definitions that use them. \<open>media/rtp_parse.go\<close> adds the payload split of
  \<open>rtpUnmarshalPayload\<close>, which is modelled here.
\<close>

record rtp_header =
  Version :: u8
  Padding :: bool
  Extension :: bool
  Marker :: bool
  PayloadType :: u8
  SequenceNumber :: u16
  Timestamp :: u32
  SSRC :: u32
  HeaderPaddingSize :: u8

record rtp_packet =
  Header :: rtp_header
  Payload :: bytes
  PaddingSize :: u8

definition RTPBufSize :: nat where
  "RTPBufSize = 1500"

definition zeroHeader :: rtp_header where
  "zeroHeader = \<lparr>Version = 0, Padding = False, Extension = False, Marker = False, PayloadType = 0,
     SequenceNumber = 0, Timestamp = 0, SSRC = 0, HeaderPaddingSize = 0\<rparr>"

definition zeroPacket :: rtp_packet where
  "zeroPacket = \<lparr>Header = zeroHeader, Payload = [], PaddingSize = 0\<rparr>"

section \<open>Splitting header, payload and padding\<close>

datatype parse_error = ErrRTPPayloadTooSmall

definition rtpUnmarshalPayload ::
  "(rtp_header \<Rightarrow> nat) \<Rightarrow> bytes \<Rightarrow> rtp_packet \<Rightarrow> parse_error option \<times> rtp_packet" where
  "rtpUnmarshalPayload marshalSize buf p =
    (let n = int (marshalSize (Header p)); end0 = int (length buf) in
     if Padding (Header p) \<and> end0 \<le> n then (Some ErrRTPPayloadTooSmall, p)
     else
       let pad = (if Padding (Header p) then last buf else 0);
           end1 = (if Padding (Header p) then end0 - int (unat pad) else end0);
           p1 = p\<lparr>Header := (Header p)\<lparr>HeaderPaddingSize := pad\<rparr>, PaddingSize := pad\<rparr>
       in if end1 < n then (Some ErrRTPPayloadTooSmall, p1)
          else (None, p1\<lparr>Payload := take (nat end1 - nat n) (drop (nat n) buf)\<rparr>))"

text \<open>
  A packet whose payload is accepted is split without loss: its bytes are the header, the payload
  and the padding, in this order, with the lengths the header and the padding count give, and
  without the padding flag there is no padding.
\<close>

theorem rtpUnmarshalPayload_split:
  assumes "rtpUnmarshalPayload marshalSize buf p = (None, p')"
  shows "\<exists>hdr pad. buf = hdr @ Payload p' @ pad \<and> length hdr = marshalSize (Header p)
    \<and> length pad = unat (PaddingSize p')
    \<and> (Padding (Header p) \<longrightarrow> PaddingSize p' = last buf) \<and> (\<not> Padding (Header p) \<longrightarrow> pad = [])"
proof -
  let ?n = "marshalSize (Header p)"
  let ?pad = "if Padding (Header p) then last buf else 0"
  let ?e = "length buf - unat ?pad"
  have e: "?n + unat ?pad \<le> length buf" and p': "PaddingSize p' = ?pad" "Payload p' = take (?e - ?n) (drop ?n buf)"
    using assms by (auto simp: rtpUnmarshalPayload_def Let_def nat_diff_distrib' simp del: of_nat_unat split: if_splits)
  have "buf = take ?n buf @ take (?e - ?n) (drop ?n buf) @ drop ?e buf"
  proof -
    have "drop (?e - ?n) (drop ?n buf) = drop ?e buf" using e by (simp add: drop_drop)
    then show ?thesis
      using append_take_drop_id [of ?n buf] append_take_drop_id [of "?e - ?n" "drop ?n buf"] by simp
  qed
  moreover have "length (take ?n buf) = ?n" "length (drop ?e buf) = unat ?pad" using e by simp_all
  ultimately show ?thesis
    using p' by (intro exI [of _ "take ?n buf"] exI [of _ "drop ?e buf"]) auto
qed

theorem rtpUnmarshalPayload_split_witness:
  "\<exists>hdr pad. [1, 2, 3, 4, 5, 2 :: u8] = hdr @ [3, 4] @ pad \<and> length hdr = 2 \<and> length pad = 2"
proof -
  let ?p = "zeroPacket\<lparr>Header := zeroHeader\<lparr>Padding := True\<rparr>\<rparr>"
  have "rtpUnmarshalPayload (\<lambda>h. 2) [1, 2, 3, 4, 5, 2] ?p
      = (None, ?p\<lparr>Header := zeroHeader\<lparr>Padding := True, HeaderPaddingSize := 2\<rparr>, PaddingSize := 2, Payload := [3, 4]\<rparr>)"
    by (simp add: rtpUnmarshalPayload_def zeroPacket_def zeroHeader_def eval_nat_numeral)
  from rtpUnmarshalPayload_split [OF this] show ?thesis by auto
qed

section \<open>Compound RTCP packets\<close>

text \<open>
  \<open>RTCPUnmarshal\<close> over the library's header and packet parsers: the header's length in 32-bit words
  less one and its type, and the packet of that type. The loop fills at most as many places as the
  caller has. Its errors are told apart by whether \<open>errors.Is\<close> finds \<open>errRTCPFailedToUnmarshal\<close>.
\<close>

datatype rtcp_error = RtcpHeaderError go_error | RtcpTooShort | RtcpBodyError go_error

definition isFailedToUnmarshal :: "rtcp_error \<Rightarrow> bool" where
  "isFailedToUnmarshal e = (case e of RtcpHeaderError _ \<Rightarrow> True | RtcpTooShort \<Rightarrow> True | RtcpBodyError _ \<Rightarrow> False)"

fun RTCPUnmarshal ::
  "(bytes \<Rightarrow> go_error + u16 \<times> u8) \<Rightarrow> (u8 \<Rightarrow> bytes \<Rightarrow> go_error + 'p) \<Rightarrow> bytes \<Rightarrow> nat
    \<Rightarrow> rtcp_error + 'p list" where
  "RTCPUnmarshal hdr typed data 0 = Inr []"
| "RTCPUnmarshal hdr typed data (Suc places) =
    (if data = [] then Inr []
     else case hdr data of
       Inl e \<Rightarrow> Inl (RtcpHeaderError e)
     | Inr (len, t) \<Rightarrow>
         let pktLen = unat (len + 1) * 4 in
         if pktLen > length data then Inl RtcpTooShort
         else (case typed t (take pktLen data) of
           Inl e \<Rightarrow> Inl (RtcpBodyError e)
         | Inr p \<Rightarrow> (case RTCPUnmarshal hdr typed (drop pktLen data) places of
               Inl e \<Rightarrow> Inl e | Inr ps \<Rightarrow> Inr (p # ps))))"

text \<open>The packets of a compound packet as the pieces of its bytes they were read from.\<close>

fun rtcpPieces :: "(bytes \<Rightarrow> go_error + u16 \<times> u8) \<Rightarrow> (u8 \<Rightarrow> bytes \<Rightarrow> go_error + 'p) \<Rightarrow> bytes \<Rightarrow> bytes list \<Rightarrow> 'p list \<Rightarrow> bool" where
  "rtcpPieces hdr typed data [] [] \<longleftrightarrow> True"
| "rtcpPieces hdr typed data (b # bs) (p # ps) \<longleftrightarrow>
    (\<exists>len t rest. hdr data = Inr (len, t) \<and> data = b @ rest \<and> length b = unat (len + 1) * 4
       \<and> typed t b = Inr p \<and> rtcpPieces hdr typed rest bs ps)"
| "rtcpPieces hdr typed data _ _ \<longleftrightarrow> False"

text \<open>
  A compound packet that parses is cut into consecutive pieces of the lengths their headers
  give, each parsed as the type its header gives, at most as many as the caller has places for.
\<close>

theorem RTCPUnmarshal_pieces:
  assumes "RTCPUnmarshal hdr typed data places = Inr ps"
  shows "length ps \<le> places \<and> (\<exists>bs. rtcpPieces hdr typed data bs ps)"
  using assms
proof (induction hdr typed data places arbitrary: ps rule: RTCPUnmarshal.induct)
  case (1 hdr typed data)
  then show ?case by (auto intro: exI [of _ "[]"])
next
  case (2 hdr typed data places)
  show ?case
  proof (cases "data = []")
    case True
    then show ?thesis using 2(2) by (auto intro: exI [of _ "[]"])
  next
    case False
    then obtain len t where h: "hdr data = Inr (len, t)" using 2(2) by (cases "hdr data") auto
    let ?n = "unat (len + 1) * 4"
    have n: "?n \<le> length data" using 2(2) False h by (cases "?n \<le> length data") (simp_all add: Let_def)
    then obtain p where p: "typed t (take ?n data) = Inr p"
      using 2(2) False h by (cases "typed t (take ?n data)") auto
    then obtain qs where q: "RTCPUnmarshal hdr typed (drop ?n data) places = Inr qs" "ps = p # qs"
      using 2(2) False h n by (auto split: sum.splits)
    obtain bs where "length qs \<le> places" "rtcpPieces hdr typed (drop ?n data) bs qs"
      using 2(1) [OF False h refl refl _ p q(1)] n by auto
    then have "rtcpPieces hdr typed data (take ?n data # bs) (p # qs)"
      using h n p by (auto intro!: exI [of _ len] exI [of _ t] exI [of _ "drop ?n data"])
    then have "\<exists>bs. rtcpPieces hdr typed data bs ps" unfolding q(2) by blast
    then show ?thesis using \<open>length qs \<le> places\<close> q(2) by simp
  qed
qed

text \<open>A header parser and packet parser for the witness: one byte of type, one of length.\<close>

definition exRtcpHeader :: "bytes \<Rightarrow> go_error + u16 \<times> u8" where
  "exRtcpHeader b = (case b of t # l # _ \<Rightarrow> Inr (ucast l, t) | _ \<Rightarrow> Inl EOF)"

theorem RTCPUnmarshal_pieces_witness:
  "\<exists>bs. rtcpPieces exRtcpHeader (\<lambda>t b. Inr t) [7, 0, 0, 0, 9, 0, 0, 0] bs [7, 9 :: u8]"
proof -
  have "RTCPUnmarshal exRtcpHeader (\<lambda>t b. Inr t) [7, 0, 0, 0, 9, 0, 0, 0] 5 = Inr [7, 9]"
    by (simp add: exRtcpHeader_def eval_nat_numeral)
  from RTCPUnmarshal_pieces [OF this] show ?thesis by simp
qed

end
