(* ===== verification/Jitter_Buffer.thy ===== *)
theory Jitter_Buffer
  imports Rtp_Packet "HOL-Library.While_Combinator"
begin

text \<open>
  The fixed-delay RTP jitter buffer of \<open>media/rtp_jitter_buffer.go\<close>: its data, the filing of
  an arriving packet (\<open>handleSlot\<close> and what it calls), one playout decision of \<open>ReadRTP\<close>, and
  the operations that change the state from outside. The interleaving of the read loop with
  the consumer, both working under the same mutex, is in theory \<open>Jitter_System\<close>.

  The channels \<open>arrived\<close> and \<open>done\<close>, the timer and the two \<open>sync.Once\<close> belong to that
  interleaving. The fields \<open>lastArrival*\<close> serve the debug log only and are left out with it.
  \<open>delayPackets\<close> and \<open>maxPackets\<close> are positive once constructed and are naturals here, as are
  slot indexes; the entry \<open>-1\<close> of \<open>sequence\<close> is \<^term>\<open>None\<close>.
\<close>

section \<open>Data\<close>

record rtpJitterSlot =
  slotRaw :: bytes
  slotPacket :: rtp_packet
  slotN :: nat
  slotSSRC :: u32
  slotSeq :: u16

record rtpJitterBufferStats =
  packetsRead :: u64
  packetsReleased :: u64
  packetsLost :: u64
  packetsLate :: u64
  packetsDuplicate :: u64
  packetsDropped :: u64
  ssrcResets :: u64
  underruns :: u64
  lastSequenceNumber :: u32

record RTPJitterBufferOptions =
  optDelayPackets :: int
  optMaxPackets :: int
  optClockRate :: u32

record RTPJitterBuffer =
  reader :: nat
  packetDuration :: duration
  clockRate :: u32
  delayPackets :: nat
  maxPackets :: nat
  slots :: "rtpJitterSlot list"
  freeSlots :: "nat list"
  sequence :: "nat option list"
  queued :: int
  jssrc :: u32
  ssrcSet :: bool
  expectedSeq :: u16
  expectedSet :: bool
  startAt :: "instant option"
  releaseAt :: instant
  playout :: bool
  resync :: bool
  upstreamEnded :: bool
  readErr :: "go_error option"
  stepSeq :: u16
  stepTimestamp :: u32
  stepPayloadType :: u8
  stepSet :: bool
  pendingStep :: u32
  stats :: rtpJitterBufferStats

definition maxLearnedRTPPacketDuration :: duration where
  "maxLearnedRTPPacketDuration = 200 * millisecond"

definition zeroSlot :: rtpJitterSlot where
  "zeroSlot = \<lparr>slotRaw = replicate RTPBufSize 0, slotPacket = zeroPacket, slotN = 0,
     slotSSRC = 0, slotSeq = 0\<rparr>"

definition zeroStats :: rtpJitterBufferStats where
  "zeroStats = \<lparr>packetsRead = 0, packetsReleased = 0, packetsLost = 0, packetsLate = 0,
     packetsDuplicate = 0, packetsDropped = 0, ssrcResets = 0, underruns = 0,
     lastSequenceNumber = 0\<rparr>"

section \<open>Construction\<close>

text \<open>The defaults and clamps \<open>NewRTPJitterBuffer\<close> applies to its options, in its order.\<close>

definition jitterOptions :: "RTPJitterBufferOptions \<Rightarrow> nat \<times> nat" where
  "jitterOptions opts =
    (let d0 = (if optDelayPackets opts \<le> 0 then 20 else optDelayPackets opts);
         m0 = (if optMaxPackets opts \<le> 0 then 40 else optMaxPackets opts);
         m1 = (if m0 < d0 then d0 else m0);
         d1 = (if d0 > m1 then m1 else d0)
     in (nat d1, nat m1))"

text \<open>\<^term>\<open>None\<close> is the panic on a duration that is not positive.\<close>

definition NewRTPJitterBuffer ::
  "nat \<Rightarrow> duration \<Rightarrow> RTPJitterBufferOptions \<Rightarrow> RTPJitterBuffer option" where
  "NewRTPJitterBuffer rd dur opts =
    (if dur \<le> 0 then None
     else
       let (d, m) = jitterOptions opts in
       Some \<lparr>reader = rd, packetDuration = dur, clockRate = optClockRate opts,
         delayPackets = d, maxPackets = m,
         slots = replicate (m + 1) zeroSlot, freeSlots = [0..<m + 1],
         sequence = replicate m None, queued = 0,
         jssrc = 0, ssrcSet = False, expectedSeq = 0, expectedSet = False,
         startAt = None, releaseAt = 0, playout = False, resync = False,
         upstreamEnded = False, readErr = None,
         stepSeq = 0, stepTimestamp = 0, stepPayloadType = 0, stepSet = False, pendingStep = 0,
         stats = zeroStats\<rparr>)"

section \<open>The window of queued packets\<close>

definition position :: "u16 \<Rightarrow> RTPJitterBuffer \<Rightarrow> nat" where
  "position s j = unat s mod maxPackets j"

definition freeSlot :: "nat \<Rightarrow> RTPJitterBuffer \<Rightarrow> RTPJitterBuffer" where
  "freeSlot i j = j\<lparr>freeSlots := freeSlots j @ [i]\<rparr>"

definition clearEntry :: "nat \<Rightarrow> RTPJitterBuffer \<Rightarrow> RTPJitterBuffer" where
  "clearEntry p j =
    (case sequence j ! p of
       None \<Rightarrow> j
     | Some i \<Rightarrow> freeSlot i (j\<lparr>sequence := (sequence j)[p := None]\<rparr>))"

definition clearSequence :: "RTPJitterBuffer \<Rightarrow> RTPJitterBuffer" where
  "clearSequence j = (fold clearEntry [0..<length (sequence j)] j)\<lparr>queued := 0\<rparr>"

text \<open>\<open>time.Now()\<close> is the argument \<open>now\<close>.\<close>

definition resetStream :: "instant \<Rightarrow> u32 \<Rightarrow> u16 \<Rightarrow> RTPJitterBuffer \<Rightarrow> RTPJitterBuffer" where
  "resetStream now src s j =
    (clearSequence j)\<lparr>jssrc := src, ssrcSet := True, expectedSeq := s, expectedSet := True,
       playout := False, resync := False, stepSet := False, pendingStep := 0,
       startAt := Some (now + int (delayPackets j) * packetDuration j)\<rparr>"

definition canMoveExpectedBack :: "u16 \<Rightarrow> RTPJitterBuffer \<Rightarrow> bool" where
  "canMoveExpectedBack s j =
    list_all (\<lambda>e. case e of None \<Rightarrow> True
      | Some i \<Rightarrow> (let distance = sint (slotSeq (slots j ! i) - s)
                  in \<not> (distance < 0 \<or> distance \<ge> int (maxPackets j)))) (sequence j)"

text \<open>The loop of \<open>dropBefore\<close>: its body for the counter \<open>k\<close>, and the loop over the numbers passed.\<close>

definition dropStale :: "nat \<Rightarrow> RTPJitterBuffer \<Rightarrow> RTPJitterBuffer" where
  "dropStale k j =
    (let s = expectedSeq j + of_nat k; p = position s j in
     case sequence j ! p of
       None \<Rightarrow> j
     | Some i \<Rightarrow>
         if slotSeq (slots j ! i) \<noteq> s then j
         else freeSlot i (j\<lparr>
           stats := (stats j)\<lparr>packetsDropped := packetsDropped (stats j) + 1\<rparr>,
           sequence := (sequence j)[p := None], queued := queued j - 1\<rparr>))"

definition dropBefore :: "u16 \<Rightarrow> RTPJitterBuffer \<Rightarrow> RTPJitterBuffer" where
  "dropBefore next j =
    (let passed = sint (next - expectedSeq j)
     in (fold dropStale [0..<min (nat passed) (maxPackets j)] j)\<lparr>expectedSeq := next\<rparr>)"

section \<open>Learning the packet duration\<close>

definition learnPacketDuration :: "rtpJitterSlot \<Rightarrow> RTPJitterBuffer \<Rightarrow> RTPJitterBuffer" where
  "learnPacketDuration slot j =
    (if clockRate j = 0 then j
     else
       let hdr = Header (slotPacket slot);
           step = Timestamp hdr - stepTimestamp j;
           d = int (unat step) * second div int (unat (clockRate j));
           j1 = (if stepSet j \<and> slotSeq slot = stepSeq j + 1
                   \<and> PayloadType hdr = stepPayloadType j \<and> \<not> Marker hdr
                 then (if step > 0 \<and> step = pendingStep j \<and> d \<le> maxLearnedRTPPacketDuration
                       then j\<lparr>packetDuration := d\<rparr> else j)\<lparr>pendingStep := step\<rparr>
                 else j)
       in if \<not> stepSet j1 \<or> sint (slotSeq slot - stepSeq j1) > 0
          then j1\<lparr>stepSeq := slotSeq slot, stepTimestamp := Timestamp hdr,
                  stepPayloadType := PayloadType hdr, stepSet := True\<rparr>
          else j1)"

section \<open>Filing a packet\<close>

text \<open>
  \<open>handleSlot\<close> in its three stages: which stream the packet belongs to, where the window has to
  be for it, and its place in the window. The stages are the consecutive parts of the source's
  body, and an early return of the middle one is \<^term>\<open>None\<close> with the state it leaves. Every
  path reads the clock at most once, so one \<open>now\<close> stands for \<open>time.Now()\<close>.
\<close>

definition handleSlotStream ::
  "instant \<Rightarrow> rtpJitterSlot \<Rightarrow> RTPJitterBuffer \<Rightarrow> int \<times> RTPJitterBuffer" where
  "handleSlotStream now slot j0 =
    (let j1 = j0\<lparr>stats := (stats j0)\<lparr>packetsRead := packetsRead (stats j0) + 1\<rparr>\<rparr>;
         j2 = (if \<not> ssrcSet j1 \<or> jssrc j1 \<noteq> slotSSRC slot
               then resetStream now (slotSSRC slot) (slotSeq slot)
                 (if ssrcSet j1
                  then j1\<lparr>stats := (stats j1)\<lparr>ssrcResets := ssrcResets (stats j1) + 1\<rparr>\<rparr>
                  else j1)
               else j1);
         distance = sint (slotSeq slot - expectedSeq j2);
         restart = (resync j2 \<and> queued j2 = 0
           \<and> (distance \<ge> int (maxPackets j2) \<or> - distance \<ge> int (maxPackets j2)))
     in if restart
        then (0, learnPacketDuration slot (resetStream now (slotSSRC slot) (slotSeq slot) j2))
        else (distance, learnPacketDuration slot j2))"

definition handleSlotWindow ::
  "nat \<Rightarrow> int \<Rightarrow> RTPJitterBuffer \<Rightarrow> RTPJitterBuffer + RTPJitterBuffer" where
  "handleSlotWindow i distance j =
    (let s = slotSeq (slots j ! i) in
     if distance < 0 \<and> (playout j \<or> resync j) then
       Inl (freeSlot i (j\<lparr>stats := (stats j)\<lparr>packetsLate := packetsLate (stats j) + 1\<rparr>\<rparr>))
     else if distance < 0 \<and> \<not> canMoveExpectedBack s j then
       Inl (freeSlot i (j\<lparr>stats := (stats j)\<lparr>packetsDropped := packetsDropped (stats j) + 1\<rparr>\<rparr>))
     else if distance < 0 then Inr (j\<lparr>expectedSeq := s\<rparr>)
     else if distance \<ge> int (maxPackets j)
       then Inr (dropBefore (s - of_nat (delayPackets j - 1)) j)
     else Inr j)"

definition handleSlotFile :: "instant \<Rightarrow> nat \<Rightarrow> RTPJitterBuffer \<Rightarrow> RTPJitterBuffer" where
  "handleSlotFile now i j =
    (let s = slotSeq (slots j ! i); p = position s j in
     case sequence j ! p of
       Some existing \<Rightarrow>
         freeSlot i (j\<lparr>stats :=
           (if slotSeq (slots j ! existing) = s
            then (stats j)\<lparr>packetsDuplicate := packetsDuplicate (stats j) + 1\<rparr>
            else (stats j)\<lparr>packetsDropped := packetsDropped (stats j) + 1\<rparr>)\<rparr>)
     | None \<Rightarrow>
         let j1 = j\<lparr>sequence := (sequence j)[p := Some i], queued := queued j + 1\<rparr>
         in if resync j1 \<and> queued j1 = 1
            then j1\<lparr>startAt := Some (now + int (delayPackets j1) * packetDuration j1)\<rparr>
            else j1)"

definition handleSlot :: "instant \<Rightarrow> nat \<Rightarrow> RTPJitterBuffer \<Rightarrow> RTPJitterBuffer" where
  "handleSlot now i j =
    (case handleSlotStream now (slots j ! i) j of
       (distance, j1) \<Rightarrow>
         (case handleSlotWindow i distance j1 of Inl j2 \<Rightarrow> j2 | Inr j2 \<Rightarrow> handleSlotFile now i j2))"

section \<open>Playout\<close>

text \<open>
  The loop of \<open>startPlayout\<close> over the lost numbers before the first queued packet, as
  \<^const>\<open>while_option\<close>: \<^term>\<open>None\<close> would be a loop that never ends.
\<close>

definition skipLost :: "RTPJitterBuffer \<Rightarrow> RTPJitterBuffer option" where
  "skipLost = while_option
    (\<lambda>j. resync j \<and> queued j > 0 \<and> sequence j ! position (expectedSeq j) j = None)
    (\<lambda>j. j\<lparr>stats := (stats j)\<lparr>packetsLost := packetsLost (stats j) + 1\<rparr>,
           expectedSeq := expectedSeq j + 1\<rparr>)"

definition startPlayout :: "instant \<Rightarrow> RTPJitterBuffer \<Rightarrow> RTPJitterBuffer option" where
  "startPlayout now j =
    map_option (\<lambda>j1. j1\<lparr>resync := False, playout := True, releaseAt := now\<rparr>)
      (skipLost (j\<lparr>startAt := None\<rparr>))"

definition stopPlayout :: "RTPJitterBuffer \<Rightarrow> RTPJitterBuffer" where
  "stopPlayout j = j\<lparr>stats := (stats j)\<lparr>underruns := underruns (stats j) + 1\<rparr>,
     playout := False, resync := True\<rparr>"

text \<open>
  What one pass of the loop in \<open>ReadRTP\<close> comes to: it returns a packet or an error, goes
  round again at once after counting a lost packet, or waits.
\<close>

datatype read_outcome =
    Released bytes rtp_packet
  | Failed go_error
  | Again
  | Wait duration

definition playoutStartDue :: "instant \<Rightarrow> RTPJitterBuffer \<Rightarrow> bool" where
  "playoutStartDue now j \<longleftrightarrow>
     \<not> playout j \<and> ((case startAt j of None \<Rightarrow> False | Some t \<Rightarrow> t \<le> now)
       \<or> queued j \<ge> int (delayPackets j))"

definition waitOutcome :: "instant \<Rightarrow> RTPJitterBuffer \<Rightarrow> read_outcome" where
  "waitOutcome now j =
    (if upstreamEnded j \<and> queued j = 0
     then Failed (case readErr j of Some e \<Rightarrow> e | None \<Rightarrow> EOF)
     else Wait (if playout j then releaseAt j - now
                else case startAt j of Some t \<Rightarrow> t - now | None \<Rightarrow> 0))"

text \<open>
  The pass over the state under the mutex, from the start of playout to the release, the loss,
  the underrun or the wait. \<open>unmarshal\<close> is \<open>rtp.Packet.Unmarshal\<close>, \<open>buflen\<close> the length of the
  caller's buffer. \<^term>\<open>None\<close> would be a \<open>startPlayout\<close> that never returns.
\<close>

definition releaseNext ::
  "(bytes \<Rightarrow> go_error + rtp_packet) \<Rightarrow> nat \<Rightarrow> nat \<Rightarrow> RTPJitterBuffer
    \<Rightarrow> RTPJitterBuffer \<times> read_outcome" where
  "releaseNext unmarshal buflen i j =
    (let slot = slots j ! i in
     if buflen < slotN slot then (j, Failed ErrShortBuffer)
     else
       let j1 = freeSlot i (j\<lparr>sequence := (sequence j)[position (expectedSeq j) j := None],
                  queued := queued j - 1, expectedSeq := expectedSeq j + 1,
                  releaseAt := releaseAt j + packetDuration j\<rparr>);
           data = take (slotN slot) (slotRaw slot)
       in case unmarshal data of
            Inl e \<Rightarrow> (j1, Failed e)
          | Inr p \<Rightarrow>
              (j1\<lparr>stats := (stats j1)\<lparr>packetsReleased := packetsReleased (stats j1) + 1,
                 lastSequenceNumber := ucast (SequenceNumber (Header p))\<rparr>\<rparr>, Released data p))"

definition playoutDecision ::
  "(bytes \<Rightarrow> go_error + rtp_packet) \<Rightarrow> nat \<Rightarrow> instant \<Rightarrow> RTPJitterBuffer
    \<Rightarrow> RTPJitterBuffer \<times> read_outcome" where
  "playoutDecision unmarshal buflen now j =
    (if playout j \<and> releaseAt j \<le> now then
       (case sequence j ! position (expectedSeq j) j of
          Some i \<Rightarrow>
            if slotSeq (slots j ! i) = expectedSeq j then releaseNext unmarshal buflen i j
            else if queued j = 0 then (let j1 = stopPlayout j in (j1, waitOutcome now j1))
            else (j\<lparr>stats := (stats j)\<lparr>packetsLost := packetsLost (stats j) + 1\<rparr>,
                     expectedSeq := expectedSeq j + 1,
                     releaseAt := releaseAt j + packetDuration j\<rparr>, Again)
        | None \<Rightarrow>
            if queued j = 0 then (let j1 = stopPlayout j in (j1, waitOutcome now j1))
            else (j\<lparr>stats := (stats j)\<lparr>packetsLost := packetsLost (stats j) + 1\<rparr>,
                     expectedSeq := expectedSeq j + 1,
                     releaseAt := releaseAt j + packetDuration j\<rparr>, Again))
     else (j, waitOutcome now j))"

definition ReadRTP_pass ::
  "(bytes \<Rightarrow> go_error + rtp_packet) \<Rightarrow> nat \<Rightarrow> instant \<Rightarrow> RTPJitterBuffer
    \<Rightarrow> (RTPJitterBuffer \<times> read_outcome) option" where
  "ReadRTP_pass unmarshal buflen now j =
    map_option (playoutDecision unmarshal buflen now)
      (if playoutStartDue now j then startPlayout now j else Some j)"

section \<open>Operations of the owner and the read loop\<close>

text \<open>\<open>UpdateRTPSession\<close>, given the new reader and the codec of the new session.\<close>

definition UpdateRTPSession_jb ::
  "nat \<Rightarrow> duration \<Rightarrow> u32 \<Rightarrow> RTPJitterBuffer \<Rightarrow> RTPJitterBuffer" where
  "UpdateRTPSession_jb rd codecDur codecRate j =
    (let j1 = j\<lparr>reader := rd\<rparr>;
         j2 = (if codecDur > 0 then j1\<lparr>packetDuration := codecDur\<rparr> else j1);
         j3 = (if clockRate j2 \<noteq> 0 \<and> codecRate \<noteq> 0 then j2\<lparr>clockRate := codecRate\<rparr> else j2)
     in j3\<lparr>stepSet := False, pendingStep := 0\<rparr>)"

text \<open>
  The three critical sections of \<open>readLoop\<close>: taking a free slot, which panics when there is
  none (\<^term>\<open>None\<close>); filing the packet read into it; and recording the upstream error.
\<close>

definition takeSlot :: "RTPJitterBuffer \<Rightarrow> (nat \<times> RTPJitterBuffer) option" where
  "takeSlot j = (if freeSlots j = [] then None
     else Some (last (freeSlots j), j\<lparr>freeSlots := butlast (freeSlots j)\<rparr>))"

definition fileRead ::
  "instant \<Rightarrow> nat \<Rightarrow> bytes \<Rightarrow> rtp_packet \<Rightarrow> nat \<Rightarrow> RTPJitterBuffer \<Rightarrow> RTPJitterBuffer" where
  "fileRead now i raw pkt n j =
    (let slot = \<lparr>slotRaw = raw, slotPacket = pkt, slotN = n,
                 slotSSRC = SSRC (Header pkt), slotSeq = SequenceNumber (Header pkt)\<rparr>
     in handleSlot now i (j\<lparr>slots := (slots j)[i := slot]\<rparr>))"

definition failRead :: "nat \<Rightarrow> go_error \<Rightarrow> RTPJitterBuffer \<Rightarrow> RTPJitterBuffer" where
  "failRead i e j = (freeSlot i j)\<lparr>readErr := Some e, upstreamEnded := True\<rparr>"

record RTPJitterBufferStatistics =
  StatsCounters :: rtpJitterBufferStats
  StatsLastSequenceNumber :: u16
  StatsPacketDuration :: duration

definition Statistics :: "RTPJitterBuffer \<Rightarrow> RTPJitterBufferStatistics" where
  "Statistics j = \<lparr>StatsCounters = stats j,
     StatsLastSequenceNumber = ucast (lastSequenceNumber (stats j)),
     StatsPacketDuration = packetDuration j\<rparr>"

end
