(* ===== verification/Jitter_Invariant.thy ===== *)
theory Jitter_Invariant
  imports Jitter_Buffer
begin

text \<open>
  The invariant of the jitter buffer and its preservation by every operation. It has three
  parts: every slot is owned exactly once, by the free list, the window or the read loop
  (\<open>jb_wf\<close>); every queued packet sits at its own position, inside the window and from the
  current source (\<open>jb_window\<close>); and the phase of playout agrees with the queue (\<open>jb_phase\<close>).
\<close>

section \<open>The invariant\<close>

definition in_window :: "RTPJitterBuffer \<Rightarrow> u16 \<Rightarrow> bool" where
  "in_window j s \<longleftrightarrow> 0 \<le> sint (s - expectedSeq j) \<and> sint (s - expectedSeq j) < int (maxPackets j)"

definition jb_wf :: "nat multiset \<Rightarrow> RTPJitterBuffer \<Rightarrow> bool" where
  "jb_wf held j \<longleftrightarrow>
     0 < delayPackets j \<and> delayPackets j \<le> maxPackets j
     \<and> length (slots j) = Suc (maxPackets j) \<and> length (sequence j) = maxPackets j
     \<and> mset (freeSlots j) + entries (sequence j) + held = mset_set {..<Suc (maxPackets j)}
     \<and> queued j = int (size (entries (sequence j)))"

definition jb_window :: "RTPJitterBuffer \<Rightarrow> bool" where
  "jb_window j \<longleftrightarrow> (\<forall>p < maxPackets j. \<forall>i. sequence j ! p = Some i \<longrightarrow>
     position (slotSeq (slots j ! i)) j = p \<and> in_window j (slotSeq (slots j ! i))
     \<and> slotSSRC (slots j ! i) = jssrc j)"

definition jb_phase :: "RTPJitterBuffer \<Rightarrow> bool" where
  "jb_phase j \<longleftrightarrow>
     (playout j \<longrightarrow> startAt j = None \<and> \<not> resync j)
     \<and> (\<not> playout j \<and> queued j > 0 \<longrightarrow> startAt j \<noteq> None)
     \<and> (ssrcSet j \<and> \<not> playout j \<and> \<not> resync j \<longrightarrow> startAt j \<noteq> None)
     \<and> (queued j > 0 \<longrightarrow> ssrcSet j) \<and> 0 \<le> packetDuration j"

definition jb_inv :: "nat multiset \<Rightarrow> RTPJitterBuffer \<Rightarrow> bool" where
  "jb_inv held j \<longleftrightarrow> jb_wf held j \<and> jb_window j \<and> jb_phase j"

text \<open>The packet queued under a sequence number, found the way playout finds it.\<close>

definition queueOf :: "RTPJitterBuffer \<Rightarrow> u16 \<Rightarrow> rtpJitterSlot option" where
  "queueOf j s =
    (case sequence j ! position s j of
       None \<Rightarrow> None
     | Some i \<Rightarrow> if slotSeq (slots j ! i) = s then Some (slots j ! i) else None)"

section \<open>Frame: fields the parts do not read\<close>

lemma position_frame [simp]:
  "position s (j\<lparr>stats := a\<rparr>) = position s j" "position s (j\<lparr>queued := b\<rparr>) = position s j"
  "position s (j\<lparr>freeSlots := c\<rparr>) = position s j" "position s (j\<lparr>sequence := d\<rparr>) = position s j"
  "position s (j\<lparr>expectedSeq := e\<rparr>) = position s j" "position s (j\<lparr>slots := f\<rparr>) = position s j"
  "position s (j\<lparr>releaseAt := g\<rparr>) = position s j" "position s (j\<lparr>startAt := h\<rparr>) = position s j"
  "position s (j\<lparr>packetDuration := k\<rparr>) = position s j"
  by (simp_all add: position_def)

lemma position_less: "jb_wf held j \<Longrightarrow> position s j < maxPackets j"
  by (simp add: position_def jb_wf_def)

lemma learn_frame [simp]:
  "delayPackets (learnPacketDuration sl j) = delayPackets j"
  "maxPackets (learnPacketDuration sl j) = maxPackets j"
  "slots (learnPacketDuration sl j) = slots j"
  "freeSlots (learnPacketDuration sl j) = freeSlots j"
  "sequence (learnPacketDuration sl j) = sequence j"
  "queued (learnPacketDuration sl j) = queued j"
  "jssrc (learnPacketDuration sl j) = jssrc j"
  "ssrcSet (learnPacketDuration sl j) = ssrcSet j"
  "expectedSeq (learnPacketDuration sl j) = expectedSeq j"
  "startAt (learnPacketDuration sl j) = startAt j"
  "playout (learnPacketDuration sl j) = playout j"
  "resync (learnPacketDuration sl j) = resync j"
  "stats (learnPacketDuration sl j) = stats j"
  "releaseAt (learnPacketDuration sl j) = releaseAt j"
  by (simp_all add: learnPacketDuration_def Let_def)

lemma learn_duration_nonneg:
  "0 \<le> packetDuration j \<Longrightarrow> 0 \<le> packetDuration (learnPacketDuration sl j)"
  by (auto simp: learnPacketDuration_def Let_def div_int_pos_iff)

lemma jb_wf_cong:
  assumes "delayPackets j' = delayPackets j" "maxPackets j' = maxPackets j"
    "length (slots j') = length (slots j)" "freeSlots j' = freeSlots j"
    "sequence j' = sequence j" "queued j' = queued j"
  shows "jb_wf held j' \<longleftrightarrow> jb_wf held j"
  using assms by (simp add: jb_wf_def)

lemma jb_window_cong:
  assumes "maxPackets j' = maxPackets j" "slots j' = slots j" "sequence j' = sequence j"
    "expectedSeq j' = expectedSeq j" "jssrc j' = jssrc j"
  shows "jb_window j' \<longleftrightarrow> jb_window j"
  using assms by (simp add: jb_window_def in_window_def position_def)

lemma stats_frame [simp]:
  "jb_wf held (j\<lparr>stats := st\<rparr>) \<longleftrightarrow> jb_wf held j" "jb_window (j\<lparr>stats := st\<rparr>) \<longleftrightarrow> jb_window j"
  by (rule jb_wf_cong jb_window_cong; simp)+

lemma startAt_frame [simp]:
  "jb_wf held (j\<lparr>startAt := t\<rparr>) \<longleftrightarrow> jb_wf held j" "jb_window (j\<lparr>startAt := t\<rparr>) \<longleftrightarrow> jb_window j"
  by (rule jb_wf_cong jb_window_cong; simp)+

lemma freeSlot_frame [simp]:
  "delayPackets (freeSlot i j) = delayPackets j" "maxPackets (freeSlot i j) = maxPackets j"
  "slots (freeSlot i j) = slots j" "sequence (freeSlot i j) = sequence j"
  "queued (freeSlot i j) = queued j" "jssrc (freeSlot i j) = jssrc j"
  "ssrcSet (freeSlot i j) = ssrcSet j" "expectedSeq (freeSlot i j) = expectedSeq j"
  "startAt (freeSlot i j) = startAt j" "releaseAt (freeSlot i j) = releaseAt j"
  "playout (freeSlot i j) = playout j" "resync (freeSlot i j) = resync j"
  "packetDuration (freeSlot i j) = packetDuration j" "stats (freeSlot i j) = stats j"
  by (simp_all add: freeSlot_def)

section \<open>Slot ownership\<close>

lemma jb_wf_freeSlot:
  assumes "jb_wf (held + {#i#}) j"
  shows "jb_wf held (freeSlot i j)"
  using assms by (simp add: jb_wf_def freeSlot_def)

lemma jb_window_freeSlot [simp]: "jb_window (freeSlot i j) \<longleftrightarrow> jb_window j"
  by (rule jb_window_cong) (simp_all add: freeSlot_def)

lemma jb_wf_queued_slot:
  "jb_wf held j \<Longrightarrow> p < maxPackets j \<Longrightarrow> sequence j ! p = Some i \<Longrightarrow> i \<in># entries (sequence j)"
  by (metis set_entries jb_wf_def nth_mem)

lemma jb_wf_index:
  assumes "jb_wf held j" "p < maxPackets j" "sequence j ! p = Some i"
  shows "i < length (slots j)"
proof -
  have "i \<in># mset_set {..<Suc (maxPackets j)}"
    using jb_wf_queued_slot [OF assms] assms(1) by (metis jb_wf_def union_iff)
  then show ?thesis using assms(1) by (simp add: jb_wf_def)
qed

lemma jb_wf_held:
  assumes "jb_wf (held + {#h#}) j" "p < maxPackets j" "sequence j ! p = Some i"
  shows "i \<noteq> h"
proof -
  have "entries (sequence j) + (mset (freeSlots j) + held + {#h#}) = mset_set {..<Suc (maxPackets j)}"
    using assms(1) by (simp add: jb_wf_def ac_simps)
  then show ?thesis
    using mset_set_disjoint jb_wf_queued_slot [OF assms] by fastforce
qed

lemma takeSlot_total:
  assumes "jb_wf {#} j"
  shows "\<exists>i j'. takeSlot j = Some (i, j') \<and> jb_wf {#i#} j' \<and> i < length (slots j)"
proof -
  have "size (entries (sequence j)) < size (mset_set {..<Suc (maxPackets j)})"
    using assms size_entries_le [of "sequence j"] by (simp add: jb_wf_def)
  then have ne: "freeSlots j \<noteq> []"
    using assms by (auto simp: jb_wf_def)
  then have last: "mset (freeSlots j) = mset (butlast (freeSlots j)) + {#last (freeSlots j)#}"
    by (metis append_butlast_last_id mset_append mset_single_iff)
  then have "last (freeSlots j) \<in># mset_set {..<Suc (maxPackets j)}"
    using assms by (metis jb_wf_def union_iff union_single_eq_member add.commute)
  then have "last (freeSlots j) < length (slots j)"
    using assms by (simp add: jb_wf_def)
  moreover have "jb_wf {#last (freeSlots j)#} (j\<lparr>freeSlots := butlast (freeSlots j)\<rparr>)"
    using assms last by (simp add: jb_wf_def)
  ultimately show ?thesis using ne by (simp add: takeSlot_def)
qed

section \<open>Clearing the window\<close>

lemma clearEntry_frame [simp]:
  "delayPackets (clearEntry p j) = delayPackets j" "maxPackets (clearEntry p j) = maxPackets j"
  "slots (clearEntry p j) = slots j" "packetDuration (clearEntry p j) = packetDuration j"
  "stats (clearEntry p j) = stats j"
  "length (sequence (clearEntry p j)) = length (sequence j)"
  by (simp_all add: clearEntry_def freeSlot_def split: option.split)

lemma clearFold_frame [simp]:
  "delayPackets (fold clearEntry ps j) = delayPackets j"
  "maxPackets (fold clearEntry ps j) = maxPackets j"
  "slots (fold clearEntry ps j) = slots j"
  "packetDuration (fold clearEntry ps j) = packetDuration j"
  "stats (fold clearEntry ps j) = stats j"
  "length (sequence (fold clearEntry ps j)) = length (sequence j)"
  by (induction ps arbitrary: j) simp_all

lemma clearEntry_own:
  "p < length (sequence j) \<Longrightarrow>
   mset (freeSlots (clearEntry p j)) + entries (sequence (clearEntry p j))
     = mset (freeSlots j) + entries (sequence j)"
  by (auto simp: clearEntry_def freeSlot_def entries_delete split: option.splits)

lemma clearFold_own:
  "\<forall>p \<in> set ps. p < length (sequence j) \<Longrightarrow>
   mset (freeSlots (fold clearEntry ps j)) + entries (sequence (fold clearEntry ps j))
     = mset (freeSlots j) + entries (sequence j)"
  by (induction ps arbitrary: j) (simp_all add: clearEntry_own)

lemma clearFold_nth:
  "q < length (sequence j) \<Longrightarrow> sequence (fold clearEntry ps j) ! q
     = (if q \<in> set ps then None else sequence j ! q)"
proof (induction ps arbitrary: j)
  case (Cons p ps)
  have "sequence (clearEntry p j) ! q = (if q = p then None else sequence j ! q)"
    using Cons.prems by (auto simp: clearEntry_def freeSlot_def split: option.split)
  then show ?case using Cons.IH [of "clearEntry p j"] Cons.prems by auto
qed simp

lemma clearSequence_frame [simp]:
  "delayPackets (clearSequence j) = delayPackets j"
  "maxPackets (clearSequence j) = maxPackets j"
  "slots (clearSequence j) = slots j"
  "packetDuration (clearSequence j) = packetDuration j"
  "stats (clearSequence j) = stats j"
  "queued (clearSequence j) = 0"
  by (simp_all add: clearSequence_def)

lemma clearSequence_empty: "sequence (clearSequence j) = replicate (length (sequence j)) None"
  by (rule nth_equalityI) (simp_all add: clearSequence_def clearFold_nth)

lemma jb_wf_clearSequence:
  assumes "jb_wf held j"
  shows "jb_wf held (clearSequence j)"
  using assms clearFold_own [of "[0..<length (sequence j)]" j] clearSequence_empty [of j]
  by (simp add: jb_wf_def) (simp add: clearSequence_def)

lemma resetStream_fields [simp]:
  "delayPackets (resetStream now src s j) = delayPackets j"
  "maxPackets (resetStream now src s j) = maxPackets j"
  "slots (resetStream now src s j) = slots j"
  "packetDuration (resetStream now src s j) = packetDuration j"
  "stats (resetStream now src s j) = stats j"
  "queued (resetStream now src s j) = 0"
  "sequence (resetStream now src s j) = replicate (length (sequence j)) None"
  "jssrc (resetStream now src s j) = src" "ssrcSet (resetStream now src s j) = True"
  "expectedSeq (resetStream now src s j) = s"
  "playout (resetStream now src s j) = False" "resync (resetStream now src s j) = False"
  "startAt (resetStream now src s j) = Some (now + int (delayPackets j) * packetDuration j)"
  by (simp_all add: resetStream_def clearSequence_empty)

lemma jb_wf_resetStream: "jb_wf held j \<Longrightarrow> jb_wf held (resetStream now src s j)"
  using jb_wf_clearSequence [of held j]
  by (subst jb_wf_cong [of _ "clearSequence j"]) (simp_all add: clearSequence_empty, simp add: resetStream_def)

lemma jb_window_empty: "sequence j = replicate (maxPackets j) None \<Longrightarrow> jb_window j"
  by (simp add: jb_window_def)

section \<open>Moving the window on\<close>

lemma queueOf_cong:
  assumes "maxPackets j' = maxPackets j" "slots j' = slots j" "sequence j' = sequence j"
  shows "queueOf j' = queueOf j"
  using assms by (simp add: queueOf_def position_def fun_eq_iff split: option.split)

lemma dropStale_frame [simp]:
  "delayPackets (dropStale k j) = delayPackets j" "maxPackets (dropStale k j) = maxPackets j"
  "slots (dropStale k j) = slots j" "packetDuration (dropStale k j) = packetDuration j"
  "expectedSeq (dropStale k j) = expectedSeq j"
  "jssrc (dropStale k j) = jssrc j" "ssrcSet (dropStale k j) = ssrcSet j"
  "playout (dropStale k j) = playout j" "resync (dropStale k j) = resync j"
  "startAt (dropStale k j) = startAt j" "releaseAt (dropStale k j) = releaseAt j"
  "length (sequence (dropStale k j)) = length (sequence j)"
  by (simp_all add: dropStale_def freeSlot_def Let_def split: option.split)

lemma dropFold_frame [simp]:
  "delayPackets (fold dropStale ks j) = delayPackets j"
  "maxPackets (fold dropStale ks j) = maxPackets j"
  "slots (fold dropStale ks j) = slots j"
  "packetDuration (fold dropStale ks j) = packetDuration j"
  "expectedSeq (fold dropStale ks j) = expectedSeq j"
  "jssrc (fold dropStale ks j) = jssrc j" "ssrcSet (fold dropStale ks j) = ssrcSet j"
  "playout (fold dropStale ks j) = playout j" "resync (fold dropStale ks j) = resync j"
  "startAt (fold dropStale ks j) = startAt j" "releaseAt (fold dropStale ks j) = releaseAt j"
  "length (sequence (fold dropStale ks j)) = length (sequence j)"
  by (induction ks arbitrary: j) simp_all

lemma jb_wf_unqueue:
  assumes "jb_wf held j" "p < maxPackets j" "sequence j ! p = Some i"
  shows "jb_wf held (freeSlot i (j\<lparr>stats := st, sequence := (sequence j)[p := None],
    queued := queued j - 1\<rparr>))"
  using assms entries_delete [of p "sequence j" i]
  by (simp add: jb_wf_def freeSlot_def)

lemma jb_wf_dropStale: "jb_wf held j \<Longrightarrow> jb_wf held (dropStale k j)"
  using position_less [of held j "expectedSeq j + of_nat k"]
  by (auto simp: dropStale_def Let_def intro: jb_wf_unqueue split: option.split)

lemma jb_wf_dropFold: "jb_wf held j \<Longrightarrow> jb_wf held (fold dropStale ks j)"
  by (induction ks arbitrary: j) (simp_all add: jb_wf_dropStale)

lemma dropStale_nth:
  "sequence (dropStale k j) ! q = Some i \<Longrightarrow> q < length (sequence j) \<Longrightarrow> sequence j ! q = Some i"
  by (auto simp: dropStale_def freeSlot_def Let_def split: option.splits if_splits)
    (metis nth_list_update_eq nth_list_update_neq option.distinct(1))

lemma dropFold_nth:
  "sequence (fold dropStale ks j) ! q = Some i \<Longrightarrow> q < length (sequence j) \<Longrightarrow> sequence j ! q = Some i"
proof (induction ks arbitrary: j)
  case (Cons k ks)
  then show ?case using Cons.IH [of "dropStale k j"] dropStale_nth [of k j q i] by simp
qed simp

text \<open>One pass of the loop takes one number out of the queue and leaves the others.\<close>

lemma queueOf_dropStale:
  assumes "jb_wf held j"
  shows "queueOf (dropStale k j) s
    = (if s = expectedSeq j + of_nat k then None else queueOf j s)"
proof -
  have "position t j < length (sequence j)" for t
    using position_less [OF assms, of t] assms by (simp add: jb_wf_def)
  then show ?thesis
    by (auto simp: queueOf_def dropStale_def freeSlot_def Let_def nth_list_update
        position_def split: option.splits if_splits)
qed

lemma queueOf_dropFold:
  assumes "jb_wf held j"
  shows "queueOf (fold dropStale ks j) s
    = (if \<exists>k \<in> set ks. s = expectedSeq j + of_nat k then None else queueOf j s)"
  using assms
  by (induction ks arbitrary: j) (auto simp: queueOf_dropStale jb_wf_dropStale)


text \<open>What is queued is what the window lookup finds, when every packet sits at its position.\<close>

lemma queueOf_iff:
  assumes "jb_wf held j" "jb_window j"
  shows "queueOf j s = Some sl \<longleftrightarrow>
    (\<exists>p i. p < maxPackets j \<and> sequence j ! p = Some i \<and> slots j ! i = sl \<and> slotSeq sl = s)"
proof
  assume "queueOf j s = Some sl"
  then obtain i where "sequence j ! position s j = Some i" "slots j ! i = sl" "slotSeq sl = s"
    by (auto simp: queueOf_def split: option.splits if_splits)
  then show "\<exists>p i. p < maxPackets j \<and> sequence j ! p = Some i \<and> slots j ! i = sl \<and> slotSeq sl = s"
    using position_less [OF assms(1), of s] by blast
next
  assume "\<exists>p i. p < maxPackets j \<and> sequence j ! p = Some i \<and> slots j ! i = sl \<and> slotSeq sl = s"
  then obtain p i where *: "p < maxPackets j" "sequence j ! p = Some i" "slots j ! i = sl" "slotSeq sl = s"
    by blast
  then have "position s j = p" using assms(2) by (auto simp: jb_window_def)
  with * show "queueOf j s = Some sl" by (simp add: queueOf_def)
qed

lemma jb_window_queueOf:
  assumes "jb_window j" "jb_wf held j" "queueOf j s = Some sl"
  shows "in_window j s" "slotSeq sl = s" "slotSSRC sl = jssrc j"
proof -
  obtain p i where *: "p < maxPackets j" "sequence j ! p = Some i" "slots j ! i = sl" "slotSeq sl = s"
    using assms(3) unfolding queueOf_iff [OF assms(2,1)] by blast
  then show "in_window j s" "slotSeq sl = s" "slotSSRC sl = jssrc j"
    using assms(1) by (auto simp: jb_window_def)
qed

lemma dropBefore_frame [simp]:
  "delayPackets (dropBefore n j) = delayPackets j" "maxPackets (dropBefore n j) = maxPackets j"
  "slots (dropBefore n j) = slots j" "packetDuration (dropBefore n j) = packetDuration j"
  "expectedSeq (dropBefore n j) = n"
  "jssrc (dropBefore n j) = jssrc j" "ssrcSet (dropBefore n j) = ssrcSet j"
  "playout (dropBefore n j) = playout j" "resync (dropBefore n j) = resync j"
  "startAt (dropBefore n j) = startAt j" "releaseAt (dropBefore n j) = releaseAt j"
  by (simp_all add: dropBefore_def Let_def)

lemma jb_wf_dropBefore: "jb_wf held j \<Longrightarrow> jb_wf held (dropBefore n j)"
  using jb_wf_dropFold [of held j "[0..<min (nat (sint (n - expectedSeq j))) (maxPackets j)]"]
  by (simp add: dropBefore_def Let_def jb_wf_def)

text \<open>
  Moving the window forward to \<open>n\<close> keeps exactly the packets at or after \<open>n\<close>.
\<close>

lemma queueOf_dropBefore:
  assumes "jb_wf held j" "jb_window j" "0 \<le> sint (n - expectedSeq j)"
  shows "queueOf (dropBefore n j) s
    = (if sint (s - expectedSeq j) < sint (n - expectedSeq j) then None else queueOf j s)"
proof -
  let ?m = "min (nat (sint (n - expectedSeq j))) (maxPackets j)"
  have q: "queueOf (dropBefore n j) s = queueOf (fold dropStale [0..<?m] j) s"
    by (rule fun_cong [OF queueOf_cong]) (simp_all add: dropBefore_def Let_def)
  show ?thesis
  proof (cases "queueOf j s")
    case None
    then show ?thesis by (simp add: q queueOf_dropFold [OF assms(1)])
  next
    case (Some sl)
    then have w: "0 \<le> sint (s - expectedSeq j)" "sint (s - expectedSeq j) < int (maxPackets j)"
      using jb_window_queueOf(1) [OF assms(2,1)] by (auto simp: in_window_def)
    have "(\<exists>k \<in> set [0..<?m]. s = expectedSeq j + of_nat k)
        \<longleftrightarrow> sint (s - expectedSeq j) < sint (n - expectedSeq j)" (is "?L \<longleftrightarrow> ?R")
    proof
      assume ?R
      then have "nat (sint (s - expectedSeq j)) \<in> set [0..<?m]" using w by auto
      then show ?L using of_nat_sint_diff [OF w(1)] by blast
    next
      assume ?L
      then obtain k where k: "k < ?m" "s = expectedSeq j + of_nat k" by auto
      then have lt: "int k < sint (n - expectedSeq j)" by auto
      then have "int k < 32768" using sint_u16_bounds(2) [of "n - expectedSeq j"] by linarith
      then have "sint (s - expectedSeq j) = int k"
        using sint_of_int_u16 [of "int k"] k(2) by simp
      then show ?R using lt by simp
    qed
    then show ?thesis by (simp add: q queueOf_dropFold [OF assms(1)])
  qed
qed

lemma jb_window_dropBefore:
  assumes "jb_wf held j" "jb_window j" "0 \<le> sint (n - expectedSeq j)"
  shows "jb_window (dropBefore n j)"
  unfolding jb_window_def
proof (intro allI impI)
  fix p i
  assume p: "p < maxPackets (dropBefore n j)" and at: "sequence (dropBefore n j) ! p = Some i"
  from at have "sequence (fold dropStale [0..<min (nat (sint (n - expectedSeq j))) (maxPackets j)] j) ! p
      = Some i"
    by (simp add: dropBefore_def Let_def)
  then have "sequence j ! p = Some i"
    by (rule dropFold_nth) (use p assms(1) in \<open>simp add: jb_wf_def\<close>)
  then have old: "position (slotSeq (slots j ! i)) j = p" "in_window j (slotSeq (slots j ! i))"
    "slotSSRC (slots j ! i) = jssrc j"
    using assms(2) p by (auto simp: jb_window_def)
  have "queueOf (dropBefore n j) (slotSeq (slots j ! i)) \<noteq> None"
    using at old(1) by (simp add: queueOf_def position_def)
  then have "\<not> sint (slotSeq (slots j ! i) - expectedSeq j) < sint (n - expectedSeq j)"
    using queueOf_dropBefore [OF assms] by (auto split: if_splits)
  then have "in_window (dropBefore n j) (slotSeq (slots j ! i))"
    using old(2) assms(3) sint_u16_bounds(2) [of "slotSeq (slots j ! i) - expectedSeq j"]
      sint_shift_origin [of "slotSeq (slots j ! i)" "expectedSeq j" n]
    by (simp add: in_window_def)
  with old show "position (slotSeq (slots (dropBefore n j) ! i)) (dropBefore n j) = p \<and>
      in_window (dropBefore n j) (slotSeq (slots (dropBefore n j) ! i)) \<and>
      slotSSRC (slots (dropBefore n j) ! i) = jssrc (dropBefore n j)"
    by (simp add: position_def)
qed

section \<open>Filing\<close>

lemma jb_window_queue:
  assumes "jb_wf (held + {#i#}) j" "jb_window j" "i < length (slots j)"
    and "sequence j ! position (slotSeq (slots j ! i)) j = None"
    and "in_window j (slotSeq (slots j ! i))" "slotSSRC (slots j ! i) = jssrc j"
  shows "jb_window (j\<lparr>sequence := (sequence j)[position (slotSeq (slots j ! i)) j := Some i],
    queued := q\<rparr>)"
  using assms position_less [OF assms(1), of "slotSeq (slots j ! i)"]
  by (auto simp: jb_window_def in_window_def nth_list_update jb_wf_def)

lemma jb_wf_queue:
  assumes "jb_wf (held + {#i#}) j" "p < maxPackets j" "sequence j ! p = None"
  shows "jb_wf held (j\<lparr>sequence := (sequence j)[p := Some i], queued := queued j + 1\<rparr>)"
  using assms entries_insert [of p "sequence j" i] by (simp add: jb_wf_def)

text \<open>
  Between the stages of \<open>handleSlot\<close> the slot \<open>i\<close> is held, the stream is the packet's own, and
  the invariant holds of the rest.
\<close>

definition jb_admit :: "nat \<Rightarrow> RTPJitterBuffer \<Rightarrow> bool" where
  "jb_admit i j \<longleftrightarrow> jb_inv {#i#} j \<and> i < length (slots j) \<and> ssrcSet j
     \<and> slotSSRC (slots j ! i) = jssrc j"

lemma jb_admitD:
  assumes "jb_admit i j"
  shows "jb_wf {#i#} j" "jb_window j" "jb_phase j" "i < length (slots j)" "ssrcSet j"
    "slotSSRC (slots j ! i) = jssrc j" "0 < maxPackets j" "queued j \<ge> 0"
  using assms by (auto simp: jb_admit_def jb_inv_def jb_wf_def)

lemma jb_inv_freed:
  assumes "jb_inv {#i#} j"
  shows "jb_inv {#} (freeSlot i (j\<lparr>stats := st\<rparr>))"
  using assms jb_wf_freeSlot [of "{#}" i "j\<lparr>stats := st\<rparr>"]
  by (simp add: jb_inv_def jb_phase_def)

lemma handleSlotFile_inv:
  assumes "jb_admit i j" "in_window j (slotSeq (slots j ! i))"
  shows "jb_inv {#} (handleSlotFile now i j)"
proof -
  let ?s = "slotSeq (slots j ! i)"
  note a = jb_admitD [OF assms(1)]
  have wf: "jb_wf ({#} + {#i#}) j" using a by simp
  have p: "position ?s j < maxPackets j" by (rule position_less [OF wf])
  show ?thesis
  proof (cases "sequence j ! position ?s j")
    case (Some e)
    have "jb_inv {#i#} j" using assms(1) by (simp add: jb_admit_def)
    then show ?thesis
      using jb_inv_freed Some by (simp add: handleSlotFile_def Let_def)
  next
    case None
    let ?j = "j\<lparr>sequence := (sequence j)[position ?s j := Some i], queued := queued j + 1\<rparr>"
    have "jb_wf {#} ?j" by (rule jb_wf_queue [OF wf p None])
    moreover have "jb_window ?j" using assms(2) None a by (intro jb_window_queue [OF wf]) simp_all
    moreover have "jb_phase (if resync j \<and> queued j = 0
        then ?j\<lparr>startAt := Some (now + int (delayPackets j) * packetDuration j)\<rparr> else ?j)"
      using a(3,5,8) by (cases "queued j = 0") (auto simp: jb_phase_def)
    ultimately have "jb_inv {#} (if resync j \<and> queued j = 0
        then ?j\<lparr>startAt := Some (now + int (delayPackets j) * packetDuration j)\<rparr> else ?j)"
      by (cases "resync j \<and> queued j = 0") (simp_all only: jb_inv_def startAt_frame if_True if_False simp_thms)
    moreover have "handleSlotFile now i j = (if resync j \<and> queued j = 0
        then ?j\<lparr>startAt := Some (now + int (delayPackets j) * packetDuration j)\<rparr> else ?j)"
      using None by (simp add: handleSlotFile_def Let_def)
    ultimately show ?thesis by simp
  qed
qed

lemma queued_dropFold_le: "queued (fold dropStale ks j) \<le> queued j"
proof (induction ks arbitrary: j)
  case (Cons k ks)
  have "queued (dropStale k j) \<le> queued j"
    by (simp add: dropStale_def Let_def split: option.split)
  then show ?case using Cons [of "dropStale k j"] by simp
qed simp

lemma queued_dropBefore_le: "queued (dropBefore n j) \<le> queued j"
  using queued_dropFold_le by (simp add: dropBefore_def Let_def)

lemma jb_admit_dropBefore:
  assumes "jb_admit i j" "0 \<le> sint (n - expectedSeq j)"
  shows "jb_admit i (dropBefore n j)"
  using jb_admitD [OF assms(1)] assms(2) queued_dropBefore_le [of n j]
    jb_wf_dropBefore [of "{#i#}" j n] jb_window_dropBefore [of "{#i#}" j n]
  by (auto simp: jb_admit_def jb_inv_def jb_phase_def)

lemma window_end_origin:
  fixes s e :: u16
  assumes "0 < d" "d \<le> m" "int m \<le> sint (s - e)"
  shows "sint (s - of_nat (d - 1) - e) = sint (s - e) - int (d - 1)"
    and "sint (s - (s - of_nat (d - 1))) = int (d - 1)"
proof -
  have b: "int (d - 1) < 32768" using assms sint_u16_bounds(2) [of "s - e"] by linarith
  then have k: "sint (of_nat (d - 1) :: u16) = int (d - 1)"
    using sint_of_int_u16 [of "int (d - 1)"] by simp
  then show "sint (s - (s - of_nat (d - 1))) = int (d - 1)" by simp
  show "sint (s - of_nat (d - 1) - e) = sint (s - e) - int (d - 1)"
    using sint_shift_origin [of "s - e" 0 "of_nat (d - 1)"] k b assms sint_u16_bounds(2) [of "s - e"]
    by (simp add: algebra_simps)
qed

lemma canMoveExpectedBack_window:
  assumes "jb_wf held j" "jb_window j" "canMoveExpectedBack s j"
  shows "jb_window (j\<lparr>expectedSeq := s\<rparr>)"
  unfolding jb_window_def
proof (intro allI impI)
  fix p i
  assume p: "p < maxPackets (j\<lparr>expectedSeq := s\<rparr>)" "sequence (j\<lparr>expectedSeq := s\<rparr>) ! p = Some i"
  then have "in_window (j\<lparr>expectedSeq := s\<rparr>) (slotSeq (slots j ! i))"
    using assms(1,3)
    by (auto simp: in_window_def canMoveExpectedBack_def list_all_length jb_wf_def Let_def
        dest!: spec [of _ p])
  with p show "position (slotSeq (slots (j\<lparr>expectedSeq := s\<rparr>) ! i)) (j\<lparr>expectedSeq := s\<rparr>) = p \<and>
      in_window (j\<lparr>expectedSeq := s\<rparr>) (slotSeq (slots (j\<lparr>expectedSeq := s\<rparr>) ! i)) \<and>
      slotSSRC (slots (j\<lparr>expectedSeq := s\<rparr>) ! i) = jssrc (j\<lparr>expectedSeq := s\<rparr>)"
    using assms(2) by (simp add: jb_window_def)
qed

lemma handleSlotWindow_inv:
  assumes "jb_admit i j" "distance = sint (slotSeq (slots j ! i) - expectedSeq j)"
  shows "handleSlotWindow i distance j = Inl j2 \<Longrightarrow> jb_inv {#} j2"
    and "handleSlotWindow i distance j = Inr j2 \<Longrightarrow>
      jb_admit i j2 \<and> in_window j2 (slotSeq (slots j2 ! i)) \<and> slots j2 = slots j"
proof -
  let ?s = "slotSeq (slots j ! i)"
  note a = jb_admitD [OF assms(1)]
  have inv: "jb_inv {#i#} j" using assms(1) by (simp add: jb_admit_def)
  show "handleSlotWindow i distance j = Inl j2 \<Longrightarrow> jb_inv {#} j2"
    using jb_inv_freed [OF inv] by (auto simp: handleSlotWindow_def Let_def split: if_splits)
  assume r: "handleSlotWindow i distance j = Inr j2"
  consider "distance < 0" | "distance \<ge> int (maxPackets j)" | "0 \<le> distance" "distance < int (maxPackets j)"
    by linarith
  then show "jb_admit i j2 \<and> in_window j2 (slotSeq (slots j2 ! i)) \<and> slots j2 = slots j"
  proof cases
    case 1
    then have j2: "j2 = j\<lparr>expectedSeq := ?s\<rparr>" and "canMoveExpectedBack ?s j"
      using r by (auto simp: handleSlotWindow_def Let_def split: if_splits)
    then have "jb_window j2" using canMoveExpectedBack_window [OF a(1,2)] by simp
    moreover have "jb_wf {#i#} j2" using a(1) by (simp add: j2 jb_wf_def)
    moreover have "jb_phase j2" using a(3) by (simp add: j2 jb_phase_def)
    ultimately show ?thesis using a by (simp add: j2 jb_admit_def jb_inv_def in_window_def)
  next
    case 2
    define n where "n = ?s - of_nat (delayPackets j - 1)"
    have d: "0 < delayPackets j" "delayPackets j \<le> maxPackets j" using a(1) by (auto simp: jb_wf_def)
    have j2: "j2 = dropBefore n j"
      using r 2 by (auto simp: handleSlotWindow_def Let_def n_def split: if_splits)
    have n: "sint (n - expectedSeq j) = distance - int (delayPackets j - 1)"
      and sn: "sint (?s - n) = int (delayPackets j - 1)"
      using window_end_origin [OF d, of ?s "expectedSeq j"] 2 assms(2) by (simp_all add: n_def)
    have "0 \<le> sint (n - expectedSeq j)" using n 2 d by linarith
    then show ?thesis
      using jb_admit_dropBefore [OF assms(1)] sn d by (simp add: j2 in_window_def)
  next
    case 3
    then have "j2 = j" using r by (auto simp: handleSlotWindow_def Let_def split: if_splits)
    then show ?thesis using 3 assms by (simp add: in_window_def)
  qed
qed

lemma jb_inv_resetStream:
  assumes "jb_wf held j" "0 \<le> packetDuration j"
  shows "jb_inv held (resetStream now src s j)"
proof -
  have "length (sequence j) = maxPackets j" using assms(1) by (simp add: jb_wf_def)
  then show ?thesis
    using assms jb_wf_resetStream [OF assms(1)]
    by (simp add: jb_inv_def jb_phase_def jb_window_empty)
qed

lemma jb_inv_learn: "jb_inv held j \<Longrightarrow> jb_inv held (learnPacketDuration sl j)"
  using jb_wf_cong [of "learnPacketDuration sl j" j] jb_window_cong [of "learnPacketDuration sl j" j]
    learn_duration_nonneg [of j sl]
  by (simp add: jb_inv_def jb_phase_def)

lemma handleSlotStream_inv:
  assumes "jb_inv {#i#} j" "i < length (slots j)"
    and "handleSlotStream now (slots j ! i) j = (distance, j1)"
  shows "jb_admit i j1" "distance = sint (slotSeq (slots j ! i) - expectedSeq j1)"
    "slots j1 = slots j"
proof -
  let ?sl = "slots j ! i"
  have st: "jb_inv held (k\<lparr>stats := st\<rparr>) \<longleftrightarrow> jb_inv held k" for held k st
    by (simp add: jb_inv_def jb_phase_def)
  have wf: "jb_wf {#i#} j" "0 \<le> packetDuration j"
    using assms(1) by (simp_all add: jb_inv_def jb_phase_def)
  define j0 where "j0 = j\<lparr>stats := (stats j)\<lparr>packetsRead := packetsRead (stats j) + 1\<rparr>\<rparr>"
  define j2 where "j2 = (if \<not> ssrcSet j0 \<or> jssrc j0 \<noteq> slotSSRC ?sl
    then resetStream now (slotSSRC ?sl) (slotSeq ?sl)
      (if ssrcSet j0 then j0\<lparr>stats := (stats j0)\<lparr>ssrcResets := ssrcResets (stats j0) + 1\<rparr>\<rparr> else j0)
    else j0)"
  have j0: "jb_wf {#i#} j0" "0 \<le> packetDuration j0" "slots j0 = slots j"
    using wf by (simp_all add: j0_def)
  have j2: "jb_inv {#i#} j2" "slots j2 = slots j" "ssrcSet j2" "jssrc j2 = slotSSRC ?sl"
    using assms(1) j0 by (auto simp: j2_def st j0_def intro!: jb_inv_resetStream)
  then have "jb_inv {#i#} (resetStream now (slotSSRC ?sl) (slotSeq ?sl) j2)"
    by (intro jb_inv_resetStream) (auto simp: jb_inv_def jb_phase_def)
  note inv = jb_inv_learn [OF this, of ?sl] jb_inv_learn [OF j2(1), of ?sl]
  have "(distance, j1) = (0, learnPacketDuration ?sl (resetStream now (slotSSRC ?sl) (slotSeq ?sl) j2))
      \<or> (distance, j1) = (sint (slotSeq ?sl - expectedSeq j2), learnPacketDuration ?sl j2)"
    using assms(3) unfolding handleSlotStream_def Let_def j0_def [symmetric] j2_def [symmetric]
    by (metis (full_types))
  then show "jb_admit i j1" "distance = sint (slotSeq ?sl - expectedSeq j1)" "slots j1 = slots j"
    using assms(2) inv j2(2-) by (auto simp: jb_admit_def)
qed

theorem handleSlot_inv:
  assumes "jb_inv {#i#} j" "i < length (slots j)"
  shows "jb_inv {#} (handleSlot now i j)"
proof -
  obtain distance j1 where s: "handleSlotStream now (slots j ! i) j = (distance, j1)"
    by (meson surj_pair)
  note j1 = handleSlotStream_inv [OF assms s]
  have d: "distance = sint (slotSeq (slots j1 ! i) - expectedSeq j1)" using j1(2,3) by simp
  show ?thesis
  proof (cases "handleSlotWindow i distance j1")
    case (Inl j2)
    then show ?thesis
      using handleSlotWindow_inv(1) [OF j1(1) d Inl] by (simp add: handleSlot_def s)
  next
    case (Inr j2)
    then show ?thesis
      using handleSlotWindow_inv(2) [OF j1(1) d Inr]
      by (auto simp: handleSlot_def s intro: handleSlotFile_inv)
  qed
qed

end
