(* ===== verification/Jitter_Playout.thy ===== *)
theory Jitter_Playout
  imports Jitter_Invariant
begin

text \<open>
  Playout under the invariant: the passes of \<open>ReadRTP\<close>, the loop of \<open>startPlayout\<close>, which ends
  because a queued packet bounds the numbers it can skip, and the operations of the read loop and
  the owner. Every one of them keeps \<^const>\<open>jb_inv\<close>.
\<close>

section \<open>Advancing past a number\<close>

lemma jb_wf_advance [simp]:
  "jb_wf held (j\<lparr>expectedSeq := e\<rparr>) \<longleftrightarrow> jb_wf held j"
  "jb_wf held (j\<lparr>releaseAt := t\<rparr>) \<longleftrightarrow> jb_wf held j"
  "jb_wf held (j\<lparr>resync := r\<rparr>) \<longleftrightarrow> jb_wf held j"
  "jb_wf held (j\<lparr>playout := b\<rparr>) \<longleftrightarrow> jb_wf held j"
  by (rule jb_wf_cong; simp)+

lemma jb_window_playout [simp]:
  "jb_window (j\<lparr>releaseAt := t\<rparr>) \<longleftrightarrow> jb_window j"
  "jb_window (j\<lparr>resync := r\<rparr>) \<longleftrightarrow> jb_window j"
  "jb_window (j\<lparr>playout := b\<rparr>) \<longleftrightarrow> jb_window j"
  by (rule jb_window_cong; simp)+

lemma jb_window_advance:
  assumes "jb_wf held j" "jb_window j" "queueOf j (expectedSeq j) = None"
  shows "jb_window (j\<lparr>expectedSeq := expectedSeq j + 1\<rparr>)"
  unfolding jb_window_def
proof (intro allI impI)
  fix p i
  assume p: "p < maxPackets (j\<lparr>expectedSeq := expectedSeq j + 1\<rparr>)"
    "sequence (j\<lparr>expectedSeq := expectedSeq j + 1\<rparr>) ! p = Some i"
  then have w: "position (slotSeq (slots j ! i)) j = p" "in_window j (slotSeq (slots j ! i))"
      "slotSSRC (slots j ! i) = jssrc j"
    using assms(2) by (auto simp: jb_window_def)
  have "slotSeq (slots j ! i) \<noteq> expectedSeq j"
    using queueOf_iff [OF assms(1,2), of "expectedSeq j" "slots j ! i"] assms(3) p by auto
  then have "sint (slotSeq (slots j ! i) - expectedSeq j) \<noteq> 0" by simp
  then have "0 < sint (slotSeq (slots j ! i) - expectedSeq j)"
    using w(2) unfolding in_window_def by linarith
  then show "position (slotSeq (slots (j\<lparr>expectedSeq := expectedSeq j + 1\<rparr>) ! i))
        (j\<lparr>expectedSeq := expectedSeq j + 1\<rparr>) = p
      \<and> in_window (j\<lparr>expectedSeq := expectedSeq j + 1\<rparr>)
          (slotSeq (slots (j\<lparr>expectedSeq := expectedSeq j + 1\<rparr>) ! i))
      \<and> slotSSRC (slots (j\<lparr>expectedSeq := expectedSeq j + 1\<rparr>) ! i)
          = jssrc (j\<lparr>expectedSeq := expectedSeq j + 1\<rparr>)"
    using w sint_next_origin [of "slotSeq (slots j ! i)" "expectedSeq j"]
    by (simp add: in_window_def)
qed

lemma jb_queued_pos:
  assumes "jb_wf held j" "jb_window j" "queued j > 0"
  obtains s sl where "queueOf j s = Some sl" "in_window j s"
proof -
  have "entries (sequence j) \<noteq> {#}" using assms by (auto simp: jb_wf_def)
  then obtain p i where "p < maxPackets j" "sequence j ! p = Some i"
    using assms(1) entries_empty_iff [of "sequence j"] unfolding jb_wf_def
    by (metis in_set_conv_nth not_None_eq)
  then have "queueOf j (slotSeq (slots j ! i)) = Some (slots j ! i)"
    using queueOf_iff [OF assms(1,2)] by blast
  then show thesis using that jb_window_queueOf(1) [OF assms(2,1)] by blast
qed

section \<open>The first queued number\<close>

text \<open>
  \<open>lead j\<close> is how many numbers lie between the expected one and the first queued one. It is
  what the skipping loop and the passes that count losses run down.
\<close>

definition lead :: "RTPJitterBuffer \<Rightarrow> nat" where
  "lead j = (LEAST k. queueOf j (expectedSeq j + of_nat k) \<noteq> None)"

lemma lead_queued:
  assumes "jb_wf held j" "jb_window j" "queued j > 0"
  shows "queueOf j (expectedSeq j + of_nat (lead j)) \<noteq> None" "lead j < maxPackets j"
proof -
  obtain s sl where s: "queueOf j s = Some sl" "in_window j s"
    using assms by (rule jb_queued_pos)
  let ?k = "nat (sint (s - expectedSeq j))"
  have k: "expectedSeq j + of_nat ?k = s" "?k < maxPackets j"
    using s(2) by (simp_all add: in_window_def of_nat_sint_diff nat_less_iff)
  show "queueOf j (expectedSeq j + of_nat (lead j)) \<noteq> None"
    unfolding lead_def by (rule LeastI [of _ ?k]) (simp add: k s)
  have "lead j \<le> ?k" unfolding lead_def by (rule Least_le) (simp add: k s)
  then show "lead j < maxPackets j" using k by linarith
qed

lemma lead_before: "k < lead j \<Longrightarrow> queueOf j (expectedSeq j + of_nat k) = None"
  unfolding lead_def using not_less_Least by blast

lemma lead_zero: "lead j = 0 \<Longrightarrow> jb_wf held j \<Longrightarrow> jb_window j \<Longrightarrow> queued j > 0
    \<Longrightarrow> queueOf j (expectedSeq j) \<noteq> None"
  using lead_queued(1) [of held j] by simp

lemma lead_advance:
  assumes "jb_wf held j" "jb_window j" "queued j > 0" "queueOf j (expectedSeq j) = None"
  shows "lead j = Suc (lead (j\<lparr>expectedSeq := expectedSeq j + 1\<rparr>))"
proof -
  have q: "queueOf (j\<lparr>expectedSeq := expectedSeq j + 1\<rparr>) = queueOf j" by (rule queueOf_cong) simp_all
  have "lead j = Suc (LEAST k. queueOf j (expectedSeq j + of_nat (Suc k)) \<noteq> None)"
    unfolding lead_def using lead_queued(1) [OF assms(1-3)] assms(4)
    by (intro Least_Suc [of _ "lead j"]) simp_all
  then show ?thesis by (simp add: lead_def q add.assoc)
qed

section \<open>Skipping the numbers lost before playout\<close>

definition countLost :: "nat \<Rightarrow> RTPJitterBuffer \<Rightarrow> RTPJitterBuffer" where
  "countLost k j = j\<lparr>stats := (stats j)\<lparr>packetsLost := packetsLost (stats j) + of_nat k\<rparr>,
     expectedSeq := expectedSeq j + of_nat k\<rparr>"

lemma countLost_frame [simp]:
  "delayPackets (countLost k j) = delayPackets j" "maxPackets (countLost k j) = maxPackets j"
  "slots (countLost k j) = slots j" "sequence (countLost k j) = sequence j"
  "freeSlots (countLost k j) = freeSlots j" "queued (countLost k j) = queued j"
  "jssrc (countLost k j) = jssrc j" "ssrcSet (countLost k j) = ssrcSet j"
  "playout (countLost k j) = playout j" "resync (countLost k j) = resync j"
  "startAt (countLost k j) = startAt j" "releaseAt (countLost k j) = releaseAt j"
  "packetDuration (countLost k j) = packetDuration j"
  "upstreamEnded (countLost k j) = upstreamEnded j" "readErr (countLost k j) = readErr j"
  "expectedSeq (countLost k j) = expectedSeq j + of_nat k"
  "jb_wf held (countLost k j) \<longleftrightarrow> jb_wf held j"
  by (simp_all add: countLost_def)

lemma countLost_0 [simp]: "countLost 0 j = j"
  by (simp add: countLost_def)

lemma countLost_Suc: "countLost k (countLost 1 j) = countLost (Suc k) j"
  by (simp add: countLost_def add.assoc)

lemma queueOf_countLost [simp]: "queueOf (countLost k j) = queueOf j"
  by (rule queueOf_cong) simp_all

lemma countLost_one:
  "j\<lparr>stats := (stats j)\<lparr>packetsLost := packetsLost (stats j) + 1\<rparr>, expectedSeq := expectedSeq j + 1\<rparr>
    = countLost 1 j"
  by (simp add: countLost_def)

lemma queueOf_None: "sequence j ! position s j = None \<Longrightarrow> queueOf j s = None"
  by (simp add: queueOf_def)

lemma countLost_step:
  assumes "jb_wf held j" "jb_window j" "queueOf j (expectedSeq j) = None"
  shows "jb_window (countLost 1 j)" "queued j > 0 \<Longrightarrow> lead j = Suc (lead (countLost 1 j))"
proof -
  have w: "jb_window (countLost 1 j) = jb_window (j\<lparr>expectedSeq := expectedSeq j + 1\<rparr>)"
    by (rule jb_window_cong) simp_all
  then show "jb_window (countLost 1 j)" using jb_window_advance [OF assms] by simp
  have q: "queueOf (j\<lparr>expectedSeq := expectedSeq j + 1\<rparr>) = queueOf j" by (rule queueOf_cong) simp_all
  show "queued j > 0 \<Longrightarrow> lead j = Suc (lead (countLost 1 j))"
    using lead_advance [OF assms(1,2) _ assms(3)] by (simp add: lead_def q)
qed

lemma skipLost_unfold:
  "skipLost j = (if resync j \<and> queued j > 0 \<and> sequence j ! position (expectedSeq j) j = None
     then skipLost (countLost 1 j) else Some j)"
  unfolding skipLost_def by (subst while_option_unfold) (simp add: countLost_one)

text \<open>The loop ends, having skipped at most the numbers before the first queued one.\<close>

lemma skipLost_total:
  assumes "jb_wf held j" "jb_window j"
  shows "\<exists>k. skipLost j = Some (countLost k j) \<and> jb_window (countLost k j) \<and> k < maxPackets j
    \<and> (\<forall>i < k. queueOf j (expectedSeq j + of_nat i) = None)"
  using assms
proof (induction "lead j" arbitrary: j rule: less_induct)
  case less
  then have m: "0 < maxPackets j" by (auto simp: jb_wf_def)
  show ?case
  proof (cases "resync j \<and> queued j > 0 \<and> sequence j ! position (expectedSeq j) j = None")
    case False
    have "skipLost j = Some (countLost 0 j)" 
      by (simp only: skipLost_unfold [of j] if_not_P [OF False] countLost_0)
    then show ?thesis using less.prems(2) m by (intro exI [of _ 0]) simp
  next
    case True
    note q = queueOf_None [OF conjunct2 [OF conjunct2 [OF True]]]
    note st = countLost_step [OF less.prems q]
    have l: "lead (countLost 1 j) < lead j" using st(2) True by simp
    obtain k where k: "skipLost (countLost 1 j) = Some (countLost k (countLost 1 j))"
        "jb_window (countLost k (countLost 1 j))"
        "\<forall>i < k. queueOf j (expectedSeq j + 1 + of_nat i) = None"
      using less.hyps [OF l] less.prems st(1) by auto
    have s: "skipLost j = Some (countLost (Suc k) j)" "jb_window (countLost (Suc k) j)"
      using k(2) by (simp_all only: skipLost_unfold [of j] if_P [OF True] k(1) countLost_Suc)
    have b: "\<forall>i < Suc k. queueOf j (expectedSeq j + of_nat i) = None"
      using q k(3) by (auto simp: less_Suc_eq_0_disj add.assoc)
    have "queueOf j (expectedSeq j + of_nat (lead j)) \<noteq> None" "lead j < maxPackets j"
      using lead_queued [OF less.prems] True by auto
    then have "Suc k \<le> lead j" using b by (meson not_less)
    then show ?thesis using s b \<open>lead j < maxPackets j\<close> by (intro exI [of _ "Suc k"]) simp
  qed
qed

lemma startPlayout_total:
  assumes "jb_inv held j"
  obtains k j' where "startPlayout now j = Some j'" "jb_inv held j'" "playout j'"
    "j' = (countLost k j)\<lparr>startAt := None, resync := False, playout := True, releaseAt := now\<rparr>"
    "k < maxPackets j" "\<forall>i < k. queueOf j (expectedSeq j + of_nat i) = None"
proof -
  let ?j = "j\<lparr>startAt := None\<rparr>"
  have a: "jb_wf held j" "jb_window j" "jb_phase j" using assms by (simp_all add: jb_inv_def)
  have q: "queueOf ?j = queueOf j" by (rule queueOf_cong) simp_all
  obtain k where k: "skipLost ?j = Some (countLost k ?j)" "jb_window (countLost k ?j)"
      "k < maxPackets j" "\<forall>i < k. queueOf j (expectedSeq j + of_nat i) = None"
    using skipLost_total [of held ?j] a by (auto simp: q)
  let ?r = "(countLost k j)\<lparr>startAt := None, resync := False, playout := True, releaseAt := now\<rparr>"
  have e: "startPlayout now j = Some ?r"
    using k(1) by (simp add: startPlayout_def countLost_def)
  have "jb_window ?r" using k(2) jb_window_cong [of ?r "countLost k ?j"] by simp
  then have "jb_inv held ?r" using a by (simp add: jb_inv_def jb_phase_def)
  then show thesis using that e k(3,4) by simp
qed

section \<open>Releasing the expected packet\<close>

text \<open>The state after the expected packet in slot \<open>i\<close> has been taken out of the queue.\<close>

definition unqueueExpected :: "nat \<Rightarrow> RTPJitterBuffer \<Rightarrow> RTPJitterBuffer" where
  "unqueueExpected i j = freeSlot i (j\<lparr>sequence := (sequence j)[position (expectedSeq j) j := None],
     queued := queued j - 1, expectedSeq := expectedSeq j + 1,
     releaseAt := releaseAt j + packetDuration j\<rparr>)"

lemma unqueueExpected_frame [simp]:
  "delayPackets (unqueueExpected i j) = delayPackets j"
  "maxPackets (unqueueExpected i j) = maxPackets j"
  "slots (unqueueExpected i j) = slots j" "queued (unqueueExpected i j) = queued j - 1"
  "sequence (unqueueExpected i j) = (sequence j)[position (expectedSeq j) j := None]"
  "jssrc (unqueueExpected i j) = jssrc j" "ssrcSet (unqueueExpected i j) = ssrcSet j"
  "playout (unqueueExpected i j) = playout j" "resync (unqueueExpected i j) = resync j"
  "startAt (unqueueExpected i j) = startAt j"
  "releaseAt (unqueueExpected i j) = releaseAt j + packetDuration j"
  "packetDuration (unqueueExpected i j) = packetDuration j"
  "expectedSeq (unqueueExpected i j) = expectedSeq j + 1"
  "stats (unqueueExpected i j) = stats j"
  "position s (unqueueExpected i j) = position s j"
  by (simp_all add: unqueueExpected_def position_def)

lemma queueOf_unqueueExpected:
  assumes "jb_wf held j" "sequence j ! position (expectedSeq j) j = Some i"
    "slotSeq (slots j ! i) = expectedSeq j"
  shows "queueOf (unqueueExpected i j) s = (if s = expectedSeq j then None else queueOf j s)"
proof -
  have p: "position s j < length (sequence j)" for s
    using position_less [OF assms(1), of s] assms(1) by (simp add: jb_wf_def)
  show ?thesis
  proof (cases "position s j = position (expectedSeq j) j")
    case True
    then show ?thesis using assms(2,3) p by (simp add: queueOf_def)
  next
    case False
    then have "s \<noteq> expectedSeq j" by auto
    then show ?thesis using False by (simp add: queueOf_def split: option.split)
  qed
qed

lemma jb_inv_unqueueExpected:
  assumes "jb_inv held j" "playout j" "sequence j ! position (expectedSeq j) j = Some i"
    "slotSeq (slots j ! i) = expectedSeq j"
  shows "jb_inv held (unqueueExpected i j)"
proof -
  let ?p = "position (expectedSeq j) j"
  let ?u = "freeSlot i (j\<lparr>stats := stats j, sequence := (sequence j)[?p := None], queued := queued j - 1\<rparr>)"
  have a: "jb_wf held j" "jb_window j" "jb_phase j" using assms(1) by (simp_all add: jb_inv_def)
  have wf: "jb_wf held ?u" by (rule jb_wf_unqueue [OF a(1) position_less [OF a(1)] assms(3)])
  have p: "position s j < length (sequence j)" for s
    using position_less [OF a(1), of s] a(1) by (simp add: jb_wf_def)
  have nth: "q < maxPackets j \<Longrightarrow> sequence ?u ! q = Some k \<Longrightarrow> q \<noteq> ?p \<and> sequence j ! q = Some k" for q k
    using p [of "expectedSeq j"] by (cases "q = ?p") simp_all
  have "jb_window ?u"
    unfolding jb_window_def using a(2) nth
    by (auto simp: jb_window_def in_window_def position_def)
  moreover have "queueOf ?u (expectedSeq ?u) = None"
    using p [of "expectedSeq j"] by (simp add: queueOf_def position_def)
  ultimately have "jb_window (?u\<lparr>expectedSeq := expectedSeq ?u + 1\<rparr>)"
    by (intro jb_window_advance [OF wf])
  then have "jb_window (unqueueExpected i j)"
    using jb_window_cong [of "unqueueExpected i j" "?u\<lparr>expectedSeq := expectedSeq ?u + 1\<rparr>"] by simp
  moreover have "jb_wf held (unqueueExpected i j)"
    using wf jb_wf_cong [of "unqueueExpected i j" ?u] by (simp add: unqueueExpected_def freeSlot_def)
  moreover have "jb_phase (unqueueExpected i j)" using a(3) assms(2) by (simp add: jb_phase_def)
  ultimately show ?thesis by (simp add: jb_inv_def)
qed

lemma releaseNext_eq:
  "releaseNext unmarshal buflen i j =
    (let data = take (slotN (slots j ! i)) (slotRaw (slots j ! i)); u = unqueueExpected i j in
     if buflen < slotN (slots j ! i) then (j, Failed ErrShortBuffer)
     else case unmarshal data of
        Inl e \<Rightarrow> (u, Failed e)
      | Inr p \<Rightarrow> (u\<lparr>stats := (stats u)\<lparr>packetsReleased := packetsReleased (stats u) + 1,
             lastSequenceNumber := ucast (SequenceNumber (Header p))\<rparr>\<rparr>, Released data p))"
  by (simp add: releaseNext_def unqueueExpected_def Let_def)

lemma releaseNext_inv:
  assumes "jb_inv held j" "playout j" "sequence j ! position (expectedSeq j) j = Some i"
    "slotSeq (slots j ! i) = expectedSeq j"
  shows "jb_inv held (fst (releaseNext unmarshal buflen i j))"
proof -
  have "jb_inv held ((unqueueExpected i j)\<lparr>stats := st\<rparr>)" for st
    using jb_inv_unqueueExpected [OF assms] by (simp add: jb_inv_def jb_phase_def)
  then show ?thesis
    using assms(1) jb_inv_unqueueExpected [OF assms]
    by (simp add: releaseNext_eq Let_def split: sum.split)
qed

section \<open>One pass of \<open>ReadRTP\<close>\<close>

lemma queueOf_Some:
  "queueOf j s = Some sl \<longleftrightarrow>
    (\<exists>i. sequence j ! position s j = Some i \<and> slotSeq (slots j ! i) = s \<and> sl = slots j ! i)"
  by (auto simp: queueOf_def split: option.split)

lemma playoutDecision_due:
  assumes "playout j" "releaseAt j \<le> now"
  shows "playoutDecision unmarshal buflen now j =
    (case queueOf j (expectedSeq j) of
       Some sl \<Rightarrow> releaseNext unmarshal buflen (the (sequence j ! position (expectedSeq j) j)) j
     | None \<Rightarrow>
         if queued j = 0 then (stopPlayout j, waitOutcome now (stopPlayout j))
         else ((countLost 1 j)\<lparr>releaseAt := releaseAt j + packetDuration j\<rparr>, Again))"
  using assms by (simp add: playoutDecision_def queueOf_def countLost_def Let_def split: option.split)

lemma stopPlayout_inv:
  assumes "jb_inv held j" "playout j" "queued j = 0"
  shows "jb_inv held (stopPlayout j)" "queueOf (stopPlayout j) = queueOf j"
proof -
  show "queueOf (stopPlayout j) = queueOf j" by (rule queueOf_cong) (simp_all add: stopPlayout_def)
  show "jb_inv held (stopPlayout j)"
    using assms by (simp add: jb_inv_def jb_phase_def stopPlayout_def)
qed

text \<open>
  What a pass does to the queue: it passes over \<open>k\<close> numbers none of which is queued, and then
  either leaves the queue alone or takes out the packet under the next number.
\<close>

definition passesOver :: "nat \<Rightarrow> RTPJitterBuffer \<Rightarrow> RTPJitterBuffer \<Rightarrow> bool" where
  "passesOver k j j' \<longleftrightarrow> (\<forall>i < k. queueOf j (expectedSeq j + of_nat i) = None)
     \<and> expectedSeq j' = expectedSeq j + of_nat k \<and> queueOf j' = queueOf j \<and> queued j' = queued j"

definition takesOut :: "nat \<Rightarrow> rtpJitterSlot \<Rightarrow> RTPJitterBuffer \<Rightarrow> RTPJitterBuffer \<Rightarrow> bool" where
  "takesOut k sl j j' \<longleftrightarrow> (\<forall>i < k. queueOf j (expectedSeq j + of_nat i) = None)
     \<and> queueOf j (expectedSeq j + of_nat k) = Some sl
     \<and> expectedSeq j' = expectedSeq j + of_nat k + 1
     \<and> queueOf j' = (queueOf j)(expectedSeq j + of_nat k := None) \<and> queued j' = queued j - 1"

definition slotData :: "rtpJitterSlot \<Rightarrow> bytes" where
  "slotData sl = take (slotN sl) (slotRaw sl)"

definition pass_effect ::
  "(bytes \<Rightarrow> go_error + rtp_packet) \<Rightarrow> nat \<Rightarrow> RTPJitterBuffer \<Rightarrow> RTPJitterBuffer \<Rightarrow> read_outcome \<Rightarrow> nat \<Rightarrow> bool" where
  "pass_effect unmarshal buflen j j' out k \<longleftrightarrow>
    (case out of
       Released data p \<Rightarrow> \<exists>sl. takesOut k sl j j' \<and> slotN sl \<le> buflen
         \<and> data = slotData sl \<and> unmarshal data = Inr p
     | Failed e \<Rightarrow> passesOver k j j'
         \<and> (e = ErrShortBuffer \<and> queueOf j (expectedSeq j + of_nat k) \<noteq> None \<or> upstreamEnded j \<and> queued j = 0)
         \<or> (\<exists>sl. takesOut k sl j j' \<and> slotN sl \<le> buflen \<and> unmarshal (slotData sl) = Inl e)
     | Again \<Rightarrow> 0 < k \<and> passesOver k j j'
     | Wait d \<Rightarrow> passesOver k j j')"

lemma waitOutcome_cases:
  "waitOutcome now j = Failed e \<Longrightarrow> upstreamEnded j \<and> queued j = 0"
  "waitOutcome now j \<noteq> Released data p" "waitOutcome now j \<noteq> Again"
  by (simp_all add: waitOutcome_def split: if_splits)

lemma pass_effect_wait:
  assumes "passesOver k j j'" "upstreamEnded j' = upstreamEnded j"
  shows "pass_effect unmarshal buflen j j' (waitOutcome now j') k"
  using assms waitOutcome_cases [of now j']
  by (cases "waitOutcome now j'") (auto simp: pass_effect_def passesOver_def)

definition pass_ok ::
  "(bytes \<Rightarrow> go_error + rtp_packet) \<Rightarrow> nat \<Rightarrow> nat multiset \<Rightarrow> RTPJitterBuffer \<Rightarrow> RTPJitterBuffer \<times> read_outcome \<Rightarrow> nat \<Rightarrow> bool" where
  "pass_ok unmarshal buflen held j r n \<longleftrightarrow>
     jb_inv held (fst r) \<and> (\<exists>k \<le> n. pass_effect unmarshal buflen j (fst r) (snd r) k)"

lemma pass_ok_mono:
  "pass_ok unmarshal buflen held j r n \<Longrightarrow> n \<le> m \<Longrightarrow> pass_ok unmarshal buflen held j r m"
  unfolding pass_ok_def using le_trans by blast

lemma playoutDecision_release:
  assumes "jb_inv held j" "playout j" "releaseAt j \<le> now" "queueOf j (expectedSeq j) = Some sl"
  shows "pass_ok unmarshal buflen held j (playoutDecision unmarshal buflen now j) 0"
proof -
  have wf: "jb_wf held j" using assms(1) by (simp add: jb_inv_def)
  obtain i where i: "sequence j ! position (expectedSeq j) j = Some i"
      "slotSeq (slots j ! i) = expectedSeq j" "sl = slots j ! i"
    using assms(4) by (auto simp: queueOf_Some)
  have r: "playoutDecision unmarshal buflen now j = releaseNext unmarshal buflen i j"
    using assms(2-4) i(1) by (simp add: playoutDecision_due)
  have q: "queueOf (unqueueExpected i j) = (queueOf j)(expectedSeq j := None)"
    using queueOf_unqueueExpected [OF wf i(1,2)] by (simp add: fun_eq_iff)
  have st: "queueOf ((unqueueExpected i j)\<lparr>stats := st\<rparr>) = queueOf (unqueueExpected i j)" for st
    by (rule queueOf_cong) simp_all
  show ?thesis
    using releaseNext_inv [OF assms(1,2) i(1,2), of unmarshal buflen] q assms(4) i(3)
    by (auto simp: pass_ok_def r releaseNext_eq Let_def pass_effect_def passesOver_def takesOut_def
        slotData_def st split: if_splits sum.splits)
qed

lemma playoutDecision_gap:
  assumes "jb_inv held j" "playout j" "releaseAt j \<le> now" "queueOf j (expectedSeq j) = None"
  shows "pass_ok unmarshal buflen held j (playoutDecision unmarshal buflen now j) 1"
proof (cases "queued j = 0")
  case True
  have "passesOver 0 j (stopPlayout j)" "jb_inv held (stopPlayout j)"
    using stopPlayout_inv [OF assms(1,2) True] by (simp_all add: passesOver_def stopPlayout_def)
  moreover have "upstreamEnded (stopPlayout j) = upstreamEnded j" by (simp add: stopPlayout_def)
  ultimately have "pass_effect unmarshal buflen j (stopPlayout j) (waitOutcome now (stopPlayout j)) 0"
    by (intro pass_effect_wait)
  then show ?thesis
    using \<open>jb_inv held (stopPlayout j)\<close> assms(2-4) True by (auto simp: pass_ok_def playoutDecision_due)
next
  case False
  let ?c = "(countLost 1 j)\<lparr>releaseAt := releaseAt j + packetDuration j\<rparr>"
  have a: "jb_wf held j" "jb_window j" "jb_phase j" using assms(1) by (simp_all add: jb_inv_def)
  have q: "queueOf ?c = queueOf j" by (rule queueOf_cong) simp_all
  have "jb_window ?c"
    using countLost_step(1) [OF a(1,2) assms(4)] jb_window_cong [of ?c "countLost 1 j"] by simp
  then have "jb_inv held ?c" using a by (simp add: jb_inv_def jb_phase_def)
  moreover have "pass_effect unmarshal buflen j ?c Again 1"
    using assms(4) q by (simp add: pass_effect_def passesOver_def)
  ultimately show ?thesis
    using assms(2-4) False by (auto simp: pass_ok_def playoutDecision_due)
qed

lemma playoutDecision_spec:
  assumes "jb_inv held j"
  shows "pass_ok unmarshal buflen held j (playoutDecision unmarshal buflen now j) 1"
proof (cases "playout j \<and> releaseAt j \<le> now")
  case False
  then have "playoutDecision unmarshal buflen now j = (j, waitOutcome now j)"
    by (auto simp: playoutDecision_def)
  then show ?thesis
    using assms pass_effect_wait [of 0 j j] by (auto simp: pass_ok_def passesOver_def)
next
  case True
  then show ?thesis
    using playoutDecision_release [OF assms] playoutDecision_gap [OF assms]
    by (cases "queueOf j (expectedSeq j)") (auto simp: pass_ok_def)
qed

text \<open>A pass composed with the numbers skipped when playout starts.\<close>

lemma pass_effect_shift:
  assumes "passesOver k j j1" "upstreamEnded j1 = upstreamEnded j"
    "pass_effect unmarshal buflen j1 j2 out n"
  shows "pass_effect unmarshal buflen j j2 out (k + n)"
proof -
  have t: "(\<forall>i < k + n. queueOf j (expectedSeq j + of_nat i) = None)"
    if *: "\<forall>i < n. queueOf j (expectedSeq j + of_nat k + of_nat i) = None"
  proof (intro allI impI)
    fix i assume i: "i < k + n"
    show "queueOf j (expectedSeq j + of_nat i) = None"
    proof (cases "i < k")
      case True
      then show ?thesis using assms(1) by (simp add: passesOver_def)
    next
      case False
      then obtain m where "i = k + m" using le_Suc_ex not_less by blast
      then show ?thesis using * i by (simp add: add.assoc)
    qed
  qed
  show ?thesis
    using assms t by (cases out) (auto simp: pass_effect_def passesOver_def takesOut_def add.assoc)
qed

theorem ReadRTP_pass_spec:
  assumes "jb_inv held j"
  shows "\<exists>r. ReadRTP_pass unmarshal buflen now j = Some r
    \<and> pass_ok unmarshal buflen held j r (maxPackets j)"
proof (cases "playoutStartDue now j")
  case False
  have "1 \<le> maxPackets j" using assms by (auto simp: jb_inv_def jb_wf_def)
  then show ?thesis
    using False pass_ok_mono [OF playoutDecision_spec [OF assms, of unmarshal buflen now]]
    by (simp add: ReadRTP_pass_def)
next
  case True
  obtain k j1 where s: "startPlayout now j = Some j1" "jb_inv held j1"
      "j1 = (countLost k j)\<lparr>startAt := None, resync := False, playout := True, releaseAt := now\<rparr>"
      "k < maxPackets j" "\<forall>i < k. queueOf j (expectedSeq j + of_nat i) = None"
    using startPlayout_total [OF assms] by metis
  let ?r = "playoutDecision unmarshal buflen now j1"
  have "queueOf j1 = queueOf j" unfolding s(3) by (rule queueOf_cong) simp_all
  then have p: "passesOver k j j1" "upstreamEnded j1 = upstreamEnded j"
    using s(3,5) by (simp_all add: passesOver_def)
  obtain n where n: "n \<le> 1" "jb_inv held (fst ?r)" "pass_effect unmarshal buflen j1 (fst ?r) (snd ?r) n"
    using playoutDecision_spec [OF s(2), of unmarshal buflen now] by (auto simp: pass_ok_def)
  have "pass_effect unmarshal buflen j (fst ?r) (snd ?r) (k + n)" by (rule pass_effect_shift [OF p n(3)])
  then have "pass_ok unmarshal buflen held j ?r (maxPackets j)"
    unfolding pass_ok_def using n(1,2) s(4) by (intro conjI exI [of _ "k + n"]) simp_all
  then show ?thesis using True s(1) by (simp add: ReadRTP_pass_def)
qed

end
