(* ===== verification/Jitter_System.thy ===== *)
theory Jitter_System
  imports Jitter_Playout
begin

text \<open>
  The jitter buffer with its two goroutines: the read loop, which moves packets from the upstream
  reader into the window, and the caller of \<open>ReadRTP\<close>, with the owner's \<open>UpdateRTPSession\<close> and
  \<open>Close\<close> in between. The steps are the critical sections of the source, so every interleaving of
  the code is a run of \<open>jb_step\<close>.
\<close>

section \<open>The critical sections keep the invariant\<close>

lemma takeSlot_inv:
  assumes "jb_inv {#} j" "takeSlot j = Some (i, j')"
  shows "jb_inv {#i#} j'"
proof -
  have "jb_wf {#i#} j'" using takeSlot_total [of j] assms by (auto simp: jb_inv_def)
  moreover have "j' = j\<lparr>freeSlots := butlast (freeSlots j)\<rparr>"
    using assms(2) by (auto simp: takeSlot_def split: if_splits)
  moreover have "jb_window (j\<lparr>freeSlots := butlast (freeSlots j)\<rparr>) \<longleftrightarrow> jb_window j"
    by (rule jb_window_cong) simp_all
  ultimately show ?thesis using assms(1) by (simp add: jb_inv_def jb_phase_def)
qed

lemma takeSlot_never_panics: "jb_inv {#} j \<Longrightarrow> takeSlot j \<noteq> None"
  using takeSlot_total [of j] by (auto simp: jb_inv_def)

lemma held_slot: "jb_inv {#i#} j \<Longrightarrow> i < length (slots j)"
proof -
  assume "jb_inv {#i#} j"
  then have "i \<in># mset_set {..<Suc (maxPackets j)}" "length (slots j) = Suc (maxPackets j)"
    unfolding jb_inv_def jb_wf_def by (metis union_iff multi_member_last, metis)
  then show ?thesis by simp
qed

text \<open>Writing to the slot held by the read loop changes nothing that is queued.\<close>

lemma jb_inv_write:
  assumes "jb_inv {#i#} j"
  shows "jb_inv {#i#} (j\<lparr>slots := (slots j)[i := sl]\<rparr>)"
proof -
  have wf: "jb_wf ({#} + {#i#}) j" using assms by (simp add: jb_inv_def)
  have nth: "(slots j)[i := sl] ! k = slots j ! k" if "p < maxPackets j" "sequence j ! p = Some k" for p k
    using jb_wf_held [OF wf that] by simp
  have "jb_window (j\<lparr>slots := (slots j)[i := sl]\<rparr>)"
    using assms nth by (simp add: jb_inv_def jb_window_def in_window_def)
  moreover have "jb_wf {#i#} (j\<lparr>slots := (slots j)[i := sl]\<rparr>) \<longleftrightarrow> jb_wf {#i#} j"
    by (rule jb_wf_cong) simp_all
  ultimately show ?thesis using assms by (simp add: jb_inv_def jb_phase_def)
qed

lemma fileRead_inv:
  assumes "jb_inv {#i#} j"
  shows "jb_inv {#} (fileRead now i raw pkt n j)"
  unfolding fileRead_def Let_def
  using jb_inv_write [OF assms] held_slot [OF assms] by (intro handleSlot_inv) simp_all

lemma freeSlot_inv:
  assumes "jb_inv {#i#} j"
  shows "jb_inv {#} (freeSlot i j)"
  using jb_inv_freed [OF assms, of "stats j"] by simp

lemma failRead_inv:
  assumes "jb_inv {#i#} j"
  shows "jb_inv {#} (failRead i e j)"
proof -
  have "jb_inv {#} (freeSlot i j)" by (rule freeSlot_inv [OF assms])
  moreover have "jb_wf {#} (failRead i e j) \<longleftrightarrow> jb_wf {#} (freeSlot i j)"
    "jb_window (failRead i e j) \<longleftrightarrow> jb_window (freeSlot i j)"
    by (rule jb_wf_cong jb_window_cong; simp add: failRead_def)+
  ultimately show ?thesis by (simp add: jb_inv_def jb_phase_def failRead_def)
qed

lemma UpdateRTPSession_frame [simp]:
  "delayPackets (UpdateRTPSession_jb rd d r j) = delayPackets j"
  "maxPackets (UpdateRTPSession_jb rd d r j) = maxPackets j"
  "slots (UpdateRTPSession_jb rd d r j) = slots j"
  "freeSlots (UpdateRTPSession_jb rd d r j) = freeSlots j"
  "sequence (UpdateRTPSession_jb rd d r j) = sequence j"
  "queued (UpdateRTPSession_jb rd d r j) = queued j"
  "jssrc (UpdateRTPSession_jb rd d r j) = jssrc j"
  "ssrcSet (UpdateRTPSession_jb rd d r j) = ssrcSet j"
  "expectedSeq (UpdateRTPSession_jb rd d r j) = expectedSeq j"
  "startAt (UpdateRTPSession_jb rd d r j) = startAt j"
  "releaseAt (UpdateRTPSession_jb rd d r j) = releaseAt j"
  "playout (UpdateRTPSession_jb rd d r j) = playout j"
  "resync (UpdateRTPSession_jb rd d r j) = resync j"
  "stats (UpdateRTPSession_jb rd d r j) = stats j"
  "upstreamEnded (UpdateRTPSession_jb rd d r j) = upstreamEnded j"
  "readErr (UpdateRTPSession_jb rd d r j) = readErr j"
  by (simp_all add: UpdateRTPSession_jb_def Let_def)

lemma UpdateRTPSession_inv:
  assumes "jb_inv held j"
  shows "jb_inv held (UpdateRTPSession_jb rd d r j)"
proof -
  have "jb_wf held (UpdateRTPSession_jb rd d r j) \<longleftrightarrow> jb_wf held j"
    "jb_window (UpdateRTPSession_jb rd d r j) \<longleftrightarrow> jb_window j"
    by (rule jb_wf_cong jb_window_cong; simp)+
  moreover have "packetDuration j \<ge> 0 \<Longrightarrow> packetDuration (UpdateRTPSession_jb rd d r j) \<ge> 0"
    by (simp add: UpdateRTPSession_jb_def Let_def)
  ultimately show ?thesis using assms by (simp add: jb_inv_def jb_phase_def)
qed

lemma NewRTPJitterBuffer_inv:
  assumes "NewRTPJitterBuffer rd dur opts = Some j"
  shows "jb_inv {#} j"
proof -
  obtain d m where o: "jitterOptions opts = (d, m)" by (meson surj_pair)
  then have dm: "0 < d" "d \<le> m" by (auto simp: jitterOptions_def Let_def split: if_splits)
  have j: "0 < dur" "delayPackets j = d" "maxPackets j = m" "length (slots j) = Suc m"
      "freeSlots j = [0..<Suc m]" "sequence j = replicate m None" "queued j = 0" "packetDuration j = dur"
      "\<not> playout j" "\<not> resync j" "\<not> ssrcSet j"
    using assms o by (auto simp: NewRTPJitterBuffer_def simp del: upt_Suc replicate_Suc split: if_splits)
  have "mset (freeSlots j) = mset_set {..<Suc m}"
    unfolding j(5) by (simp add: lessThan_atLeast0 del: upt_Suc)
  then have "jb_wf {#} j" using dm j(2-4,6,7) by (simp add: jb_wf_def)
  moreover have "jb_window j" by (rule jb_window_empty) (simp add: j)
  ultimately show ?thesis using j by (simp add: jb_inv_def jb_phase_def)
qed

section \<open>The goroutines\<close>

text \<open>
  Where the read loop is: at the check of \<open>done\<close>, with a slot taken, inside the reader's
  \<open>ReadRTP\<close>, between a failed read and the check of \<open>done\<close> in \<open>readUpstream\<close>, on its way to
  record the error, on its way to \<open>notify\<close> (the flag says that it returns afterwards), or gone,
  which is when \<open>Done\<close> is closed. \<open>LoopPanicked\<close> is the index out of range on an empty free list.
\<close>

datatype loop_state =
    NotStarted
  | LoopTop
  | Taken nat
  | Reading nat nat
  | Recheck nat nat go_error
  | FailedRead nat go_error
  | Notifying bool
  | LoopDone
  | LoopPanicked

text \<open>Where the caller of \<open>ReadRTP\<close> is; the length is that of its buffer.\<close>

datatype caller_state =
    CallerIdle
  | AtTop nat
  | Deciding nat
  | Waiting nat duration

record jb_sys =
  buf :: RTPJitterBuffer
  loop :: loop_state
  caller :: caller_state
  isClosed :: bool
  arrived :: bool

datatype jb_label =
    Call nat
  | CheckDone
  | ReturnClosed
  | Pass instant read_outcome
  | Woken
  | TimerFired
  | LoopCheck
  | Upstream
  | File instant bytes rtp_packet nat
  | ReadZero bytes rtp_packet
  | ReadFailed bytes rtp_packet go_error
  | RecheckDone
  | RecordError
  | Notified
  | Update nat duration u32
  | CloseBuffer

text \<open>What a read leaves in the slot's buffer and packet.\<close>

definition writeSlot :: "nat \<Rightarrow> bytes \<Rightarrow> rtp_packet \<Rightarrow> RTPJitterBuffer \<Rightarrow> RTPJitterBuffer" where
  "writeSlot i raw pkt j =
    j\<lparr>slots := (slots j)[i := (slots j ! i)\<lparr>slotRaw := raw, slotPacket := pkt\<rparr>]\<rparr>"

definition startLoop :: "jb_sys \<Rightarrow> jb_sys" where
  "startLoop s = (if loop s = NotStarted then s\<lparr>loop := LoopTop\<rparr> else s)"

definition closeBuffer :: "jb_sys \<Rightarrow> jb_sys" where
  "closeBuffer s = (if isClosed s then s
     else s\<lparr>isClosed := True, loop := (if loop s = NotStarted then LoopDone else loop s)\<rparr>)"

definition afterPass :: "nat \<Rightarrow> read_outcome \<Rightarrow> caller_state" where
  "afterPass buflen out = (case out of
     Released data p \<Rightarrow> CallerIdle | Failed e \<Rightarrow> CallerIdle | Again \<Rightarrow> AtTop buflen
   | Wait d \<Rightarrow> Waiting buflen d)"

inductive jb_step ::
  "(bytes \<Rightarrow> go_error + rtp_packet) \<Rightarrow> jb_sys \<Rightarrow> jb_label \<Rightarrow> jb_sys \<Rightarrow> bool"
  for unmarshal where
  st_call: "caller s = CallerIdle \<Longrightarrow>
    jb_step unmarshal s (Call b) ((startLoop s)\<lparr>caller := AtTop b\<rparr>)"
| st_check: "caller s = AtTop b \<Longrightarrow> \<not> isClosed s \<Longrightarrow>
    jb_step unmarshal s CheckDone (s\<lparr>caller := Deciding b\<rparr>)"
| st_check_closed: "caller s = AtTop b \<Longrightarrow> isClosed s \<Longrightarrow>
    jb_step unmarshal s ReturnClosed (s\<lparr>caller := CallerIdle\<rparr>)"
| st_pass: "caller s = Deciding b \<Longrightarrow> ReadRTP_pass unmarshal b now (buf s) = Some (j, out) \<Longrightarrow>
    jb_step unmarshal s (Pass now out) (s\<lparr>buf := j, caller := afterPass b out\<rparr>)"
| st_wait_closed: "caller s = Waiting b d \<Longrightarrow> isClosed s \<Longrightarrow>
    jb_step unmarshal s ReturnClosed (s\<lparr>caller := CallerIdle\<rparr>)"
| st_woken: "caller s = Waiting b d \<Longrightarrow> arrived s \<Longrightarrow>
    jb_step unmarshal s Woken (s\<lparr>caller := AtTop b, arrived := False\<rparr>)"
| st_timer: "caller s = Waiting b d \<Longrightarrow> 0 < d \<Longrightarrow>
    jb_step unmarshal s TimerFired (s\<lparr>caller := AtTop b\<rparr>)"
| st_loop_closed: "loop s = LoopTop \<Longrightarrow> isClosed s \<Longrightarrow>
    jb_step unmarshal s LoopCheck (s\<lparr>loop := LoopDone\<rparr>)"
| st_take: "loop s = LoopTop \<Longrightarrow> \<not> isClosed s \<Longrightarrow> takeSlot (buf s) = Some (i, j) \<Longrightarrow>
    jb_step unmarshal s LoopCheck (s\<lparr>buf := j, loop := Taken i\<rparr>)"
| st_panic: "loop s = LoopTop \<Longrightarrow> \<not> isClosed s \<Longrightarrow> takeSlot (buf s) = None \<Longrightarrow>
    jb_step unmarshal s LoopCheck (s\<lparr>loop := LoopPanicked\<rparr>)"
| st_upstream: "loop s = Taken i \<Longrightarrow>
    jb_step unmarshal s Upstream (s\<lparr>loop := Reading i (reader (buf s))\<rparr>)"
| st_file: "loop s = Reading i r \<Longrightarrow> 0 < n \<Longrightarrow>
    jb_step unmarshal s (File now raw pkt n)
      (s\<lparr>buf := fileRead now i raw pkt n (buf s), loop := Notifying False\<rparr>)"
| st_zero: "loop s = Reading i r \<Longrightarrow>
    jb_step unmarshal s (ReadZero raw pkt)
      (s\<lparr>buf := freeSlot i (writeSlot i raw pkt (buf s)), loop := LoopTop\<rparr>)"
| st_failed: "loop s = Reading i r \<Longrightarrow> reader (buf s) = r \<Longrightarrow>
    jb_step unmarshal s (ReadFailed raw pkt e)
      (s\<lparr>buf := writeSlot i raw pkt (buf s), loop := FailedRead i e\<rparr>)"
| st_replaced: "loop s = Reading i r \<Longrightarrow> reader (buf s) \<noteq> r \<Longrightarrow>
    jb_step unmarshal s (ReadFailed raw pkt e)
      (s\<lparr>buf := writeSlot i raw pkt (buf s), loop := Recheck i (reader (buf s)) e\<rparr>)"
| st_recheck: "loop s = Recheck i r e \<Longrightarrow>
    jb_step unmarshal s RecheckDone
      (s\<lparr>loop := (if isClosed s then FailedRead i e else Reading i r)\<rparr>)"
| st_record: "loop s = FailedRead i e \<Longrightarrow>
    jb_step unmarshal s RecordError
      (s\<lparr>buf := failRead i e (buf s), loop := Notifying True\<rparr>)"
| st_notified: "loop s = Notifying ends \<Longrightarrow>
    jb_step unmarshal s Notified
      (s\<lparr>arrived := True, loop := (if ends then LoopDone else LoopTop)\<rparr>)"
| st_update:
    "jb_step unmarshal s (Update rd d r) (s\<lparr>buf := UpdateRTPSession_jb rd d r (buf s)\<rparr>)"
| st_close: "jb_step unmarshal s CloseBuffer (closeBuffer s)"

definition jb_init :: "jb_sys \<Rightarrow> bool" where
  "jb_init s \<longleftrightarrow> (\<exists>rd dur opts. NewRTPJitterBuffer rd dur opts = Some (buf s))
     \<and> loop s = NotStarted \<and> caller s = CallerIdle \<and> \<not> isClosed s \<and> \<not> arrived s"

section \<open>The invariant of the system\<close>

definition held_of :: "loop_state \<Rightarrow> nat multiset" where
  "held_of l = (case l of Taken i \<Rightarrow> {#i#} | Reading i r \<Rightarrow> {#i#} | Recheck i r e \<Rightarrow> {#i#}
     | FailedRead i e \<Rightarrow> {#i#} | _ \<Rightarrow> {#})"

text \<open>
  A caller that waits without a timer has nothing to wait for but a wake-up: nothing is queued
  and the upstream has not ended, or a wake-up is pending or about to be sent.
\<close>

definition wake_ok :: "jb_sys \<Rightarrow> bool" where
  "wake_ok s \<longleftrightarrow> (case caller s of
     Waiting b d \<Rightarrow> 0 < d \<or> queued (buf s) = 0 \<and> \<not> upstreamEnded (buf s) \<or> arrived s
       \<or> loop s = Notifying True \<or> loop s = Notifying False
   | _ \<Rightarrow> True)"

definition ended_ok :: "jb_sys \<Rightarrow> bool" where
  "ended_ok s \<longleftrightarrow> (upstreamEnded (buf s) \<longrightarrow>
     readErr (buf s) \<noteq> None \<and> (loop s = Notifying True \<or> loop s = LoopDone))"

definition sys_inv :: "jb_sys \<Rightarrow> bool" where
  "sys_inv s \<longleftrightarrow> jb_inv (held_of (loop s)) (buf s) \<and> loop s \<noteq> LoopPanicked \<and> wake_ok s \<and> ended_ok s"

lemma playoutDecision_wait:
  assumes "jb_inv held j" "playoutDecision unmarshal buflen now j = (j', Wait d)"
    "\<not> playoutStartDue now j" "d \<le> 0"
  shows "queued j' = 0 \<and> \<not> upstreamEnded j'"
proof (cases "playout j \<and> releaseAt j \<le> now")
  case True
  have "releaseNext unmarshal buflen i j \<noteq> (j', Wait d)" for i
    by (simp add: releaseNext_eq Let_def split: sum.split)
  then have "j' = stopPlayout j" "queued j = 0" "waitOutcome now (stopPlayout j) = Wait d"
    using assms(2) True by (auto simp: playoutDecision_due split: option.splits if_splits)
  then show ?thesis by (auto simp: waitOutcome_def stopPlayout_def split: if_splits)
next
  case False
  then have j': "j' = j" "waitOutcome now j = Wait d"
    using assms(2) by (auto simp: playoutDecision_def)
  have ph: "jb_phase j" "0 \<le> queued j" using assms(1) by (auto simp: jb_inv_def jb_wf_def)
  from j'(2) assms(3,4) False show ?thesis
    using ph by (auto simp: j'(1) waitOutcome_def playoutStartDue_def jb_phase_def
        split: if_splits option.splits)
qed

lemma startPlayout_not_due:
  "startPlayout now j = Some j1 \<Longrightarrow> \<not> playoutStartDue now j1"
  by (auto simp: startPlayout_def playoutStartDue_def)

lemma ReadRTP_pass_wait:
  assumes "jb_inv held j" "ReadRTP_pass unmarshal buflen now j = Some (j', Wait d)" "d \<le> 0"
  shows "queued j' = 0 \<and> \<not> upstreamEnded j'"
proof (cases "playoutStartDue now j")
  case True
  then obtain j1 where "startPlayout now j = Some j1" "playoutDecision unmarshal buflen now j1 = (j', Wait d)"
    using assms(2) by (auto simp: ReadRTP_pass_def)
  moreover from this have "jb_inv held j1" using startPlayout_total [OF assms(1)] by (metis option.inject)
  ultimately show ?thesis using playoutDecision_wait startPlayout_not_due assms(3) by blast
next
  case False
  then show ?thesis using playoutDecision_wait [OF assms(1)] assms(2,3) by (auto simp: ReadRTP_pass_def)
qed

lemma ReadRTP_pass_inv:
  assumes "jb_inv held j" "ReadRTP_pass unmarshal buflen now j = Some (j', out)"
  shows "jb_inv held j'"
  using ReadRTP_pass_spec [OF assms(1), of unmarshal buflen now] assms(2) by (auto simp: pass_ok_def)

lemma ReadRTP_pass_upstream:
  assumes "jb_inv held j" "ReadRTP_pass unmarshal buflen now j = Some (j', out)"
  shows "upstreamEnded j' = upstreamEnded j" "readErr j' = readErr j"
proof -
  have r: "upstreamEnded (fst (releaseNext unmarshal buflen i k)) = upstreamEnded k"
     "readErr (fst (releaseNext unmarshal buflen i k)) = readErr k" for i k
    by (simp_all add: releaseNext_def Let_def freeSlot_def split: sum.split)
  have d: "upstreamEnded (fst (playoutDecision unmarshal buflen now k)) = upstreamEnded k"
     "readErr (fst (playoutDecision unmarshal buflen now k)) = readErr k" for k
    by (simp_all add: playoutDecision_def Let_def r stopPlayout_def split: option.split)
  have s: "upstreamEnded k = upstreamEnded j \<and> readErr k = readErr j" if "startPlayout now j = Some k" for k
  proof -
    obtain m j1 where "startPlayout now j = Some j1"
        "j1 = (countLost m j)\<lparr>startAt := None, resync := False, playout := True, releaseAt := now\<rparr>"
      by (rule startPlayout_total [OF assms(1)])
    then show ?thesis using that by simp
  qed
  obtain k where "j' = fst (playoutDecision unmarshal buflen now k)" "k = j \<or> startPlayout now j = Some k"
    using assms(2) by (auto simp: ReadRTP_pass_def split: if_splits) (metis fst_conv)+
  then show "upstreamEnded j' = upstreamEnded j" "readErr j' = readErr j"
    using d s by auto
qed

text \<open>Filing touches neither the upstream's state nor the sizes and the packet storage.\<close>

definition upstreamOf :: "RTPJitterBuffer \<Rightarrow> bool \<times> go_error option \<times> nat \<times> nat \<times> nat \<times> rtpJitterSlot list" where
  "upstreamOf j = (upstreamEnded j, readErr j, reader j, delayPackets j, maxPackets j, slots j)"

lemma upstreamOf_frame [simp]:
  "upstreamOf (j\<lparr>stats := a\<rparr>) = upstreamOf j" "upstreamOf (j\<lparr>queued := b\<rparr>) = upstreamOf j"
  "upstreamOf (j\<lparr>freeSlots := c\<rparr>) = upstreamOf j" "upstreamOf (j\<lparr>sequence := d\<rparr>) = upstreamOf j"
  "upstreamOf (j\<lparr>expectedSeq := e\<rparr>) = upstreamOf j" "upstreamOf (j\<lparr>startAt := f\<rparr>) = upstreamOf j"
  by (simp_all add: upstreamOf_def)

lemma upstreamOf_parts [simp]:
  "upstreamOf (freeSlot i j) = upstreamOf j"
  "upstreamOf (clearEntry p j) = upstreamOf j"
  "upstreamOf (dropStale k j) = upstreamOf j"
  "upstreamOf (learnPacketDuration sl j) = upstreamOf j"
  by (simp_all add: freeSlot_def clearEntry_def dropStale_def learnPacketDuration_def Let_def
      split: option.split) (simp_all add: upstreamOf_def)

lemma upstreamOf_loops [simp]:
  "upstreamOf (clearSequence j) = upstreamOf j"
  "upstreamOf (dropBefore s j) = upstreamOf j"
  using fold_keeps [of upstreamOf clearEntry] fold_keeps [of upstreamOf dropStale]
  by (simp_all add: clearSequence_def dropBefore_def Let_def)

lemma upstreamOf_resetStream [simp]: "upstreamOf (resetStream now src s j) = upstreamOf j"
proof -
  have "upstreamOf (resetStream now src s j) = upstreamOf (clearSequence j)"
    by (simp add: resetStream_def Let_def upstreamOf_def)
  then show ?thesis by simp
qed

lemma upstreamOf_handleSlotStream: "upstreamOf (snd (handleSlotStream now sl j)) = upstreamOf j"
  by (simp add: handleSlotStream_def Let_def)

lemma upstreamOf_handleSlot [simp]: "upstreamOf (handleSlot now i j) = upstreamOf j"
proof -
  note upstreamOf_handleSlotStream [of now _ j]
  moreover have "upstreamOf (case_sum id id (handleSlotWindow i d k)) = upstreamOf k" for d k
    by (simp add: handleSlotWindow_def Let_def)
  moreover have "upstreamOf (handleSlotFile now i k) = upstreamOf k" for k
    by (simp add: handleSlotFile_def Let_def split: option.split)
  ultimately show ?thesis
    unfolding handleSlot_def by (simp split: prod.split sum.split) (metis snd_conv sum.case id_apply)
qed

lemma fileRead_upstream:
  "upstreamEnded (fileRead now i raw pkt n j) = upstreamEnded j"
  "readErr (fileRead now i raw pkt n j) = readErr j"
  "maxPackets (fileRead now i raw pkt n j) = maxPackets j"
proof -
  let ?sl = "\<lparr>slotRaw = raw, slotPacket = pkt, slotN = n,
    slotSSRC = SSRC (Header pkt), slotSeq = SequenceNumber (Header pkt)\<rparr>"
  have "upstreamOf (fileRead now i raw pkt n j) = upstreamOf (j\<lparr>slots := (slots j)[i := ?sl]\<rparr>)"
    by (simp add: fileRead_def Let_def)
  then show "upstreamEnded (fileRead now i raw pkt n j) = upstreamEnded j"
    "readErr (fileRead now i raw pkt n j) = readErr j"
    "maxPackets (fileRead now i raw pkt n j) = maxPackets j"
    by (simp_all add: upstreamOf_def)
qed

lemma writeSlot_inv: "jb_inv {#i#} j \<Longrightarrow> jb_inv {#i#} (writeSlot i raw pkt j)"
  unfolding writeSlot_def by (rule jb_inv_write)

lemma writeSlot_frame [simp]:
  "upstreamEnded (writeSlot i raw pkt j) = upstreamEnded j" "readErr (writeSlot i raw pkt j) = readErr j"
  "queued (writeSlot i raw pkt j) = queued j" "reader (writeSlot i raw pkt j) = reader j"
  "expectedSeq (writeSlot i raw pkt j) = expectedSeq j" "maxPackets (writeSlot i raw pkt j) = maxPackets j"
  "sequence (writeSlot i raw pkt j) = sequence j" "playout (writeSlot i raw pkt j) = playout j"
  "resync (writeSlot i raw pkt j) = resync j"
  by (simp_all add: writeSlot_def)

lemma freeSlot_upstream [simp]:
  "upstreamEnded (freeSlot i j) = upstreamEnded j" "readErr (freeSlot i j) = readErr j"
  by (simp_all add: freeSlot_def)

lemma takeSlot_fields:
  "takeSlot j = Some (i, j') \<Longrightarrow> j' = j\<lparr>freeSlots := butlast (freeSlots j)\<rparr>"
  by (auto simp: takeSlot_def split: if_splits)

lemma sys_inv_step:
  assumes "sys_inv s" "jb_step unmarshal s l t"
  shows "sys_inv t"
  using assms(2)
proof cases
  case (st_pass b now j out)
  then have i: "jb_inv (held_of (loop s)) (buf s)" and e: "ended_ok s"
    using assms(1) by (simp_all add: sys_inv_def)
  have "wake_ok t"
    using ReadRTP_pass_wait [OF i, of unmarshal b now j] st_pass
    by (cases out) (force simp: wake_ok_def afterPass_def)+
  then show ?thesis
    using st_pass ReadRTP_pass_inv [OF i st_pass(4)] ReadRTP_pass_upstream [OF i st_pass(4)] e assms(1)
    by (simp add: sys_inv_def ended_ok_def)
next
  case (st_take i j)
  then show ?thesis
    using assms(1) takeSlot_inv [of "buf s" i j] takeSlot_fields [of "buf s" i j]
    by (auto simp: sys_inv_def held_of_def wake_ok_def ended_ok_def split: caller_state.split)
next
  case st_panic
  then show ?thesis using assms(1) takeSlot_never_panics [of "buf s"] by (simp add: sys_inv_def held_of_def)
qed (use assms(1) in \<open>auto simp: sys_inv_def held_of_def wake_ok_def ended_ok_def startLoop_def closeBuffer_def
      fileRead_upstream failRead_def
      intro: fileRead_inv failRead_inv [unfolded failRead_def] freeSlot_inv writeSlot_inv UpdateRTPSession_inv
      split: caller_state.split loop_state.splits\<close>)

lemma NewRTPJitterBuffer_not_ended: "NewRTPJitterBuffer rd dur opts = Some j \<Longrightarrow> \<not> upstreamEnded j"
  by (auto simp: NewRTPJitterBuffer_def split: if_splits prod.splits)

interpretation jbs: transition_system jb_init "jb_step unmarshal" sys_inv
proof unfold_locales
  show "sys_inv s" if "jb_init s" for s
    using that NewRTPJitterBuffer_inv [of _ _ _ "buf s"] NewRTPJitterBuffer_not_ended [of _ _ _ "buf s"]
    by (auto simp: jb_init_def sys_inv_def held_of_def wake_ok_def ended_ok_def)
  show "sys_inv t" if "sys_inv s" "jb_step unmarshal s l t" for s l t
    using sys_inv_step that .
qed

end
