(* ===== verification/Jitter_Order.thy ===== *)
theory Jitter_Order
  imports Jitter_System
begin

text \<open>
  What a run of the jitter buffer delivers: as long as the stream is not reset, the packets come
  out in the order of their extended sequence numbers, each at most once, and each is the packet
  that was filed under that number.
\<close>

section \<open>Filing within a stream\<close>

definition playing :: "RTPJitterBuffer \<Rightarrow> bool" where
  "playing j \<longleftrightarrow> playout j \<or> resync j"

text \<open>The packet belongs to the current source and does not restart the window.\<close>

definition streamKept :: "RTPJitterBuffer \<Rightarrow> u32 \<Rightarrow> u16 \<Rightarrow> bool" where
  "streamKept j src s \<longleftrightarrow> ssrcSet j \<and> jssrc j = src \<and>
     \<not> (resync j \<and> queued j = 0 \<and> int (maxPackets j) \<le> \<bar>sint (s - expectedSeq j)\<bar>)"

lemma handleSlotStream_kept:
  assumes "streamKept j (slotSSRC sl) (slotSeq sl)"
  shows "handleSlotStream now sl j = (sint (slotSeq sl - expectedSeq j),
    learnPacketDuration sl (j\<lparr>stats := (stats j)\<lparr>packetsRead := packetsRead (stats j) + 1\<rparr>\<rparr>))"
  using assms by (auto simp: handleSlotStream_def streamKept_def Let_def abs_le_iff not_le)

lemma handleSlotFile_frame [simp]:
  "expectedSeq (handleSlotFile now i j) = expectedSeq j" "playout (handleSlotFile now i j) = playout j"
  "resync (handleSlotFile now i j) = resync j"
  by (simp_all add: handleSlotFile_def Let_def split: option.split)

lemma handleSlotWindow_kept:
  assumes "jb_admit i j" "distance = sint (slotSeq (slots j ! i) - expectedSeq j)" "playing j"
  shows "0 \<le> sint (expectedSeq (case_sum id id (handleSlotWindow i distance j)) - expectedSeq j)"
    and "playing (case_sum id id (handleSlotWindow i distance j))"
proof -
  have d: "0 < delayPackets j" "delayPackets j \<le> maxPackets j"
    using jb_admitD(1) [OF assms(1)] by (auto simp: jb_wf_def)
  have "0 \<le> sint (slotSeq (slots j ! i) - of_nat (delayPackets j - 1) - expectedSeq j)"
    if "int (maxPackets j) \<le> distance"
    using window_end_origin(1) [OF d, of "slotSeq (slots j ! i)" "expectedSeq j"] that assms(2) d by simp
  then show "0 \<le> sint (expectedSeq (case_sum id id (handleSlotWindow i distance j)) - expectedSeq j)"
    and "playing (case_sum id id (handleSlotWindow i distance j))"
    using assms(3) by (auto simp: handleSlotWindow_def Let_def playing_def)
qed

lemma handleSlot_kept:
  assumes "jb_inv {#i#} j" "i < length (slots j)" "playing j"
    "streamKept j (slotSSRC (slots j ! i)) (slotSeq (slots j ! i))"
  shows "0 \<le> sint (expectedSeq (handleSlot now i j) - expectedSeq j)" "playing (handleSlot now i j)"
proof -
  obtain distance j1 where s: "handleSlotStream now (slots j ! i) j = (distance, j1)"
    by (meson surj_pair)
  note j1 = handleSlotStream_inv [OF assms(1,2) s]
  have e: "expectedSeq j1 = expectedSeq j" "playing j1"
    using handleSlotStream_kept [OF assms(4), of now] s assms(3) by (auto simp: playing_def)
  have d: "distance = sint (slotSeq (slots j1 ! i) - expectedSeq j1)" using j1(2,3) by simp
  note w = handleSlotWindow_kept [OF j1(1) d e(2)]
  show "0 \<le> sint (expectedSeq (handleSlot now i j) - expectedSeq j)" "playing (handleSlot now i j)"
    using w e(1) by (cases "handleSlotWindow i distance j1"; simp add: handleSlot_def s playing_def)+
qed

text \<open>Filing adds at most the packet itself to the window.\<close>

lemma handleSlotFile_nth:
  "p < length (sequence j) \<Longrightarrow> sequence (handleSlotFile now i j) ! p = Some k \<Longrightarrow> k = i \<or> sequence j ! p = Some k"
  by (cases "p = position (slotSeq (slots j ! i)) j")
    (auto simp: handleSlotFile_def Let_def split: option.splits if_splits)

lemma handleSlotWindow_nth:
  assumes "p < length (sequence j)" "sequence (case_sum id id (handleSlotWindow i d j)) ! p = Some k"
  shows "sequence j ! p = Some k"
  using assms dropFold_nth [of _ j p k]
  by (auto simp: handleSlotWindow_def Let_def dropBefore_def split: if_splits)

lemma handleSlotStream_nth:
  assumes "p < length (sequence j)" "sequence (snd (handleSlotStream now sl j)) ! p = Some k"
  shows "sequence j ! p = Some k"
  using assms by (auto simp: handleSlotStream_def Let_def split: if_splits)

lemma handleSlot_nth:
  assumes "jb_inv {#i#} j" "i < length (slots j)" "p < maxPackets j"
    "sequence (handleSlot now i j) ! p = Some k"
  shows "k = i \<or> sequence j ! p = Some k"
proof -
  obtain distance j1 where s: "handleSlotStream now (slots j ! i) j = (distance, j1)"
    by (meson surj_pair)
  note j1 = handleSlotStream_inv [OF assms(1,2) s]
  have l: "length (sequence j) = maxPackets j" using assms(1) by (simp add: jb_inv_def jb_wf_def)
  have "upstreamOf j1 = upstreamOf j" using upstreamOf_handleSlotStream [of now "slots j ! i" j] s by simp
  then have m: "maxPackets j1 = maxPackets j" by (simp add: upstreamOf_def)
  have l1: "length (sequence j1) = maxPackets j"
    using jb_admitD(1) [OF j1(1)] m by (simp add: jb_wf_def)
  have d: "distance = sint (slotSeq (slots j1 ! i) - expectedSeq j1)" using j1(2,3) by simp
  let ?w = "case_sum id id (handleSlotWindow i distance j1)"
  have "length (sequence ?w) = maxPackets j"
    using l1 by (simp add: handleSlotWindow_def Let_def dropBefore_def)
  then have "k = i \<or> sequence ?w ! p = Some k"
    using assms(3,4) handleSlotFile_nth [of p ?w now i k]
    by (cases "handleSlotWindow i distance j1") (simp_all add: handleSlot_def s)
  then show ?thesis
    using handleSlotWindow_nth [of p j1 i distance k] handleSlotStream_nth [of p j now "slots j ! i" k]
      l l1 assms(3) s by auto
qed

section \<open>Queued packets are what the reader returned\<close>

text \<open>
  The contract of an \<open>RTPReader\<close>: the packet it fills in is what \<open>RTPUnmarshal\<close> reads from the
  bytes it returns. \<open>slotFaithful\<close> is what this makes of a slot.
\<close>

definition slotFaithful :: "(bytes \<Rightarrow> go_error + rtp_packet) \<Rightarrow> rtpJitterSlot \<Rightarrow> bool" where
  "slotFaithful unmarshal sl \<longleftrightarrow> unmarshal (slotData sl) = Inr (slotPacket sl)
     \<and> slotSeq sl = SequenceNumber (Header (slotPacket sl))"

definition queueFaithful :: "(bytes \<Rightarrow> go_error + rtp_packet) \<Rightarrow> RTPJitterBuffer \<Rightarrow> bool" where
  "queueFaithful unmarshal j \<longleftrightarrow> (\<forall>s sl. queueOf j s = Some sl \<longrightarrow> slotFaithful unmarshal sl)"

lemma queueFaithful_cong: "queueOf j' = queueOf j \<Longrightarrow> queueFaithful u j' = queueFaithful u j"
  by (simp add: queueFaithful_def)

lemma queueOf_write:
  assumes "jb_inv {#i#} j"
  shows "queueOf (j\<lparr>slots := (slots j)[i := sl]\<rparr>) = queueOf j"
proof
  fix s
  have wf: "jb_wf ({#} + {#i#}) j" using assms by (simp add: jb_inv_def)
  have "k \<noteq> i" if "sequence j ! position s j = Some k" for k
    using jb_wf_held [OF wf position_less [OF wf] that] .
  then show "queueOf (j\<lparr>slots := (slots j)[i := sl]\<rparr>) s = queueOf j s"
    by (cases "sequence j ! position s j") (simp_all add: queueOf_def)
qed

lemma queueOf_writeSlot: "jb_inv {#i#} j \<Longrightarrow> queueOf (writeSlot i raw pkt j) = queueOf j"
  unfolding writeSlot_def by (rule queueOf_write)

lemma queueFaithful_fileRead:
  assumes "jb_inv {#i#} j" "queueFaithful unmarshal j" "unmarshal (take n raw) = Inr pkt"
  shows "queueFaithful unmarshal (fileRead now i raw pkt n j)"
  unfolding queueFaithful_def
proof (intro allI impI)
  fix s sl
  let ?sl = "\<lparr>slotRaw = raw, slotPacket = pkt, slotN = n,
    slotSSRC = SSRC (Header pkt), slotSeq = SequenceNumber (Header pkt)\<rparr>"
  let ?w = "j\<lparr>slots := (slots j)[i := ?sl]\<rparr>"
  let ?h = "handleSlot now i ?w"
  assume "queueOf (fileRead now i raw pkt n j) s = Some sl"
  then have q: "queueOf ?h s = Some sl" by (simp add: fileRead_def Let_def)
  have w: "jb_inv {#i#} ?w" "i < length (slots ?w)"
    using jb_inv_write [OF assms(1)] held_slot [OF assms(1)] by simp_all
  have h: "jb_wf {#} ?h" "jb_window ?h" using handleSlot_inv [OF w] by (simp_all add: jb_inv_def)
  have "upstreamOf ?h = upstreamOf ?w" by simp
  then have f: "slots ?h = slots ?w" "maxPackets ?h = maxPackets ?w" by (simp_all only: upstreamOf_def prod.inject)
  obtain p k where k: "p < maxPackets ?w" "sequence ?h ! p = Some k" "slots ?w ! k = sl" "slotSeq sl = s"
    using q unfolding queueOf_iff [OF h] f by auto
  show "slotFaithful unmarshal sl"
  proof (cases "k = i")
    case True
    then show ?thesis using k(3) w(2) assms(3) by (auto simp: slotFaithful_def slotData_def)
  next
    case False
    then have "sequence ?w ! p = Some k" using handleSlot_nth [OF w k(1,2)] by simp
    then have "queueOf ?w s = Some sl"
      using queueOf_iff [of "{#i#}" ?w s sl] w(1) k(1,3,4) by (auto simp: jb_inv_def)
    then show ?thesis using queueOf_write [OF assms(1)] assms(2) by (simp add: queueFaithful_def)
  qed
qed

section \<open>Passes within a stream\<close>

lemma playoutDecision_playing:
  "playing j \<Longrightarrow> playing (fst (playoutDecision unmarshal buflen now j))"
  by (auto simp: playing_def playoutDecision_def releaseNext_eq stopPlayout_def Let_def
      split: option.split sum.split)

lemma ReadRTP_pass_playing:
  assumes "playing j" "ReadRTP_pass unmarshal buflen now j = Some (j', out)"
  shows "playing j'"
proof -
  obtain k where k: "playoutDecision unmarshal buflen now k = (j', out)" "k = j \<or> startPlayout now j = Some k"
    using assms(2) by (auto simp: ReadRTP_pass_def split: if_splits)
  have "playing k" if "startPlayout now j = Some k"
    using that by (auto simp: startPlayout_def playing_def)
  then have "playing k" using k(2) assms(1) by auto
  then show ?thesis using playoutDecision_playing [of k unmarshal buflen now] k(1) by simp
qed

lemma ReadRTP_pass_sizes:
  assumes "jb_inv held j" "ReadRTP_pass unmarshal buflen now j = Some (j', out)"
  shows "maxPackets j' = maxPackets j"
proof -
  have d: "maxPackets (fst (playoutDecision unmarshal buflen now k)) = maxPackets k" for k
    by (simp add: playoutDecision_def releaseNext_eq Let_def stopPlayout_def split: option.split sum.split)
  obtain m j1 where s: "startPlayout now j = Some j1"
      "j1 = (countLost m j)\<lparr>startAt := None, resync := False, playout := True, releaseAt := now\<rparr>"
    by (rule startPlayout_total [OF assms(1)])
  then show ?thesis
    using assms(2) d [of j] d [of j1] by (auto simp: ReadRTP_pass_def split: if_splits)
qed

lemma sint_of_nat_u16: "n < 32768 \<Longrightarrow> sint (of_nat n :: u16) = int n"
  using sint_of_int_u16 [of "int n"] by simp

lemma ReadRTP_pass_kept:
  assumes "jb_inv held j" "ReadRTP_pass unmarshal buflen now j = Some (j', out)"
    "maxPackets j < 32767" "queueFaithful unmarshal j"
  shows "0 \<le> sint (expectedSeq j' - expectedSeq j)" "queueFaithful unmarshal j'"
    and "out = Released data p \<Longrightarrow> 0 < sint (expectedSeq j' - expectedSeq j)
      \<and> SequenceNumber (Header p) = expectedSeq j' - 1"
proof -
  obtain k where k: "k \<le> maxPackets j" "pass_effect unmarshal buflen j j' out k"
    using ReadRTP_pass_spec [OF assms(1), of unmarshal buflen now] assms(2) by (auto simp: pass_ok_def)
  have n: "sint (of_nat k :: u16) = int k" "sint (of_nat k + 1 :: u16) = int k + 1"
    using sint_of_nat_u16 [of k] sint_of_nat_u16 [of "Suc k"] k(1) assms(3) by (simp_all add: add.commute)
  have p: "0 \<le> sint (expectedSeq j' - expectedSeq j) \<and> queueFaithful unmarshal j'" if "passesOver k j j'"
    using that n(1) assms(4) queueFaithful_cong [of j' j] by (simp add: passesOver_def)
  have t: "0 < sint (expectedSeq j' - expectedSeq j) \<and> queueFaithful unmarshal j' \<and> slotFaithful unmarshal sl
      \<and> slotSeq sl = expectedSeq j' - 1" if "takesOut k sl j j'" for sl
  proof -
    have "expectedSeq j' - expectedSeq j = of_nat k + 1" using that by (simp add: takesOut_def)
    moreover have "slotSeq sl = expectedSeq j + of_nat k"
      using that jb_window_queueOf(2) assms(1) unfolding takesOut_def jb_inv_def by blast
    ultimately show ?thesis
      using that n(2) assms(4) by (auto simp: takesOut_def queueFaithful_def)
  qed
  have "passesOver k j j' \<or> (\<exists>sl. takesOut k sl j j')"
    using k(2) unfolding pass_effect_def by (cases out) auto
  then show "0 \<le> sint (expectedSeq j' - expectedSeq j)" "queueFaithful unmarshal j'"
    using p t less_imp_le by blast+
  show "out = Released data p \<Longrightarrow> 0 < sint (expectedSeq j' - expectedSeq j)
      \<and> SequenceNumber (Header p) = expectedSeq j' - 1"
  proof -
    assume "out = Released data p"
    then obtain sl where "takesOut k sl j j'" "unmarshal (slotData sl) = Inr p"
      using k(2) unfolding pass_effect_def by auto
    then show ?thesis using t [of sl] unfolding slotFaithful_def by auto
  qed
qed

section \<open>Runs within a stream\<close>

text \<open>
  \<open>moved\<close> is how far a step moves the cursor, read off the two states. \<open>delivers\<close> is a run of
  steps none of which starts a new stream, with the cursor counted without wrap-around from \<open>x\<close>
  to \<open>y\<close>, and with the packets released on the way, each at the number of the cursor it was
  released from.
\<close>

definition moved :: "jb_sys \<Rightarrow> jb_sys \<Rightarrow> int" where
  "moved s t = sint (expectedSeq (buf t) - expectedSeq (buf s))"

definition steady :: "(bytes \<Rightarrow> go_error + rtp_packet) \<Rightarrow> jb_sys \<Rightarrow> jb_label \<Rightarrow> bool" where
  "steady unmarshal s l = (case l of
     File now raw pkt n \<Rightarrow> streamKept (buf s) (SSRC (Header pkt)) (SequenceNumber (Header pkt))
       \<and> unmarshal (take n raw) = Inr pkt
   | _ \<Rightarrow> True)"

definition released :: "jb_label \<Rightarrow> int \<Rightarrow> (int \<times> rtp_packet) list" where
  "released l k = (case l of Pass now (Released data p) \<Rightarrow> [(k, p)] | _ \<Rightarrow> [])"

inductive delivers :: "(bytes \<Rightarrow> go_error + rtp_packet) \<Rightarrow> jb_sys \<Rightarrow> int
    \<Rightarrow> (int \<times> rtp_packet) list \<Rightarrow> jb_sys \<Rightarrow> int \<Rightarrow> bool"
  for unmarshal where
  dv_nil: "delivers unmarshal s x [] s x"
| dv_step: "jb_step unmarshal s l t \<Longrightarrow> steady unmarshal s l
    \<Longrightarrow> delivers unmarshal t (x + moved s t) ds v y
    \<Longrightarrow> delivers unmarshal s x (released l (x + moved s t - 1) @ ds) v y"

definition stream_ok :: "(bytes \<Rightarrow> go_error + rtp_packet) \<Rightarrow> jb_sys \<Rightarrow> bool" where
  "stream_ok unmarshal s \<longleftrightarrow> sys_inv s \<and> playing (buf s) \<and> maxPackets (buf s) < 32767
     \<and> queueFaithful unmarshal (buf s)"

lemma step_same_window:
  assumes "expectedSeq (buf t) = expectedSeq (buf s)" "playout (buf t) = playout (buf s)"
    "resync (buf t) = resync (buf s)" "maxPackets (buf t) = maxPackets (buf s)"
    "queueOf (buf t) = queueOf (buf s)" "sys_inv t" "stream_ok unmarshal s"
  shows "stream_ok unmarshal t \<and> moved s t = 0"
  using assms queueFaithful_cong [OF assms(5)] by (simp add: stream_ok_def playing_def moved_def)

lemma buf_frame [simp]: "buf (startLoop s) = buf s" "buf (closeBuffer s) = buf s"
  by (simp_all add: startLoop_def closeBuffer_def)

lemma queueOf_frame [simp]:
  "queueOf (freeSlot i j) = queueOf j" "queueOf (UpdateRTPSession_jb rd d r j) = queueOf j"
  "queueOf (failRead i e j) = queueOf j" "queueOf (j\<lparr>freeSlots := f\<rparr>) = queueOf j"
  by (rule queueOf_cong; simp add: failRead_def)+

lemma failRead_frame [simp]:
  "expectedSeq (failRead i e j) = expectedSeq j" "playout (failRead i e j) = playout j"
  "resync (failRead i e j) = resync j" "maxPackets (failRead i e j) = maxPackets j"
  by (simp_all add: failRead_def)

lemma stream_ok_file:
  assumes "stream_ok unmarshal s" "steady unmarshal s (File now raw pkt n)" "sys_inv t"
    "loop s = Reading i r" "buf t = fileRead now i raw pkt n (buf s)"
  shows "stream_ok unmarshal t \<and> 0 \<le> moved s t"
proof -
  let ?sl = "\<lparr>slotRaw = raw, slotPacket = pkt, slotN = n,
    slotSSRC = SSRC (Header pkt), slotSeq = SequenceNumber (Header pkt)\<rparr>"
  let ?w = "(buf s)\<lparr>slots := (slots (buf s))[i := ?sl]\<rparr>"
  have i: "jb_inv {#i#} (buf s)" using assms(1,4) by (simp add: stream_ok_def sys_inv_def held_of_def)
  have w: "jb_inv {#i#} ?w" "i < length (slots ?w)" "slots ?w ! i = ?sl"
    using jb_inv_write [OF i] held_slot [OF i] by simp_all
  have k: "streamKept ?w (slotSSRC (slots ?w ! i)) (slotSeq (slots ?w ! i))" "playing ?w"
    using assms(1,2) w(3) by (simp_all add: steady_def streamKept_def stream_ok_def playing_def)
  have b: "buf t = handleSlot now i ?w" using assms(5) by (simp add: fileRead_def Let_def)
  have "playing (buf t)" "0 \<le> moved s t"
    using handleSlot_kept [OF w(1,2) k(2,1), of now] by (simp_all add: b moved_def)
  moreover have "queueFaithful unmarshal (buf t)"
    using queueFaithful_fileRead [OF i] assms(1,2,5) by (simp add: stream_ok_def steady_def)
  ultimately show ?thesis
    using assms(1,3,5) fileRead_upstream(3) by (simp add: stream_ok_def)
qed

lemma stream_ok_step:
  assumes "stream_ok unmarshal s" "jb_step unmarshal s l t" "steady unmarshal s l"
  shows "stream_ok unmarshal t \<and> 0 \<le> moved s t
    \<and> (\<forall>k p. (k, p) \<in> set (released l k) \<longrightarrow> 0 < moved s t \<and> SequenceNumber (Header p) = expectedSeq (buf t) - 1)"
proof -
  have inv: "sys_inv s" "jb_inv (held_of (loop s)) (buf s)"
    using assms(1) by (simp_all add: stream_ok_def sys_inv_def)
  have t: "sys_inv t" by (rule sys_inv_step [OF inv(1) assms(2)])
  note same = step_same_window [OF _ _ _ _ _ t assms(1)]
  from assms(2) show ?thesis
  proof cases
    case (st_pass b now j out)
    note k = ReadRTP_pass_kept [OF inv(2) st_pass(4)]
    show ?thesis
      using k assms(1) st_pass t ReadRTP_pass_playing [OF _ st_pass(4)] ReadRTP_pass_sizes [OF inv(2) st_pass(4)]
      by (auto simp: stream_ok_def moved_def released_def split: read_outcome.splits)
  next
    case (st_file i r n now raw pkt)
    then show ?thesis using stream_ok_file [OF assms(1) _ t, of now raw pkt n i r] assms(3)
      by (simp add: released_def)
  qed (use same inv(2) in \<open>auto simp: released_def held_of_def queueOf_writeSlot dest!: takeSlot_fields\<close>)
qed

lemma moved_origin: "expectedSeq (buf t) = expectedSeq (buf s) + of_int (moved s t)"
  by (simp add: moved_def)

text \<open>Where the released packets of a run lie: in order, between the ends, under their own numbers.\<close>

definition in_order :: "u16 \<Rightarrow> int \<Rightarrow> int \<Rightarrow> (int \<times> rtp_packet) list \<Rightarrow> bool" where
  "in_order e x y ds \<longleftrightarrow> sorted_wrt (<) (map fst ds) \<and>
     (\<forall>(k, p) \<in> set ds. x \<le> k \<and> k < y \<and> SequenceNumber (Header p) = e + of_int (k - x))"

lemma released_cases: "released l k = [] \<or> (\<exists>p. released l k = [(k, p)])"
  by (simp add: released_def split: jb_label.split read_outcome.split)

lemma in_order_cons:
  assumes "in_order e' x' y ds" "x < x'" "e' = e + of_int (x' - x)" "x' \<le> y"
    "SequenceNumber (Header p) = e' - 1"
  shows "in_order e x y ((x' - 1, p) # ds)"
proof -
  have "SequenceNumber (Header q) = e + of_int (k - x) \<and> x' \<le> k \<and> k < y" if "(k, q) \<in> set ds" for k q
    using assms(1,3) that unfolding in_order_def by fastforce
  then show ?thesis using assms unfolding in_order_def by fastforce
qed

lemma in_order_weaken:
  assumes "in_order e' x' y ds" "x \<le> x'" "e' = e + of_int (x' - x)"
  shows "in_order e x y ds"
  using assms unfolding in_order_def by fastforce

lemma delivers_in_order:
  assumes "delivers unmarshal s x ds v y" "stream_ok unmarshal s"
  shows "x \<le> y \<and> expectedSeq (buf v) = expectedSeq (buf s) + of_int (y - x)
    \<and> in_order (expectedSeq (buf s)) x y ds"
  using assms
proof (induction rule: delivers.induct)
  case (dv_nil s x)
  then show ?case by (simp add: in_order_def)
next
  case (dv_step s l t x ds v y)
  note st = stream_ok_step [OF dv_step.prems dv_step.hyps(1,2)]
  let ?x = "x + moved s t"
  have ih: "?x \<le> y" "expectedSeq (buf v) = expectedSeq (buf t) + of_int (y - ?x)"
      "in_order (expectedSeq (buf t)) ?x y ds"
    using dv_step.IH st by simp_all
  have e: "expectedSeq (buf t) = expectedSeq (buf s) + of_int (?x - x)"
    using moved_origin [of t s] by simp
  have "in_order (expectedSeq (buf s)) x y (released l (?x - 1) @ ds)"
  proof (cases "released l (?x - 1) = []")
    case True
    then show ?thesis using in_order_weaken [OF ih(3) _ e] st by simp
  next
    case False
    then obtain p where p: "released l (?x - 1) = [(?x - 1, p)]" using released_cases by blast
    then have "0 < moved s t" "SequenceNumber (Header p) = expectedSeq (buf t) - 1"
      using st by (metis list.set_intros(1))+
    then show ?thesis using in_order_cons [OF ih(3) _ e ih(1)] p by simp
  qed
  then show ?case using ih st e by simp
qed

end
