(* ===== verification/Jitter_Filing.thy ===== *)
theory Jitter_Filing
  imports Jitter_Order
begin

text \<open>
  What filing one packet does to the queue and to the counters: a packet inside the window is
  queued under its number unless it is a duplicate or its place is taken, and every packet read
  is counted exactly once, as queued, late, duplicate or dropped.
\<close>

section \<open>Places in the window\<close>

lemma position_step:
  assumes "maxPackets j dvd 65536"
  shows "position (e + of_nat a) j = (unat e + a) mod maxPackets j"
proof -
  have "unat (e + of_nat a) = (unat e + a) mod 65536"
    by (simp add: unat_word_ariths unat_of_nat mod_add_right_eq)
  then show ?thesis using assms by (simp add: position_def mod_mod_cancel)
qed

lemma mod_inject_less:
  fixes a b c m :: nat
  assumes "(c + a) mod m = (c + b) mod m" "a < m" "b < m"
  shows "a = b"
proof -
  have le: "x = y" if "x \<le> y" "(c + y) mod m = (c + x) mod m" "y < m" for x y
  proof -
    have "m dvd (c + y) - (c + x)"
      using that(1) iffD1 [OF mod_eq_dvd_iff_nat [of "c + x" "c + y" m] that(2)] by simp
    then have "m dvd y - x" by simp
    then show ?thesis using that(1,3) dvd_imp_le [of m "y - x"] by linarith
  qed
  show ?thesis using le [of a b] le [of b a] assms by (cases "a \<le> b") simp_all
qed

text \<open>
  If the size of the window divides the number of sequence numbers, two numbers of the window
  never share a place.
\<close>

lemma position_window_inject:
  assumes "maxPackets j dvd 65536" "in_window j s" "in_window j t" "position s j = position t j"
  shows "s = t"
proof -
  let ?a = "nat (sint (s - expectedSeq j))" and ?b = "nat (sint (t - expectedSeq j))"
  have s: "s = expectedSeq j + of_nat ?a" "?a < maxPackets j"
    using assms(2) of_nat_sint_diff [of s "expectedSeq j"] by (auto simp: in_window_def nat_less_iff)
  have t: "t = expectedSeq j + of_nat ?b" "?b < maxPackets j"
    using assms(3) of_nat_sint_diff [of t "expectedSeq j"] by (auto simp: in_window_def nat_less_iff)
  have "?a = ?b"
    using assms(4) position_step [OF assms(1), of "expectedSeq j" ?a] position_step [OF assms(1), of "expectedSeq j" ?b]
      s t mod_inject_less by metis
  then show ?thesis using s(1) t(1) by metis
qed

lemma place_free:
  assumes "jb_wf held j" "jb_window j" "maxPackets j dvd 65536" "in_window j s" "queueOf j s = None"
  shows "sequence j ! position s j = None"
proof (rule ccontr)
  assume "sequence j ! position s j \<noteq> None"
  then obtain k where k: "sequence j ! position s j = Some k" by auto
  then have "position (slotSeq (slots j ! k)) j = position s j" "in_window j (slotSeq (slots j ! k))"
    using assms(1,2) position_less unfolding jb_window_def by metis+
  then have "slotSeq (slots j ! k) = s" using position_window_inject assms(3,4) by metis
  then show False using assms(5) k by (simp add: queueOf_def)
qed

section \<open>Filing into a free place\<close>

lemma queueOf_handleSlotFile:
  assumes "jb_wf {#i#} j" "sequence j ! position (slotSeq (slots j ! i)) j = None"
  shows "queueOf (handleSlotFile now i j) = (queueOf j)(slotSeq (slots j ! i) \<mapsto> slots j ! i)"
proof
  fix t
  let ?s = "slotSeq (slots j ! i)"
  let ?q = "j\<lparr>sequence := (sequence j)[position ?s j := Some i], queued := queued j + 1\<rparr>"
  have p: "position ?s j < length (sequence j)"
    using position_less [OF assms(1), of ?s] assms(1) by (simp add: jb_wf_def)
  have "queueOf (handleSlotFile now i j) = queueOf ?q"
    using assms(2) by (intro queueOf_cong) (simp_all add: handleSlotFile_def Let_def)
  moreover have "queueOf ?q t = ((queueOf j)(?s \<mapsto> slots j ! i)) t"
  proof (cases "position t j = position ?s j")
    case True
    then show ?thesis using p assms(2) by (auto simp: queueOf_def)
  next
    case False
    then have "t \<noteq> ?s" by auto
    then show ?thesis using False by (simp add: queueOf_def split: option.split)
  qed
  ultimately show "queueOf (handleSlotFile now i j) t = ((queueOf j)(?s \<mapsto> slots j ! i)) t" by simp
qed

lemma handleSlot_in_window:
  assumes "jb_inv {#i#} j" "streamKept j (slotSSRC (slots j ! i)) (slotSeq (slots j ! i))"
    "in_window j (slotSeq (slots j ! i))"
    "sequence j ! position (slotSeq (slots j ! i)) j = None"
  shows "queueOf (handleSlot now i j) = (queueOf j)(slotSeq (slots j ! i) \<mapsto> slots j ! i)"
proof -
  let ?l = "learnPacketDuration (slots j ! i) (j\<lparr>stats := (stats j)\<lparr>packetsRead := packetsRead (stats j) + 1\<rparr>\<rparr>)"
  have q: "queueOf ?l = queueOf j" by (rule queueOf_cong) simp_all
  have p: "position s ?l = position s j" for s by (simp add: position_def)
  have wf: "jb_wf {#i#} ?l"
    using assms(1) jb_wf_cong [of ?l j "{#i#}"] by (simp add: jb_inv_def)
  have "handleSlot now i j = handleSlotFile now i ?l"
    using assms(3) by (simp add: handleSlot_def handleSlotStream_kept [OF assms(2)] handleSlotWindow_def
        in_window_def Let_def)
  then show ?thesis using queueOf_handleSlotFile [OF wf] assms(4) by (simp add: q p)
qed

section \<open>Every packet read is counted once\<close>

text \<open>The packets read that are queued or were turned away or pushed out of the window.\<close>

definition account :: "RTPJitterBuffer \<Rightarrow> u64" where
  "account j = packetsLate (stats j) + packetsDuplicate (stats j) + packetsDropped (stats j)
     + of_int (queued j)"

lemma account_frame [simp]:
  "account (freeSlot i j) = account j" "account (j\<lparr>expectedSeq := e\<rparr>) = account j"
  "account (learnPacketDuration sl j) = account j"
  by (simp_all add: account_def freeSlot_def)

lemma account_dropBefore [simp]: "account (dropBefore s j) = account j"
proof -
  have "account (dropStale k j) = account j" for k j
    by (simp add: dropStale_def Let_def split: option.split) (simp add: account_def)
  then have "account (fold dropStale ks j) = account j" for ks by (rule fold_keeps)
  then show ?thesis by (simp add: dropBefore_def Let_def)
qed

lemma account_handleSlotFile: "account (handleSlotFile now i j) = account j + 1"
  by (simp add: handleSlotFile_def Let_def split: option.split) (simp add: account_def)

lemma account_handleSlotWindow:
  "handleSlotWindow i d j = Inl j2 \<Longrightarrow> account j2 = account j + 1"
  "handleSlotWindow i d j = Inr j2 \<Longrightarrow> account j2 = account j"
  by (auto simp: handleSlotWindow_def Let_def split: if_splits) (simp_all add: account_def)

lemma account_fileRead:
  assumes "streamKept j (SSRC (Header pkt)) (SequenceNumber (Header pkt))" "i < length (slots j)"
  shows "account (fileRead now i raw pkt n j) = account j + 1"
proof -
  let ?sl = "\<lparr>slotRaw = raw, slotPacket = pkt, slotN = n,
    slotSSRC = SSRC (Header pkt), slotSeq = SequenceNumber (Header pkt)\<rparr>"
  let ?w = "j\<lparr>slots := (slots j)[i := ?sl]\<rparr>"
  let ?s = "?w\<lparr>stats := (stats ?w)\<lparr>packetsRead := packetsRead (stats ?w) + 1\<rparr>\<rparr>"
  let ?l = "learnPacketDuration ?sl ?s"
  have k: "streamKept ?w (slotSSRC ?sl) (slotSeq ?sl)" using assms(1) by (simp add: streamKept_def)
  have "account ?s = account j" by (simp add: account_def)
  then have a: "account ?l = account j" by simp
  have "fileRead now i raw pkt n j = (case handleSlotWindow i (sint (slotSeq ?sl - expectedSeq ?w)) ?l of
      Inl j2 \<Rightarrow> j2 | Inr j2 \<Rightarrow> handleSlotFile now i j2)"
    using assms(2) handleSlotStream_kept [OF k, of now] by (simp add: fileRead_def handleSlot_def Let_def)
  then show ?thesis
    using a by (cases "handleSlotWindow i (sint (slotSeq ?sl - expectedSeq ?w)) ?l")
      (simp_all add: account_handleSlotWindow account_handleSlotFile)
qed

section \<open>A burst of losses ends\<close>

text \<open>
  The passes \<open>ReadRTP\<close> makes at the given clock readings while each one only counts a loss;
  \<^term>\<open>None\<close> as soon as a pass does something else.
\<close>

primrec againRun :: "(bytes \<Rightarrow> go_error + rtp_packet) \<Rightarrow> nat \<Rightarrow> instant list \<Rightarrow> RTPJitterBuffer
    \<Rightarrow> RTPJitterBuffer option" where
  "againRun unmarshal buflen [] j = Some j"
| "againRun unmarshal buflen (now # nows) j = (case ReadRTP_pass unmarshal buflen now j of
     Some (j', Again) \<Rightarrow> againRun unmarshal buflen nows j' | _ \<Rightarrow> None)"

lemma lead_passesOver:
  assumes "jb_inv held j" "passesOver k j j'" "0 < k" "0 < queued j"
  shows "lead j' < lead j"
proof -
  have a: "jb_wf held j" "jb_window j" using assms(1) by (simp_all add: jb_inv_def)
  have q: "queueOf j (expectedSeq j + of_nat (lead j)) \<noteq> None" by (rule lead_queued(1) [OF a assms(4)])
  have "k \<le> lead j" using q assms(2) unfolding passesOver_def by (meson not_less)
  then have "expectedSeq j' + of_nat (lead j - k) = expectedSeq j + of_nat (lead j)"
    using assms(2) by (simp add: passesOver_def of_nat_diff)
  then have "queueOf j' (expectedSeq j' + of_nat (lead j - k)) \<noteq> None"
    using q assms(2) unfolding passesOver_def by metis
  then have "lead j' \<le> lead j - k" unfolding lead_def [of j'] by (rule Least_le)
  then show ?thesis using \<open>k \<le> lead j\<close> assms(3) by linarith
qed

lemma Again_queued:
  assumes "jb_inv held j" "ReadRTP_pass unmarshal buflen now j = Some (j', Again)"
  shows "0 < queued j \<and> (\<exists>k > 0. passesOver k j j')"
proof -
  obtain k where k: "pass_effect unmarshal buflen j j' Again k"
    using ReadRTP_pass_spec [OF assms(1), of unmarshal buflen now] assms(2) by (auto simp: pass_ok_def)
  have d: "queued i \<noteq> 0" if "playoutDecision unmarshal buflen now i = (j', Again)" for i
    using that waitOutcome_cases(3)
    by (auto simp: playoutDecision_def releaseNext_def Let_def split: if_splits option.splits sum.splits)
  obtain m j1 where s: "startPlayout now j = Some j1"
      "j1 = (countLost m j)\<lparr>startAt := None, resync := False, playout := True, releaseAt := now\<rparr>"
    by (rule startPlayout_total [OF assms(1)])
  have "queued j1 = queued j" using s(2) by simp
  then have "queued j \<noteq> 0"
    using assms(2) s(1) d [of j] d [of j1] by (auto simp: ReadRTP_pass_def split: if_splits)
  moreover have "0 \<le> queued j" using assms(1) by (simp add: jb_inv_def jb_wf_def)
  ultimately show ?thesis using k by (auto simp: pass_effect_def)
qed

lemma againRun_lead:
  assumes "jb_inv held j" "againRun unmarshal buflen nows j = Some j'" "nows \<noteq> []"
  shows "length nows \<le> lead j \<and> 0 < queued j"
  using assms
proof (induction nows arbitrary: j)
  case (Cons now nows)
  then obtain j1 where p: "ReadRTP_pass unmarshal buflen now j = Some (j1, Again)"
      "againRun unmarshal buflen nows j1 = Some j'"
    by (auto split: option.splits prod.splits read_outcome.splits)
  obtain k where k: "0 < queued j" "0 < k" "passesOver k j j1"
    using Again_queued [OF Cons.prems(1) p(1)] by blast
  have "lead j1 < lead j" by (rule lead_passesOver [OF Cons.prems(1) k(3,2,1)])
  then show ?case
    using Cons.IH [OF ReadRTP_pass_inv [OF Cons.prems(1) p(1)] p(2)] k(1) by (cases nows) auto
qed simp

end
