(* ===== verification/Jitter_Properties.thy ===== *)
theory Jitter_Properties
  imports Jitter_Filing
begin

text \<open>
  The properties of the jitter buffer, and the concrete buffers their witnesses run on: one in
  the middle of playout with packet 5 queued, and one as \<open>NewRTPJitterBuffer\<close> makes it.
\<close>

section \<open>Examples\<close>

definition exPacket :: "u16 \<Rightarrow> rtp_packet" where
  "exPacket s = zeroPacket\<lparr>Header := zeroHeader\<lparr>SequenceNumber := s, SSRC := 7\<rparr>\<rparr>"

definition exUnmarshal :: "bytes \<Rightarrow> go_error + rtp_packet" where
  "exUnmarshal b = (case b of [x] \<Rightarrow> Inr (exPacket (ucast x)) | _ \<Rightarrow> Inl EOF)"

definition exSlot :: rtpJitterSlot where
  "exSlot = \<lparr>slotRaw = [5, 0, 0], slotPacket = exPacket 5, slotN = 1, slotSSRC = 7, slotSeq = 5\<rparr>"

definition exBuf :: RTPJitterBuffer where
  "exBuf = \<lparr>reader = 0, packetDuration = 20 * millisecond, clockRate = 0,
     delayPackets = 2, maxPackets = 4,
     slots = [exSlot, zeroSlot, zeroSlot, zeroSlot, zeroSlot], freeSlots = [2, 3, 4],
     sequence = [None, Some 0, None, None], queued = 1,
     jssrc = 7, ssrcSet = True, expectedSeq = 4, expectedSet = True,
     startAt = None, releaseAt = 0, playout = True, resync = False,
     upstreamEnded = False, readErr = None,
     stepSeq = 0, stepTimestamp = 0, stepPayloadType = 0, stepSet = False, pendingStep = 0,
     stats = zeroStats\<rparr>"

definition exSys :: jb_sys where
  "exSys = \<lparr>buf = exBuf, loop = Reading 1 0, caller = Deciding 10, isClosed = False, arrived = False\<rparr>"

lemma exBuf_simps [simp]:
  "delayPackets exBuf = 2" "maxPackets exBuf = 4" "queued exBuf = 1" "expectedSeq exBuf = 4"
  "slots exBuf = [exSlot, zeroSlot, zeroSlot, zeroSlot, zeroSlot]" "freeSlots exBuf = [2, 3, 4]"
  "sequence exBuf = [None, Some 0, None, None]" "jssrc exBuf = 7" "ssrcSet exBuf" "playout exBuf"
  "\<not> resync exBuf" "startAt exBuf = None" "\<not> upstreamEnded exBuf" "releaseAt exBuf = 0"
  "packetDuration exBuf = 20 * millisecond" "slotSeq exSlot = 5" "slotSSRC exSlot = 7"
  "slotN exSlot = 1" "slotRaw exSlot = [5, 0, 0]" "slotPacket exSlot = exPacket 5"
  "SequenceNumber (Header (exPacket s)) = s" "SSRC (Header (exPacket s)) = 7"
  "position s exBuf = unat s mod 4"
  by (simp_all add: exBuf_def exSlot_def exPacket_def position_def)

lemma exBuf_queueOf: "queueOf exBuf = [5 \<mapsto> exSlot]"
proof
  fix s :: u16
  have "n < 4 \<Longrightarrow> [None, Some 0, None, None] ! n \<in> {None, Some (0 :: nat)}" for n
    by (auto simp: nth_Cons split: nat.split)
  then have "sequence exBuf ! (unat s mod 4) \<in> {None, Some 0}" by simp
  moreover have "sequence exBuf ! Suc 0 = Some 0" by simp
  ultimately show "queueOf exBuf s = [5 \<mapsto> exSlot] s"
    by (cases "s = 5") (auto simp: queueOf_def simp del: exBuf_simps(7))
qed

lemma exBuf_inv: "jb_inv {#1#} exBuf"
proof -
  have "p = 1 \<and> i = 0" if "p < 4" "[None, Some 0, None, None] ! p = Some (i :: nat)" for p i
    using that by (cases "p = 0"; cases "p = 1"; cases "p = 2"; cases "p = 3"; simp)
  then have "jb_window exBuf"
    unfolding jb_window_def in_window_def by fastforce
  moreover have "{..<Suc 4} = {0, 1, 2, 3, 4 :: nat}" by auto
  ultimately show ?thesis
    by (simp add: jb_inv_def jb_wf_def jb_phase_def)
qed

lemma exSys_ok: "stream_ok exUnmarshal exSys"
proof -
  have "sys_inv exSys"
    using exBuf_inv by (simp add: exSys_def sys_inv_def held_of_def wake_ok_def ended_ok_def)
  moreover have "queueFaithful exUnmarshal exBuf"
    by (auto simp: queueFaithful_def exBuf_queueOf slotFaithful_def slotData_def exUnmarshal_def split: if_splits)
  ultimately show ?thesis by (simp add: stream_ok_def playing_def exSys_def)
qed

section \<open>Safety of the two goroutines\<close>

text \<open>
  C34. In every state the jitter buffer can reach, under any interleaving of the read loop, the
  caller of \<open>ReadRTP\<close>, \<open>UpdateRTPSession\<close> and \<open>Close\<close>: the read loop has not run out of slots
  (its index into the free list never panics), every slot is owned exactly once, by the free list,
  the window or the read loop, and every queued packet sits at its place inside the window and
  belongs to the current source.
\<close>

theorem jitter_reachable_safe:
  assumes "jb_init s" "exec (jb_step unmarshal) s ls t"
  shows "loop t \<noteq> LoopPanicked \<and> jb_inv (held_of (loop t)) (buf t)"
  using jbs.inv_reachable [OF assms] by (simp add: sys_inv_def)

definition exNew :: jb_sys where
  "exNew = \<lparr>buf = the (NewRTPJitterBuffer 0 (20 * millisecond)
       \<lparr>optDelayPackets = 1, optMaxPackets = 2, optClockRate = 8000\<rparr>),
     loop = NotStarted, caller = CallerIdle, isClosed = False, arrived = False\<rparr>"

lemma exNew_init: "jb_init exNew"
proof -
  have "NewRTPJitterBuffer 0 (20 * millisecond) opts \<noteq> None" for opts
    by (simp add: NewRTPJitterBuffer_def split: prod.split)
  then show ?thesis unfolding jb_init_def exNew_def by auto
qed

lemma exNew_free: "freeSlots (buf exNew) = [0, 1, 2]"
  by (simp add: exNew_def NewRTPJitterBuffer_def jitterOptions_def upt_rec)

lemma exNew_take:
  "exec (jb_step unmarshal) exNew [Call 10, LoopCheck]
    (exNew\<lparr>buf := (buf exNew)\<lparr>freeSlots := [0, 1]\<rparr>, loop := Taken 2, caller := AtTop 10\<rparr>)"
proof (rule exec_two)
  let ?s = "(startLoop exNew)\<lparr>caller := AtTop 10\<rparr>"
  show "jb_step unmarshal exNew (Call 10) ?s" by (rule st_call) (simp add: exNew_def)
  have "jb_step unmarshal ?s LoopCheck (?s\<lparr>buf := (buf exNew)\<lparr>freeSlots := [0, 1]\<rparr>, loop := Taken 2\<rparr>)"
    by (rule st_take) (simp_all add: takeSlot_def exNew_free startLoop_def, simp_all add: exNew_def)
  then show "jb_step unmarshal ?s LoopCheck
      (exNew\<lparr>buf := (buf exNew)\<lparr>freeSlots := [0, 1]\<rparr>, loop := Taken 2, caller := AtTop 10\<rparr>)"
    by (simp add: startLoop_def exNew_def)
qed

theorem jitter_reachable_safe_witness:
  "jb_inv {#2#} ((buf exNew)\<lparr>freeSlots := [0, 1]\<rparr>)"
  using jitter_reachable_safe [OF exNew_init exNew_take] by (simp add: held_of_def)

text \<open>
  C35. No wake-up is lost: in a reachable state where the caller of \<open>ReadRTP\<close> sleeps without a
  timer, no wake-up is pending and the read loop is not about to send one, there is nothing to
  wake up for: no packet is queued and the upstream has not ended.
\<close>

theorem jitter_no_lost_wakeup:
  assumes "jb_init s" "exec (jb_step unmarshal) s ls t"
    "caller t = Waiting b d" "d \<le> 0" "\<not> arrived t" "\<forall>e. loop t \<noteq> Notifying e"
  shows "queued (buf t) = 0 \<and> \<not> upstreamEnded (buf t)"
  using jbs.inv_reachable [OF assms(1,2)] assms(3-6) by (auto simp: sys_inv_def wake_ok_def)

lemma exNew_fields [simp]:
  "\<not> playout (buf exNew)" "startAt (buf exNew) = None" "queued (buf exNew) = 0"
  "delayPackets (buf exNew) = 1" "\<not> upstreamEnded (buf exNew)" "loop exNew = NotStarted"
  "\<not> isClosed exNew" "\<not> arrived exNew" "caller exNew = CallerIdle"
  by (simp_all add: exNew_def NewRTPJitterBuffer_def jitterOptions_def)

lemma exNew_sleep:
  "exec (jb_step unmarshal) exNew [Call 10, LoopCheck, CheckDone, Pass 0 (Wait 0)]
    (exNew\<lparr>buf := (buf exNew)\<lparr>freeSlots := [0, 1]\<rparr>, loop := Taken 2, caller := Waiting 10 0\<rparr>)"
proof -
  let ?t = "exNew\<lparr>buf := (buf exNew)\<lparr>freeSlots := [0, 1]\<rparr>, loop := Taken 2, caller := AtTop 10\<rparr>"
  have c: "jb_step unmarshal ?t CheckDone (?t\<lparr>caller := Deciding 10\<rparr>)" by (rule st_check) simp_all
  have "jb_step unmarshal (?t\<lparr>caller := Deciding 10\<rparr>) (Pass 0 (Wait 0))
      ((?t\<lparr>caller := Deciding 10\<rparr>)\<lparr>buf := (buf exNew)\<lparr>freeSlots := [0, 1]\<rparr>, caller := afterPass 10 (Wait 0)\<rparr>)"
    by (rule st_pass)
      (simp_all add: ReadRTP_pass_def playoutStartDue_def playoutDecision_def waitOutcome_def)
  moreover have "(?t\<lparr>caller := Deciding 10\<rparr>)\<lparr>buf := (buf exNew)\<lparr>freeSlots := [0, 1]\<rparr>, caller := afterPass 10 (Wait 0)\<rparr>
      = exNew\<lparr>buf := (buf exNew)\<lparr>freeSlots := [0, 1]\<rparr>, loop := Taken 2, caller := Waiting 10 0\<rparr>"
    by (simp add: afterPass_def exNew_def)
  ultimately have "exec (jb_step unmarshal) ?t [CheckDone, Pass 0 (Wait 0)]
      (exNew\<lparr>buf := (buf exNew)\<lparr>freeSlots := [0, 1]\<rparr>, loop := Taken 2, caller := Waiting 10 0\<rparr>)"
    using exec_two [of "jb_step unmarshal", OF c] by metis
  from exec_append [OF exNew_take this] show ?thesis by simp
qed

theorem jitter_no_lost_wakeup_witness:
  "queued ((buf exNew)\<lparr>freeSlots := [0, 1]\<rparr>) = 0 \<and> \<not> upstreamEnded ((buf exNew)\<lparr>freeSlots := [0, 1]\<rparr>)"
  using jitter_no_lost_wakeup [OF exNew_init exNew_sleep] by simp

section \<open>Delivery\<close>

text \<open>
  C5. Delivery in order: take any run of the buffer, from a state in which playout has begun, in
  which no packet starts a new stream and the reader returns packets that match their bytes. Count
  the cursor without wrap-around from 0. Then the cursor never moves back, and the packets that
  \<open>ReadRTP\<close> returns in the run carry strictly increasing numbers of that count: none is delivered
  twice, none after a later one, and each is the packet with the sequence number it is due at.
\<close>

theorem jitter_delivery_in_order:
  assumes "stream_ok unmarshal s" "delivers unmarshal s 0 ds t y"
  shows "0 \<le> y \<and> sorted_wrt (<) (map fst ds)
    \<and> (\<forall>(k, p) \<in> set ds. 0 \<le> k \<and> k < y
        \<and> SequenceNumber (Header p) = expectedSeq (buf s) + of_int k)"
  using delivers_in_order [OF assms(2,1)] by (simp add: in_order_def)

lemma sint_u16_one: "sint (1 :: u16) = 1"
  by (rule sint_1_u16)

definition exBuf1 :: RTPJitterBuffer where
  "exBuf1 = (countLost 1 exBuf)\<lparr>releaseAt := 20 * millisecond\<rparr>"

definition exBuf2 :: RTPJitterBuffer where
  "exBuf2 = (unqueueExpected 0 exBuf1)
     \<lparr>stats := (stats exBuf1)\<lparr>packetsReleased := 1, lastSequenceNumber := 5\<rparr>\<rparr>"

lemma exBuf1_simps [simp]:
  "expectedSeq exBuf1 = 5" "playout exBuf1" "releaseAt exBuf1 = 20 * millisecond"
  "sequence exBuf1 = [None, Some 0, None, None]" "maxPackets exBuf1 = 4"
  "slots exBuf1 = [exSlot, zeroSlot, zeroSlot, zeroSlot, zeroSlot]"
  "packetsReleased (stats exBuf1) = 0" "expectedSeq exBuf2 = 6"
  by (simp_all add: exBuf1_def exBuf2_def) (simp add: countLost_def exBuf_def zeroStats_def)

lemma exBuf1_queueOf: "queueOf exBuf1 = [5 \<mapsto> exSlot]"
proof -
  have "queueOf exBuf1 = queueOf exBuf" by (rule queueOf_cong) simp_all
  then show ?thesis by (simp add: exBuf_queueOf)
qed

lemma exSys_lost: "ReadRTP_pass exUnmarshal 10 0 exBuf = Some (exBuf1, Again)"
  by (simp add: ReadRTP_pass_def playoutStartDue_def playoutDecision_due exBuf_queueOf exBuf1_def)

lemma exSys_release:
  "ReadRTP_pass exUnmarshal 10 (20 * millisecond) exBuf1 = Some (exBuf2, Released [5] (exPacket 5))"
  by (simp add: ReadRTP_pass_def playoutStartDue_def playoutDecision_due exBuf1_queueOf releaseNext_eq
      exUnmarshal_def position_def Let_def exBuf2_def)

text \<open>The run of the witness: number 4 is lost, number 5 is delivered.\<close>

lemma exSys_delivers: "\<exists>t. delivers exUnmarshal exSys 0 [(1, exPacket 5)] t 2"
proof -
  let ?s1 = "exSys\<lparr>buf := exBuf1, caller := AtTop 10\<rparr>"
  let ?s2 = "?s1\<lparr>caller := Deciding 10\<rparr>"
  let ?s3 = "?s2\<lparr>buf := exBuf2, caller := CallerIdle\<rparr>"
  have 1: "jb_step exUnmarshal exSys (Pass 0 Again) ?s1"
    using st_pass [of exSys 10 exUnmarshal 0 exBuf1 Again] exSys_lost by (simp add: exSys_def afterPass_def)
  have 2: "jb_step exUnmarshal ?s1 CheckDone ?s2"
    by (rule st_check) (simp_all add: exSys_def)
  have 3: "jb_step exUnmarshal ?s2 (Pass (20 * millisecond) (Released [5] (exPacket 5))) ?s3"
    using st_pass [of ?s2 10 exUnmarshal "20 * millisecond" exBuf2 "Released [5] (exPacket 5)"] exSys_release
    by (simp add: afterPass_def)
  have m: "moved exSys ?s1 = 1" "moved ?s1 ?s2 = 0" "moved ?s2 ?s3 = 1"
    by (simp_all add: moved_def exSys_def sint_u16_one)
  have "delivers exUnmarshal ?s2 1 (released (Pass (20 * millisecond) (Released [5] (exPacket 5))) (1 + 1 - 1) @ []) ?s3 2"
    using dv_step [OF 3, of 1 "[]" ?s3 2] dv_nil [of exUnmarshal ?s3 2] m by (simp add: steady_def)
  then have "delivers exUnmarshal ?s1 1 (released CheckDone (1 + 0 - 1) @ [(1, exPacket 5)]) ?s3 2"
    using dv_step [OF 2, of 1 "[(1, exPacket 5)]" ?s3 2] m by (simp add: steady_def released_def)
  then have "delivers exUnmarshal exSys 0 (released (Pass 0 Again) (0 + 1 - 1) @ [(1, exPacket 5)]) ?s3 2"
    using dv_step [OF 1, of 0 "[(1, exPacket 5)]" ?s3 2] m by (simp add: steady_def released_def)
  then show ?thesis by (auto simp: released_def)
qed

theorem jitter_delivery_in_order_witness:
  "\<exists>t. delivers exUnmarshal exSys 0 [(1, exPacket 5)] t 2
     \<and> SequenceNumber (Header (exPacket 5)) = expectedSeq (buf exSys) + of_int 1"
proof -
  obtain t where t: "delivers exUnmarshal exSys 0 [(1, exPacket 5)] t 2" using exSys_delivers by blast
  then show ?thesis using jitter_delivery_in_order [OF exSys_ok t] by auto
qed

text \<open>
  C36. Every pass of \<open>ReadRTP\<close> ends, the loop of \<open>startPlayout\<close> included, and does what it should:
  it passes over at most \<open>maxPackets\<close> numbers, none of them queued, and then releases the queued
  packet under the next number and nothing else, or leaves the queue as it is. It fails only
  because the buffer is too short, the packet does not parse, or the upstream has ended and
  nothing is left.
\<close>

theorem jitter_pass_total:
  assumes "jb_inv held j"
  shows "\<exists>j' out k. ReadRTP_pass unmarshal buflen now j = Some (j', out) \<and> k \<le> maxPackets j
    \<and> jb_inv held j' \<and> pass_effect unmarshal buflen j j' out k"
  using ReadRTP_pass_spec [OF assms, of unmarshal buflen now] by (auto simp: pass_ok_def)

theorem jitter_pass_total_witness:
  "\<exists>k \<le> 4. pass_effect exUnmarshal 10 exBuf exBuf1 Again k"
  using jitter_pass_total [OF exBuf_inv, of exUnmarshal 10 0] by (auto simp: exSys_lost)

text \<open>
  A gap is bounded: \<open>ReadRTP\<close> goes round its loop at once, without waiting, fewer than
  \<open>maxPackets\<close> times in a row, whatever the clock reads, before it releases a packet, returns an
  error or sleeps.
\<close>

theorem jitter_gap_bounded:
  assumes "jb_inv held j" "againRun unmarshal buflen nows j = Some j'"
  shows "length nows < maxPackets j"
proof (cases "nows = []")
  case True
  then show ?thesis using assms(1) by (simp add: jb_inv_def jb_wf_def)
next
  case False
  have "length nows \<le> lead j" "0 < queued j" using againRun_lead [OF assms False] by simp_all
  moreover have "lead j < maxPackets j"
    using assms(1) lead_queued(2) [of held j] \<open>0 < queued j\<close> by (simp add: jb_inv_def)
  ultimately show ?thesis by linarith
qed

theorem jitter_gap_bounded_witness:
  "againRun exUnmarshal 10 [0] exBuf = Some exBuf1 \<and> length [0 :: int] < 4"
  using jitter_gap_bounded [OF exBuf_inv, of exUnmarshal 10 "[0]" exBuf1] by (simp add: exSys_lost)

section \<open>Filing\<close>

text \<open>
  Nothing inside the window is turned away: if the size of the window divides 65536, a packet
  of the current stream whose number is in the window and not queued yet is queued under that
  number, with the bytes the reader returned, and the other packets stay queued. At no sequence
  number, also across wrap-around, does it find its place taken.
\<close>

theorem jitter_files_window:
  assumes "jb_inv {#i#} j" "maxPackets j dvd 65536"
    "streamKept j (SSRC (Header pkt)) (SequenceNumber (Header pkt))"
    "in_window j (SequenceNumber (Header pkt))" "queueOf j (SequenceNumber (Header pkt)) = None"
  shows "\<exists>sl. queueOf (fileRead now i raw pkt n j) = (queueOf j)(SequenceNumber (Header pkt) \<mapsto> sl)
    \<and> slotData sl = take n raw \<and> slotPacket sl = pkt"
proof -
  let ?sl = "\<lparr>slotRaw = raw, slotPacket = pkt, slotN = n,
    slotSSRC = SSRC (Header pkt), slotSeq = SequenceNumber (Header pkt)\<rparr>"
  let ?w = "j\<lparr>slots := (slots j)[i := ?sl]\<rparr>"
  have w: "jb_inv {#i#} ?w" "slots ?w ! i = ?sl"
    using jb_inv_write [OF assms(1)] held_slot [OF assms(1)] by simp_all
  have "sequence j ! position (SequenceNumber (Header pkt)) j = None"
    using assms(1,2,4,5) by (intro place_free [of "{#i#}"]) (simp_all add: jb_inv_def)
  then have "queueOf (handleSlot now i ?w) = (queueOf ?w)(SequenceNumber (Header pkt) \<mapsto> ?sl)"
    using handleSlot_in_window [OF w(1), of now] w(2) assms(3,4) by (simp add: streamKept_def in_window_def)
  then show ?thesis
    using queueOf_write [OF assms(1)] by (intro exI [of _ ?sl]) (simp add: fileRead_def Let_def slotData_def)
qed

lemma exBuf_kept: "streamKept exBuf 7 s"
  by (simp add: streamKept_def)

theorem jitter_files_window_witness:
  "\<exists>sl. queueOf (fileRead 0 1 [6, 0] (exPacket 6) 1 exBuf) = [5 \<mapsto> exSlot, 6 \<mapsto> sl]
    \<and> slotData sl = [6] \<and> slotPacket sl = exPacket 6"
  using jitter_files_window [OF exBuf_inv, of "exPacket 6" 0 "[6, 0]" 1]
  by (simp add: exBuf_kept exBuf_queueOf in_window_def)

text \<open>
  Every packet of the stream that is read is accounted for exactly once: filing it raises by
  one the sum of the packets queued, late, duplicate and dropped, also when it pushes older packets
  out of the window.
\<close>

theorem jitter_accounts_packet:
  assumes "jb_inv {#i#} j" "streamKept j (SSRC (Header pkt)) (SequenceNumber (Header pkt))"
  shows "packetsLate (stats (fileRead now i raw pkt n j)) + packetsDuplicate (stats (fileRead now i raw pkt n j))
      + packetsDropped (stats (fileRead now i raw pkt n j)) + of_int (queued (fileRead now i raw pkt n j))
    = packetsLate (stats j) + packetsDuplicate (stats j) + packetsDropped (stats j) + of_int (queued j) + 1"
  using account_fileRead [OF assms(2) held_slot [OF assms(1)], of now raw n] by (simp add: account_def)

theorem jitter_accounts_packet_witness:
  "packetsLate (stats (fileRead 0 1 [6] (exPacket 6) 1 exBuf)) + packetsDuplicate (stats (fileRead 0 1 [6] (exPacket 6) 1 exBuf))
      + packetsDropped (stats (fileRead 0 1 [6] (exPacket 6) 1 exBuf)) + of_int (queued (fileRead 0 1 [6] (exPacket 6) 1 exBuf))
    = 2"
  using jitter_accounts_packet [OF exBuf_inv, of "exPacket 6" 0 "[6]" 1]
  by (simp add: exBuf_kept) (simp add: exBuf_def zeroStats_def)

lemma handleSlot_collision:
  assumes "streamKept j (slotSSRC (slots j ! i)) (slotSeq (slots j ! i))"
    "in_window j (slotSeq (slots j ! i))"
    "sequence j ! position (slotSeq (slots j ! i)) j = Some k" "slotSeq (slots j ! k) \<noteq> slotSeq (slots j ! i)"
  shows "queueOf (handleSlot now i j) = queueOf j"
    "packetsDropped (stats (handleSlot now i j)) = packetsDropped (stats j) + 1"
proof -
  let ?l = "learnPacketDuration (slots j ! i) (j\<lparr>stats := (stats j)\<lparr>packetsRead := packetsRead (stats j) + 1\<rparr>\<rparr>)"
  have q: "queueOf ?l = queueOf j" by (rule queueOf_cong) simp_all
  have p: "position s ?l = position s j" for s by (simp add: position_def)
  have "handleSlot now i j = handleSlotFile now i ?l"
    using assms(2) by (simp add: handleSlot_def handleSlotStream_kept [OF assms(1)] handleSlotWindow_def
        in_window_def Let_def)
  then have h: "handleSlot now i j = freeSlot i (?l\<lparr>stats := (stats ?l)
      \<lparr>packetsDropped := packetsDropped (stats ?l) + 1\<rparr>\<rparr>)"
    using assms(3,4) by (simp add: handleSlotFile_def Let_def p)
  show "queueOf (handleSlot now i j) = queueOf j"
    unfolding h by (rule trans [OF queueOf_cong q]) simp_all
  show "packetsDropped (stats (handleSlot now i j)) = packetsDropped (stats j) + 1"
    unfolding h by simp
qed

text \<open>
  Where the size of the window does not divide 65536, as the default of 40 does not, packets of
  one window share places across wrap-around: with packet 65530 queued and due, packet 10, sixteen
  numbers ahead and well inside the window of 40, is counted as dropped and never delivered.
\<close>

theorem jitter_wrap_collision:
  assumes "jb_inv {#i#} j" "maxPackets j = 40" "expectedSeq j = 65530" "queueOf j 65530 = Some sl"
    "streamKept j (slotSSRC (slots j ! i)) 10" "slotSeq (slots j ! i) = 10"
  shows "in_window j 10 \<and> queueOf j 10 = None \<and> queueOf (handleSlot now i j) = queueOf j
    \<and> packetsDropped (stats (handleSlot now i j)) = packetsDropped (stats j) + 1"
proof -
  obtain k where k: "sequence j ! position 65530 j = Some k" "slotSeq (slots j ! k) = 65530"
    using assms(4) by (auto simp: queueOf_Some)
  have p: "position 10 j = position 65530 j" using assms(2) by (simp add: position_def)
  have w: "in_window j 10" using assms(2,3) by (simp add: in_window_def)
  have "queueOf j 10 = None" using k by (simp add: queueOf_def p)
  then show ?thesis using handleSlot_collision [of j i k now] assms(5,6) w k p by simp
qed

definition exWrap :: RTPJitterBuffer where
  "exWrap = \<lparr>reader = 0, packetDuration = 20 * millisecond, clockRate = 0,
     delayPackets = 20, maxPackets = 40,
     slots = exSlot\<lparr>slotSeq := 65530\<rparr> # exSlot\<lparr>slotSeq := 10\<rparr> # replicate 39 zeroSlot,
     freeSlots = [2..<41], sequence = (replicate 40 None)[10 := Some 0], queued = 1,
     jssrc = 7, ssrcSet = True, expectedSeq = 65530, expectedSet = True,
     startAt = None, releaseAt = 0, playout = True, resync = False,
     upstreamEnded = False, readErr = None,
     stepSeq = 0, stepTimestamp = 0, stepPayloadType = 0, stepSet = False, pendingStep = 0,
     stats = zeroStats\<rparr>"

lemma exWrap_simps [simp]:
  "delayPackets exWrap = 20" "maxPackets exWrap = 40" "queued exWrap = 1" "expectedSeq exWrap = 65530"
  "slots exWrap = exSlot\<lparr>slotSeq := 65530\<rparr> # exSlot\<lparr>slotSeq := 10\<rparr> # replicate 39 zeroSlot"
  "freeSlots exWrap = [2..<41]" "sequence exWrap = (replicate 40 None)[10 := Some 0]" "jssrc exWrap = 7"
  "ssrcSet exWrap" "playout exWrap" "\<not> resync exWrap" "startAt exWrap = None" "packetDuration exWrap \<ge> 0"
  "position s exWrap = unat s mod 40" "stats exWrap = zeroStats"
  by (simp_all add: exWrap_def position_def)

lemma exWrap_inv: "jb_inv {#1#} exWrap"
proof -
  have "p = 10 \<and> i = 0" if "p < 40" "(replicate 40 None)[10 := Some 0] ! p = Some (i :: nat)" for p i
    using that by (cases "p = 10") simp_all
  then have "jb_window exWrap" unfolding jb_window_def in_window_def by fastforce
  moreover have "entries ((replicate 40 None)[10 := Some 0]) = {#0 :: nat#}"
    by (subst entries_insert) simp_all
  moreover have "{..<41 :: nat} = insert 0 (insert 1 {2..<41})" by auto
  then have "mset [2..<41] + {#0#} + {#1#} = mset_set {..<41 :: nat}" by (simp only: mset_upt) simp
  ultimately show ?thesis
    by (simp add: jb_inv_def jb_wf_def jb_phase_def)
qed

theorem jitter_wrap_collision_witness:
  "in_window exWrap 10 \<and> packetsDropped (stats (handleSlot 0 1 exWrap)) = 1"
proof -
  have "streamKept exWrap (slotSSRC (slots exWrap ! 1)) 10" by (simp add: streamKept_def)
  moreover have "queueOf exWrap 65530 = Some (exSlot\<lparr>slotSeq := 65530\<rparr>)" by (simp add: queueOf_def)
  ultimately show ?thesis
    using jitter_wrap_collision [OF exWrap_inv, of _ 0] by (simp add: zeroStats_def)
qed

end
