(* ===== verification/Session_Timers.thy ===== *)
theory Session_Timers
  imports Go_Strings
begin

text \<open>
  \<open>session_timers.go\<close>: the negotiation of an RFC 4028 session timer, the parsing of its headers,
  and the running timer of a dialog, whose state changes with the 2xx responses and whose loop
  refreshes the session or ends the dialog. Messages are seen through \<open>GetHeader\<close> and
  \<open>GetHeaders\<close>, which belong to the SIP library and are parameters here.
\<close>

section \<open>Policy and negotiation\<close>

definition defaultSessionExpires :: duration where "defaultSessionExpires = 1800 * second"
definition defaultMinSE :: duration where "defaultMinSE = 90 * second"
definition defaultWatchdogGrace :: duration where "defaultWatchdogGrace = 5 * second"
definition minRefreshInterval :: duration where "minRefreshInterval = defaultMinSE div 2"

definition refresherUAS :: string where "refresherUAS = ''uas''"
definition refresherUAC :: string where "refresherUAC = ''uac''"

record SessionTimerPolicy =
  Enabled :: bool
  DefaultSE :: duration
  MinSE :: duration
  PreferUASRefresher :: bool
  WatchdogGrace :: duration
  clock :: duration

definition wall :: "SessionTimerPolicy \<Rightarrow> duration \<Rightarrow> duration" where
  "wall p d = (if clock p \<le> 0 then d else goDiv d second * clock p)"

record sessionTimerDecision =
  Negotiated :: duration
  Interval :: duration
  Refresher :: string
  BelowFloor :: bool
  WeRefresh :: bool

definition watchdogGrace :: "SessionTimerPolicy \<Rightarrow> duration" where
  "watchdogGrace policy = (if WatchdogGrace policy > 0 then WatchdogGrace policy else defaultWatchdogGrace)"

definition refreshCadence :: "duration \<Rightarrow> duration" where
  "refreshCadence expires = max (goDiv expires 2) minRefreshInterval"

definition secs :: "u32 \<Rightarrow> duration" where
  "secs v = int (unat v) * second"

definition negotiate ::
  "u32 option \<Rightarrow> u32 option \<Rightarrow> string \<Rightarrow> SessionTimerPolicy \<Rightarrow> string \<Rightarrow> sessionTimerDecision" where
  "negotiate offeredSE offeredMinSE offeredRefresher policy ourRole =
    (let floor0 = (if MinSE policy \<le> 0 then defaultMinSE else MinSE policy);
         flr = (case offeredMinSE of
            None \<Rightarrow> floor0
          | Some m \<Rightarrow> if secs m > floor0 then secs m else floor0);
         (candidate, belowFloor) = (case offeredSE of
            Some se \<Rightarrow> (secs se, secs se < flr)
          | None \<Rightarrow> (if DefaultSE policy \<le> 0 then defaultSessionExpires else DefaultSE policy, False));
         negotiated = (if candidate < flr then flr else candidate);
         refresher = (if offeredRefresher = [] \<and> PreferUASRefresher policy then refresherUAS
                      else offeredRefresher)
     in \<lparr>Negotiated = negotiated, Interval = refreshCadence negotiated, Refresher = refresher,
         BelowFloor = belowFloor, WeRefresh = (refresher \<noteq> [] \<and> refresher = ourRole)\<rparr>)"

section \<open>Headers\<close>

record headerGetter =
  GetHeader :: "string \<Rightarrow> string option"
  GetHeaders :: "string \<Rightarrow> string list"

record sessionTimerOffer =
  SE :: "u32 option"
  OfferMinSE :: "u32 option"
  OfferRefresher :: string

definition zeroOffer :: sessionTimerOffer where
  "zeroOffer = \<lparr>SE = None, OfferMinSE = None, OfferRefresher = []\<rparr>"

definition parseDeltaSeconds :: "string \<Rightarrow> u32 option" where
  "parseDeltaSeconds s = map_option of_nat (ParseUint 32 (TrimSpace s))"

definition parseMinSE :: "headerGetter \<Rightarrow> u32 option" where
  "parseMinSE msg = (case GetHeader msg ''Min-SE'' of
     None \<Rightarrow> None
   | Some h \<Rightarrow> parseDeltaSeconds (fst (Cut (CHR '';'') h)))"

definition offerParam :: "string \<Rightarrow> sessionTimerOffer \<Rightarrow> sessionTimerOffer" where
  "offerParam p offer = (case Cut (CHR ''='') p of (k, v, found) \<Rightarrow>
     if found \<and> EqualFold (TrimSpace k) ''refresher''
     then offer\<lparr>OfferRefresher := ToLower (TrimSpace v)\<rparr> else offer)"

definition parseSessionTimerOffer :: "headerGetter \<Rightarrow> sessionTimerOffer \<times> bool" where
  "parseSessionTimerOffer msg =
    (case (case GetHeader msg ''Session-Expires'' of None \<Rightarrow> GetHeader msg ''x'' | h \<Rightarrow> h) of
       None \<Rightarrow> (zeroOffer, False)
     | Some h \<Rightarrow>
         (case Cut (CHR '';'') h of (val, params, _) \<Rightarrow>
            (case parseDeltaSeconds val of
               None \<Rightarrow> (zeroOffer, False)
             | Some se \<Rightarrow>
                 let offer = fold offerParam (Split (CHR '';'') params) (zeroOffer\<lparr>SE := Some se\<rparr>)
                 in (case parseMinSE msg of
                       Some m \<Rightarrow> (offer\<lparr>OfferMinSE := Some m\<rparr>, True)
                     | None \<Rightarrow> (offer, True)))))"

definition secondsOf :: "duration \<Rightarrow> string" where
  "secondsOf d = FormatInt (goDiv d second)"

definition supportsTimer :: "headerGetter \<Rightarrow> bool" where
  "supportsTimer msg =
    list_ex (\<lambda>name. list_ex (\<lambda>h. list_ex (\<lambda>tag. EqualFold (TrimSpace tag) ''timer'') (Split (CHR '','') h))
      (GetHeaders msg name)) [''Supported'', ''k'']"

definition retryAfter :: "headerGetter \<Rightarrow> duration option" where
  "retryAfter res = (case GetHeader res ''Retry-After'' of
     None \<Rightarrow> None
   | Some h \<Rightarrow>
       let val = (case IndexAny h [CHR '' '', CHR 0x09, CHR '';'', CHR ''(''] of
                    Some i \<Rightarrow> take i h | None \<Rightarrow> h)
       in map_option secs (parseDeltaSeconds val))"

section \<open>The state of the timer\<close>

record sessionTimerState =
  active :: bool
  expires :: duration
  weRefresh :: bool
  minSE :: duration

text \<open>
  The timer: its state and whether \<open>changed\<close> holds a signal. The channel has room for one, so a
  signal sent while one is pending is merged with it.
\<close>

record sessionTimer =
  policy :: SessionTimerPolicy
  changed :: bool
  timer :: sessionTimerState

definition newSessionTimer :: "SessionTimerPolicy \<Rightarrow> sessionTimerState \<Rightarrow> sessionTimer" where
  "newSessionTimer p st = \<lparr>policy = p, changed = False, timer = st\<rparr>"

definition setLocked :: "sessionTimerState \<Rightarrow> sessionTimer \<Rightarrow> sessionTimer" where
  "setLocked st t = t\<lparr>timer := st, changed := True\<rparr>"

type_synonym header = "string \<times> string"

definition requestHeaders :: "sessionTimer \<Rightarrow> header list \<times> bool" where
  "requestHeaders t =
    (let st = timer t in
     if \<not> active st then ([], False)
     else
       let refresher = (if weRefresh st then refresherUAC else refresherUAS);
           hdrs = [(''Supported'', ''timer''),
                   (''Session-Expires'', secondsOf (max (minSE st) (expires st)) @ '';refresher='' @ refresher)]
       in (if minSE st > 0 then hdrs @ [(''Min-SE'', secondsOf (minSE st))] else hdrs, weRefresh st))"

definition answered :: "headerGetter \<Rightarrow> bool \<Rightarrow> sessionTimer \<Rightarrow> sessionTimer" where
  "answered res named t =
    (let st = timer t in
     if \<not> active st then t
     else case parseSessionTimerOffer res of (offer, ok) \<Rightarrow>
       if \<not> ok then setLocked (st\<lparr>active := False\<rparr>) t
       else setLocked (st\<lparr>expires := secs (the (SE offer)),
           weRefresh := (if OfferRefresher offer = refresherUAC then True
             else if OfferRefresher offer = refresherUAS then False else named)\<rparr>) t)"

definition raiseMinSE :: "duration \<Rightarrow> sessionTimer \<Rightarrow> sessionTimer" where
  "raiseMinSE m t = t\<lparr>timer := (timer t)\<lparr>minSE := max (minSE (timer t)) m\<rparr>\<rparr>"

definition answerPeer :: "headerGetter \<Rightarrow> sessionTimer \<Rightarrow> header list \<times> sessionTimer" where
  "answerPeer req t =
    (let st = timer t in
     if \<not> active st then ([], t)
     else
       let (offer, ok) = parseSessionTimerOffer req;
           st1 = (if ok then st\<lparr>expires := secs (the (SE offer))\<rparr> else st);
           st2 = (case parseMinSE req of
                    Some m \<Rightarrow> st1\<lparr>minSE := max (minSE st1) (secs m)\<rparr> | None \<Rightarrow> st1);
           st3 = (if OfferRefresher offer = refresherUAC then st2\<lparr>weRefresh := False\<rparr>
                  else if OfferRefresher offer = refresherUAS then st2\<lparr>weRefresh := True\<rparr>
                  else if \<not> supportsTimer req then st2\<lparr>weRefresh := True\<rparr>
                  else st2);
           refresher = (if \<not> weRefresh st3 then refresherUAC else refresherUAS);
           hdrs = [(''Session-Expires'', secondsOf (expires st3) @ '';refresher='' @ refresher),
                   (''Supported'', ''timer'')]
       in (if refresher = refresherUAC then hdrs @ [(''Require'', ''timer'')] else hdrs, setLocked st3 t))"

section \<open>The loop that keeps the timer\<close>

datatype refreshOutcome = refreshGoesOn | refreshStopped | refreshEnded

definition dueOf :: "SessionTimerPolicy \<Rightarrow> sessionTimerState \<Rightarrow> bool \<Rightarrow> duration" where
  "dueOf p st refreshing =
    (if \<not> active st \<or> weRefresh st \<and> \<not> refreshing then 0
     else if weRefresh st then wall p (refreshCadence (expires st))
     else wall p (expires st + watchdogGrace p))"

text \<open>
  Where \<open>run\<close> is: before the check of \<open>changed\<close>, before the snapshot, in \<open>wait\<close> with the snapshot
  and the time it is due in, past a due time, inside \<open>refresh\<close>, or returned. A wait with no due
  time has no timer, so it never comes out due.
\<close>

datatype run_pc =
    RunSelect
  | RunSnapshot
  | RunWait sessionTimerState duration
  | RunDue sessionTimerState
  | RunRefreshing
  | RunReturned

record run_sys =
  st_timer :: sessionTimer
  refreshing :: bool
  pc :: run_pc

datatype run_label =
    SelectTop
  | Snapshot
  | wakeDone
  | wakeChanged
  | wakeDue
  | CallExpire sessionTimerState
  | CallRefresh sessionTimerState
  | RefreshReturns refreshOutcome
  | Answered headerGetter bool
  | AnswerPeer headerGetter
  | RaiseMinSE duration

inductive run_step :: "run_sys \<Rightarrow> run_label \<Rightarrow> run_sys \<Rightarrow> bool" where
  rs_select: "pc s = RunSelect \<Longrightarrow> run_step s SelectTop
    (s\<lparr>st_timer := (st_timer s)\<lparr>changed := False\<rparr>,
       refreshing := (changed (st_timer s) \<or> refreshing s), pc := RunSnapshot\<rparr>)"
| rs_snapshot: "pc s = RunSnapshot \<Longrightarrow> run_step s Snapshot
    (s\<lparr>pc := RunWait (timer (st_timer s)) (dueOf (policy (st_timer s)) (timer (st_timer s)) (refreshing s))\<rparr>)"
| rs_done: "pc s = RunWait st due \<Longrightarrow> run_step s wakeDone (s\<lparr>pc := RunReturned\<rparr>)"
| rs_changed: "pc s = RunWait st due \<Longrightarrow> changed (st_timer s) \<Longrightarrow> run_step s wakeChanged
    (s\<lparr>st_timer := (st_timer s)\<lparr>changed := False\<rparr>, refreshing := True, pc := RunSelect\<rparr>)"
| rs_due: "pc s = RunWait st due \<Longrightarrow> 0 < due \<Longrightarrow> run_step s wakeDue (s\<lparr>pc := RunDue st\<rparr>)"
| rs_expire: "pc s = RunDue st \<Longrightarrow> \<not> weRefresh st \<Longrightarrow>
    run_step s (CallExpire st) (s\<lparr>pc := RunReturned\<rparr>)"
| rs_refresh: "pc s = RunDue st \<Longrightarrow> weRefresh st \<Longrightarrow>
    run_step s (CallRefresh st) (s\<lparr>pc := RunRefreshing\<rparr>)"
| rs_goes_on: "pc s = RunRefreshing \<Longrightarrow>
    run_step s (RefreshReturns refreshGoesOn) (s\<lparr>pc := RunSelect\<rparr>)"
| rs_stopped: "pc s = RunRefreshing \<Longrightarrow>
    run_step s (RefreshReturns refreshStopped) (s\<lparr>refreshing := False, pc := RunSelect\<rparr>)"
| rs_ended: "pc s = RunRefreshing \<Longrightarrow>
    run_step s (RefreshReturns refreshEnded) (s\<lparr>pc := RunReturned\<rparr>)"
| rs_answered: "run_step s (Answered res named) (s\<lparr>st_timer := answered res named (st_timer s)\<rparr>)"
| rs_answer_peer: "run_step s (AnswerPeer req) (s\<lparr>st_timer := snd (answerPeer req (st_timer s))\<rparr>)"
| rs_raise: "run_step s (RaiseMinSE m) (s\<lparr>st_timer := raiseMinSE m (st_timer s)\<rparr>)"

definition run_init :: "run_sys \<Rightarrow> bool" where
  "run_init s \<longleftrightarrow> (\<exists>p st. st_timer s = newSessionTimer p st) \<and> refreshing s \<and> pc s = RunSelect"

section \<open>The loop waits on the state it has\<close>

text \<open>The states agree on all that decides what is due; a 422 may have raised the Min-SE.\<close>

definition sameDue :: "sessionTimerState \<Rightarrow> sessionTimerState \<Rightarrow> bool" where
  "sameDue a b \<longleftrightarrow> active a = active b \<and> expires a = expires b \<and> weRefresh a = weRefresh b"

definition run_inv :: "run_sys \<Rightarrow> bool" where
  "run_inv s \<longleftrightarrow> (case pc s of
     RunWait st due \<Rightarrow> due = dueOf (policy (st_timer s)) st (refreshing s)
       \<and> (changed (st_timer s) \<or> sameDue st (timer (st_timer s)))
   | RunDue st \<Rightarrow> active st \<and> (weRefresh st \<longrightarrow> refreshing s)
   | _ \<Rightarrow> True)"

lemma answered_signals:
  "policy (answered res named t) = policy t"
  "changed (answered res named t) \<or> answered res named t = t"
  by (auto simp: answered_def setLocked_def Let_def split: prod.split)

lemma answerPeer_signals:
  "policy (snd (answerPeer req t)) = policy t"
  "changed (snd (answerPeer req t)) \<or> snd (answerPeer req t) = t"
  by (auto simp: answerPeer_def setLocked_def Let_def split: prod.split)

lemma raiseMinSE_sameDue [simp]:
  "policy (raiseMinSE m t) = policy t" "changed (raiseMinSE m t) = changed t"
  "sameDue st (timer (raiseMinSE m t)) = sameDue st (timer t)"
  by (simp_all add: raiseMinSE_def sameDue_def)

lemma dueOf_pos: "0 < dueOf p st r \<Longrightarrow> active st \<and> (weRefresh st \<longrightarrow> r)"
  by (auto simp: dueOf_def split: if_splits)

lemma run_inv_step:
  assumes "run_inv s" "run_step s l t"
  shows "run_inv t"
  using assms(2)
proof cases
  case (rs_answered res named)
  then show ?thesis
    using assms(1) answered_signals [of res named "st_timer s"]
    by (auto simp: run_inv_def split: run_pc.split)
next
  case (rs_answer_peer req)
  then show ?thesis
    using assms(1) answerPeer_signals [of req "st_timer s"]
    by (auto simp: run_inv_def split: run_pc.split)
next
  case (rs_raise m)
  then show ?thesis using assms(1) by (auto simp: run_inv_def split: run_pc.split)
next
  case (rs_due st due)
  then show ?thesis using assms(1) dueOf_pos by (auto simp: run_inv_def)
qed (simp_all add: run_inv_def sameDue_def)

interpretation rts: transition_system run_init run_step run_inv
  by unfold_locales (simp add: run_init_def run_inv_def, rule run_inv_step)

section \<open>Headers that are read back\<close>

lemma secs_nonneg [simp]: "0 \<le> secs v"
  by (simp add: secs_def)

lemma secondsOf_secs: "secondsOf (secs v) = formatNat (unat v)"
  by (simp add: secondsOf_def secs_def FormatInt_def del: of_nat_unat)

lemma parseDeltaSeconds_formatNat: "parseDeltaSeconds (formatNat (unat v)) = Some v"
proof -
  have "unat v < 2 ^ LENGTH(32)" by (rule unsigned_less)
  then show ?thesis using ParseUint_formatNat [of "unat v" 32] by (simp add: parseDeltaSeconds_def)
qed

lemma secs_less_iff: "secs a < secs b \<longleftrightarrow> unat a < unat b"
  by (simp add: secs_def del: of_nat_unat)

lemma secs_max: "max (secs a) (secs b) = secs (max a b)"
  by (simp add: max_def not_less [symmetric] secs_less_iff word_less_nat_alt)

definition wholeSecs :: "duration \<Rightarrow> bool" where
  "wholeSecs d \<longleftrightarrow> (\<exists>v. d = secs v)"

definition refresherToken :: "string \<Rightarrow> bool" where
  "refresherToken r \<longleftrightarrow> r = refresherUAC \<or> r = refresherUAS"

lemma offerParam_refresher:
  assumes "refresherToken r"
  shows "offerParam (''refresher='' @ r) offer = offer\<lparr>OfferRefresher := r\<rparr>"
proof -
  have "Cut (CHR ''='') (''refresher'' @ CHR ''='' # r) = (''refresher'', r, True)"
    by (rule Cut_append) simp
  moreover have "TrimSpace r = r" "ToLower r = r" "TrimSpace ''refresher'' = ''refresher''"
    using assms by (auto simp: refresherToken_def refresherUAC_def refresherUAS_def TrimSpace_def isSpace_def
        ToLower_def toLowerChar_def)
  ultimately show ?thesis by (simp add: offerParam_def EqualFold_def)
qed

lemma Split_refresher:
  assumes "refresherToken r"
  shows "Split (CHR '';'') (''refresher='' @ r) = [''refresher='' @ r]"
  using assms by (intro Split_single) (auto simp: refresherToken_def refresherUAC_def refresherUAS_def)

text \<open>
  A Session-Expires value the timer writes is read back as the interval and the refresher it
  names, whatever else the message carries.
\<close>

lemma parse_own_offer:
  assumes "GetHeader msg ''Session-Expires'' = Some (secondsOf (secs v) @ '';refresher='' @ r)"
    "refresherToken r"
  shows "parseSessionTimerOffer msg
    = (\<lparr>SE = Some v, OfferMinSE = parseMinSE msg, OfferRefresher = r\<rparr>, True)"
proof -
  have "Cut (CHR '';'') (formatNat (unat v) @ CHR '';'' # ''refresher='' @ r)
      = (formatNat (unat v), ''refresher='' @ r, True)"
    by (rule Cut_append) (simp add: formatNat_not_in isDigit_def)
  then have c: "Cut (CHR '';'') (secondsOf (secs v) @ '';refresher='' @ r)
      = (formatNat (unat v), ''refresher='' @ r, True)"
    by (simp add: secondsOf_secs)
  have "offerParam (CHR ''r'' # CHR ''e'' # CHR ''f'' # CHR ''r'' # CHR ''e'' # CHR ''s'' # CHR ''h'' # CHR ''e''
      # CHR ''r'' # CHR ''='' # r) offer = offer\<lparr>OfferRefresher := r\<rparr>" for offer
    using offerParam_refresher [OF assms(2)] by simp
  then show ?thesis
    using assms(1) c Split_refresher [OF assms(2)]
    by (simp add: parseSessionTimerOffer_def parseDeltaSeconds_formatNat zeroOffer_def Let_def split: option.split)
qed

section \<open>Properties\<close>

text \<open>
  A message carries the given session-timer headers: looking one of their names up finds the first
  value under it, and a name not among them is not found. The message may carry any other header.
\<close>

definition carries :: "headerGetter \<Rightarrow> header list \<Rightarrow> bool" where
  "carries msg hdrs \<longleftrightarrow>
    (\<forall>name \<in> {''Session-Expires'', ''x'', ''Min-SE'', ''Supported'', ''k''}.
       GetHeader msg name = map_of hdrs name
       \<and> GetHeaders msg name = map snd (filter (\<lambda>h. fst h = name) hdrs))"

definition ofHeaders :: "header list \<Rightarrow> headerGetter" where
  "ofHeaders hdrs = \<lparr>GetHeader = map_of hdrs,
     GetHeaders = (\<lambda>name. map snd (filter (\<lambda>h. fst h = name) hdrs))\<rparr>"

lemma carries_ofHeaders [simp]: "carries (ofHeaders hdrs) hdrs"
  by (simp add: carries_def ofHeaders_def)

lemma requestHeaders_offer:
  assumes "carries msg (fst (requestHeaders t))" "active (timer t)"
    "expires (timer t) = secs e" "minSE (timer t) = secs m"
  shows "parseSessionTimerOffer msg = (\<lparr>SE = Some (max m e), OfferMinSE = parseMinSE msg,
      OfferRefresher = (if weRefresh (timer t) then refresherUAC else refresherUAS)\<rparr>, True)"
    "parseMinSE msg = (if m = 0 then None else Some m)"
proof -
  have f: "Cut (CHR '';'') (formatNat n) = (formatNat n, [], False)" for n
    by (rule Cut_none) (simp add: formatNat_not_in isDigit_def)
  have pos: "secs m > 0 \<longleftrightarrow> m \<noteq> 0" by (simp add: secs_def unat_gt_0 del: of_nat_unat)
  have "GetHeader msg ''Session-Expires'' = Some (secondsOf (secs (max m e)) @ '';refresher=''
      @ (if weRefresh (timer t) then refresherUAC else refresherUAS))"
    using assms by (auto simp: carries_def requestHeaders_def Let_def secs_max)
  then show "parseSessionTimerOffer msg = (\<lparr>SE = Some (max m e), OfferMinSE = parseMinSE msg,
      OfferRefresher = (if weRefresh (timer t) then refresherUAC else refresherUAS)\<rparr>, True)"
    by (rule parse_own_offer) (simp add: refresherToken_def)
  show "parseMinSE msg = (if m = 0 then None else Some m)"
    using assms pos
    by (auto simp: carries_def requestHeaders_def Let_def parseMinSE_def secondsOf_secs f
        parseDeltaSeconds_formatNat)
qed

lemma answerPeer_named:
  assumes "active (timer b)"
    "parseSessionTimerOffer req = (\<lparr>SE = Some v, OfferMinSE = mo, OfferRefresher = r\<rparr>, True)"
    "refresherToken r"
  shows "expires (timer (snd (answerPeer req b))) = secs v"
    "weRefresh (timer (snd (answerPeer req b))) \<longleftrightarrow> r = refresherUAS"
    "active (timer (snd (answerPeer req b)))"
    "map_of (fst (answerPeer req b)) ''Session-Expires'' = Some (secondsOf (secs v) @ '';refresher='' @ r)"
proof -
  have ne: "refresherUAS \<noteq> refresherUAC" by (simp add: refresherUAS_def refresherUAC_def)
  have "expires (timer (snd (answerPeer req b))) = secs v
      \<and> (weRefresh (timer (snd (answerPeer req b))) \<longleftrightarrow> r = refresherUAS)
      \<and> active (timer (snd (answerPeer req b)))
      \<and> map_of (fst (answerPeer req b)) ''Session-Expires'' = Some (secondsOf (secs v) @ '';refresher='' @ r)"
    using assms ne by (cases "parseMinSE req")
      (auto simp: answerPeer_def setLocked_def Let_def refresherToken_def)
  then show "expires (timer (snd (answerPeer req b))) = secs v"
    "weRefresh (timer (snd (answerPeer req b))) \<longleftrightarrow> r = refresherUAS"
    "active (timer (snd (answerPeer req b)))"
    "map_of (fst (answerPeer req b)) ''Session-Expires'' = Some (secondsOf (secs v) @ '';refresher='' @ r)"
    by blast+
qed

text \<open>
  C7. The two ends of a session refresh agree: when one end sends a re-INVITE with the headers of
  \<open>requestHeaders\<close>, the other answers it with \<open>answerPeer\<close>, and the first takes the 2xx with
  \<open>answered\<close>, both have the same session interval, the larger of the first end's interval and the
  largest Min-SE it has seen; exactly one of them refreshes; and it is the one that did before.
\<close>

theorem session_refresh_agreement:
  assumes "active (timer a)" "active (timer b)" "expires (timer a) = secs e" "minSE (timer a) = secs m"
    "carries req (fst (requestHeaders a))" "answerPeer req b = (hdrs, b')" "carries res hdrs"
    "a' = answered res (snd (requestHeaders a)) a"
  shows "expires (timer a') = max (secs m) (secs e) \<and> expires (timer b') = expires (timer a')
    \<and> weRefresh (timer a') = weRefresh (timer a) \<and> weRefresh (timer b') = (\<not> weRefresh (timer a'))
    \<and> active (timer a') \<and> active (timer b')"
proof -
  let ?r = "if weRefresh (timer a) then refresherUAC else refresherUAS"
  have ne: "refresherUAS \<noteq> refresherUAC" by (simp add: refresherUAS_def refresherUAC_def)
  have r: "refresherToken ?r" by (simp add: refresherToken_def)
  note req = requestHeaders_offer(1) [OF assms(5,1,3,4)]
  note b' = answerPeer_named [OF assms(2) req r]
  have "GetHeader res ''Session-Expires'' = Some (secondsOf (secs (max m e)) @ '';refresher='' @ ?r)"
    using assms(6,7) b'(4) by (simp add: carries_def)
  note res = parse_own_offer [OF this r]
  show ?thesis
    using b'(1-3) assms(1,6,8) res ne by (auto simp: answered_def setLocked_def secs_max Let_def split: if_splits)
qed

definition exPolicy :: SessionTimerPolicy where
  "exPolicy = \<lparr>Enabled = True, DefaultSE = 0, MinSE = 0, PreferUASRefresher = False, WatchdogGrace = 0, clock = 0\<rparr>"

definition exTimer :: "u32 \<Rightarrow> u32 \<Rightarrow> bool \<Rightarrow> sessionTimer" where
  "exTimer e m w = newSessionTimer exPolicy \<lparr>active = True, expires = secs e, weRefresh = w, minSE = secs m\<rparr>"

theorem session_refresh_agreement_witness:
  "\<exists>b'. snd (answerPeer (ofHeaders (fst (requestHeaders (exTimer 600 900 True)))) (exTimer 600 90 False)) = b'
    \<and> expires (timer b') = secs 900 \<and> \<not> weRefresh (timer b')"
proof -
  let ?a = "exTimer 600 900 True" and ?b = "exTimer 600 90 False"
  let ?req = "ofHeaders (fst (requestHeaders ?a))"
  obtain hdrs b' where p: "answerPeer ?req ?b = (hdrs, b')" by (meson surj_pair)
  have t: "active (timer (exTimer e m w))" "expires (timer (exTimer e m w)) = secs e"
    "minSE (timer (exTimer e m w)) = secs m" "weRefresh (timer (exTimer e m w)) = w" for e m w
    by (simp_all add: exTimer_def newSessionTimer_def)
  note session_refresh_agreement [OF t(1,1,2,3) carries_ofHeaders p carries_ofHeaders refl]
  then show ?thesis by (simp add: p t secs_max)
qed

text \<open>
  The session-timer loop does only what is due: in every run of \<open>run\<close> interleaved with the 2xx
  responses and 422s of the dialog, \<open>expire\<close> is called only on an active timer whose peer is the
  refresher, and \<open>refresh\<close> only on an active timer we refresh and whose last refresh did not stop.
\<close>

theorem session_timer_calls:
  assumes "run_init s" "exec run_step s ls t" "run_step t l u"
  shows "(l = CallExpire st \<longrightarrow> active st \<and> \<not> weRefresh st)
    \<and> (l = CallRefresh st \<longrightarrow> active st \<and> weRefresh st \<and> refreshing t)"
  using rts.inv_reachable [OF assms(1,2)] assms(3) by (auto simp: run_inv_def elim!: run_step.cases)

definition exRun :: "run_pc \<Rightarrow> run_sys" where
  "exRun p = \<lparr>st_timer = exTimer 600 90 True, refreshing = True, pc = p\<rparr>"

abbreviation exState :: sessionTimerState where
  "exState \<equiv> timer (exTimer 600 90 True)"

abbreviation exDue :: duration where
  "exDue \<equiv> dueOf exPolicy exState True"

lemma exDue_pos: "0 < exDue"
  by (simp add: dueOf_def exTimer_def newSessionTimer_def wall_def exPolicy_def refreshCadence_def
      minRefreshInterval_def defaultMinSE_def)

lemma exRun_init: "run_init (exRun RunSelect)"
  by (auto simp: run_init_def exRun_def exTimer_def)

lemma exRun_waits: "exec run_step (exRun RunSelect) [SelectTop, Snapshot] (exRun (RunWait exState exDue))"
proof -
  have 1: "run_step (exRun RunSelect) SelectTop (exRun RunSnapshot)"
    using rs_select [of "exRun RunSelect"] by (simp add: exRun_def exTimer_def newSessionTimer_def)
  have 2: "run_step (exRun RunSnapshot) Snapshot (exRun (RunWait exState exDue))"
    using rs_snapshot [of "exRun RunSnapshot"] by (simp add: exRun_def exTimer_def newSessionTimer_def)
  show ?thesis using 1 2 by (rule exec_two)
qed

lemma exRun_due: "exec run_step (exRun RunSelect) [SelectTop, Snapshot, wakeDue] (exRun (RunDue exState))"
proof -
  have "run_step (exRun (RunWait exState exDue)) wakeDue (exRun (RunDue exState))"
    using rs_due [of "exRun (RunWait exState exDue)" exState exDue] exDue_pos by (simp add: exRun_def)
  then show ?thesis using exec_snoc [of run_step, OF exRun_waits] by simp
qed

theorem session_timer_calls_witness:
  "run_step (exRun (RunDue exState)) (CallRefresh exState) (exRun RunRefreshing) \<and> active exState"
proof -
  have s: "run_step (exRun (RunDue exState)) (CallRefresh exState) (exRun RunRefreshing)"
    using rs_refresh [of "exRun (RunDue exState)" exState] by (simp add: exRun_def exTimer_def newSessionTimer_def)
  show ?thesis using session_timer_calls [OF exRun_init exRun_due s, of exState] s by simp
qed

text \<open>
  C37. No change of the timer is missed: whenever the loop is in \<open>wait\<close> and no signal is pending, the
  state it took its snapshot of agrees with the current one on everything that decides what is due,
  and the due time is that of the current state.
\<close>

theorem session_timer_no_lost_change:
  assumes "run_init s" "exec run_step s ls t" "pc t = RunWait st due" "\<not> changed (st_timer t)"
  shows "sameDue st (timer (st_timer t))
    \<and> due = dueOf (policy (st_timer t)) (timer (st_timer t)) (refreshing t)"
  using rts.inv_reachable [OF assms(1,2)] assms(3,4) by (auto simp: run_inv_def sameDue_def dueOf_def)

theorem session_timer_no_lost_change_witness: "sameDue exState exState \<and> 0 < exDue"
  using session_timer_no_lost_change [OF exRun_init exRun_waits, of exState exDue] exDue_pos
  by (simp add: exRun_def exTimer_def newSessionTimer_def)

section \<open>Negotiation\<close>

definition floorOf :: "u32 option \<Rightarrow> SessionTimerPolicy \<Rightarrow> duration" where
  "floorOf offeredMinSE p =
    max (if MinSE p \<le> 0 then defaultMinSE else MinSE p) (case offeredMinSE of None \<Rightarrow> 0 | Some m \<Rightarrow> secs m)"

text \<open>
  What \<open>negotiate\<close> decides: the interval is the peer's offer, or the policy's default without
  one, raised to the larger of the two minima and never below either; an offer is reported for a
  422 exactly when it is below that floor; a refresher the peer names is honoured; and with our
  minimum at the RFC's 90 seconds or more, the refresh cadence is positive and at most half of the
  interval, so the session is refreshed before it expires.
\<close>

theorem negotiate_spec:
  assumes "MinSE p \<le> 0 \<or> defaultMinSE \<le> MinSE p"
  shows "Negotiated (negotiate se m r p role)
      = max (floorOf m p) (case se of Some v \<Rightarrow> secs v
          | None \<Rightarrow> if DefaultSE p \<le> 0 then defaultSessionExpires else DefaultSE p)
    \<and> (BelowFloor (negotiate se m r p role) \<longleftrightarrow> (\<exists>v. se = Some v \<and> secs v < floorOf m p))
    \<and> (r \<noteq> [] \<longrightarrow> Refresher (negotiate se m r p role) = r)
    \<and> (WeRefresh (negotiate se m r p role) \<longrightarrow> Refresher (negotiate se m r p role) = role)
    \<and> 0 < Interval (negotiate se m r p role)
    \<and> 2 * Interval (negotiate se m r p role) \<le> Negotiated (negotiate se m r p role)"
proof -
  have "floorOf m p = (case m of None \<Rightarrow> (if MinSE p \<le> 0 then defaultMinSE else MinSE p)
      | Some v \<Rightarrow> if secs v > (if MinSE p \<le> 0 then defaultMinSE else MinSE p) then secs v
                  else (if MinSE p \<le> 0 then defaultMinSE else MinSE p))"
    by (auto simp: floorOf_def max_def defaultMinSE_def split: option.split)
  then have n: "negotiate se m r p role = \<lparr>Negotiated = max (floorOf m p) (case se of Some v \<Rightarrow> secs v
          | None \<Rightarrow> if DefaultSE p \<le> 0 then defaultSessionExpires else DefaultSE p),
      Interval = refreshCadence (max (floorOf m p) (case se of Some v \<Rightarrow> secs v
          | None \<Rightarrow> if DefaultSE p \<le> 0 then defaultSessionExpires else DefaultSE p)),
      Refresher = (if r = [] \<and> PreferUASRefresher p then refresherUAS else r),
      BelowFloor = (case se of Some v \<Rightarrow> secs v < floorOf m p | None \<Rightarrow> False),
      WeRefresh = ((if r = [] \<and> PreferUASRefresher p then refresherUAS else r) \<noteq> []
        \<and> (if r = [] \<and> PreferUASRefresher p then refresherUAS else r) = role)\<rparr>"
    by (auto simp: negotiate_def Let_def max_def split: option.split)
  have c: "0 < refreshCadence d \<and> 2 * refreshCadence d \<le> d" if "defaultMinSE \<le> d" for d
    using that by (simp add: refreshCadence_def minRefreshInterval_def defaultMinSE_def) linarith
  have "defaultMinSE \<le> floorOf m p" using assms by (auto simp: floorOf_def)
  then show ?thesis using c by (auto simp: n split: option.split)
qed

theorem negotiate_spec_witness:
  "Negotiated (negotiate (Some 60) (Some 120) ''uac'' exPolicy ''uas'') = secs 120
    \<and> BelowFloor (negotiate (Some 60) (Some 120) ''uac'' exPolicy ''uas'')"
  using negotiate_spec [of exPolicy "Some 60" "Some 120" "''uac''" "''uas''"]
  by (simp add: exPolicy_def floorOf_def secs_def defaultMinSE_def)

end
