(* ===== verification/Sdp.thy ===== *)
theory Sdp
  imports Go_Net Codec
begin

text \<open>
  \<open>media/sdp/sdp.go\<close> and \<open>media/sdp/utils.go\<close>: reading an SDP body line by line into its
  session-level lines and its media sections, the description of one stream, the values read from
  it, and the minimal audio body the package writes. A description is the function from a line type
  to the values of its lines in order; a type without lines has none.
\<close>

section \<open>Errors and data\<close>

datatype sdp_error =
    ErrNotTypeValue string | ErrMediaFields | ErrMediaSection nat sdp_error | ErrManyMedia string
  | ErrMediaNotFound string | ErrManyMediaLines | ErrNoConnection | ErrConnectionFields string
  | ErrNotIP4 string | ErrNotIP6 string | ErrNoSession | ErrSessionFields | ErrSessionNumber string

definition ModeRecvonly :: string where "ModeRecvonly = ''recvonly''"
definition ModeSendrecv :: string where "ModeSendrecv = ''sendrecv''"
definition ModeSendonly :: string where "ModeSendonly = ''sendonly''"
definition ModeInactive :: string where "ModeInactive = ''inactive''"

type_synonym SessionDescription = "string \<Rightarrow> string list"

definition Values :: "SessionDescription \<Rightarrow> string \<Rightarrow> string list" where
  "Values sd key = sd key"

definition sdpValue :: "SessionDescription \<Rightarrow> string \<Rightarrow> string" where
  "sdpValue sd key = (case sd key of [] \<Rightarrow> [] | v # vs \<Rightarrow> v)"

record MediaDescription =
  MediaType :: string
  MPort :: int
  PortNumbers :: int
  Proto :: string
  Formats :: "string list"

definition zeroMediaDescription :: MediaDescription where
  "zeroMediaDescription = \<lparr>MediaType = [], MPort = 0, PortNumbers = 0, Proto = [], Formats = []\<rparr>"

definition mdString :: "MediaDescription \<Rightarrow> string" where
  "mdString m =
    (let ports = FormatInt (MPort m) @ (if PortNumbers m > 0 then CHR ''/'' # FormatInt (PortNumbers m) else [])
     in ''m='' @ MediaType m @ '' '' @ ports @ '' '' @ Proto m @ '' '' @ Join (Formats m) '' '')"

section \<open>Media lines\<close>

definition parseMediaLine :: "string \<Rightarrow> sdp_error + MediaDescription" where
  "parseMediaLine v =
    (let fields = Fields v in
     if length fields < 4 then Inl ErrMediaFields
     else
       let ports = Split (CHR ''/'') (fields ! 1) in
       Inr \<lparr>MediaType = fields ! 0, MPort = fst (AtoiValue (ports ! 0)),
         PortNumbers = (if length ports > 1 then fst (AtoiValue (ports ! 1)) else 0),
         Proto = fields ! 2, Formats = drop 3 fields\<rparr>)"

definition mediaDescription :: "SessionDescription \<Rightarrow> string \<Rightarrow> sdp_error + MediaDescription" where
  "mediaDescription sd mediaType =
    (let values = Values sd ''m'' in
     if length values > 1 then Inl (ErrManyMedia mediaType)
     else case List.find (\<lambda>val. case Cut (CHR '' '') val of
           (media, _, found) \<Rightarrow> found \<and> media \<noteq> [] \<and> media = mediaType) values of
         None \<Rightarrow> Inl (ErrMediaNotFound mediaType)
       | Some v \<Rightarrow> parseMediaLine v)"

section \<open>Connection and session information\<close>

record ConnectionInformation =
  NetworkType :: string
  AddressType :: string
  CIP :: ip
  TTL :: int
  Range :: int

definition connectionInformation :: "SessionDescription \<Rightarrow> sdp_error + ConnectionInformation" where
  "connectionInformation sd =
    (if length (Values sd ''m'') > 1 then Inl ErrManyMediaLines
     else if Values sd ''c'' = [] then Inl ErrNoConnection
     else
       let v = last (Values sd ''c''); fields = Fields v in
       if length fields < 3 then Inl (ErrConnectionFields v)
       else
         let addr = Split (CHR ''/'') (fields ! 2);
             ip0 = ParseIP (addr ! 0);
             ip1 = (if fields ! 1 = ''IP4'' then To4 ip0 else if fields ! 1 = ''IP6'' then To16 ip0 else ip0)
         in if fields ! 1 = ''IP4'' \<and> ip1 = [] then Inl (ErrNotIP4 v)
            else if fields ! 1 = ''IP6'' \<and> ip1 = [] then Inl (ErrNotIP6 v)
            else Inr \<lparr>NetworkType = fields ! 0, AddressType = fields ! 1, CIP = ip1,
              TTL = (if length addr > 1 then fst (AtoiValue (addr ! 1)) else 0),
              Range = (if length addr > 2 then fst (AtoiValue (addr ! 2)) else 0)\<rparr>)"

record SessionInformation =
  Origin :: string
  SessionID :: u64
  SessionVersion :: u64
  SINetworkType :: string
  SIAddressType :: string
  Address :: string

definition sessionInformation :: "SessionDescription \<Rightarrow> sdp_error + SessionInformation" where
  "sessionInformation sd =
    (let v = sdpValue sd ''o''; fields = Fields v in
     if v = [] then Inl ErrNoSession
     else if length fields < 6 then Inl ErrSessionFields
     else case ParseUint 64 (fields ! 1) of
         None \<Rightarrow> Inl (ErrSessionNumber (fields ! 1))
       | Some sid \<Rightarrow> (case ParseUint 64 (fields ! 2) of
             None \<Rightarrow> Inl (ErrSessionNumber (fields ! 2))
           | Some ver \<Rightarrow> Inr \<lparr>Origin = fields ! 0, SessionID = of_nat sid, SessionVersion = of_nat ver,
               SINetworkType = fields ! 3, SIAddressType = fields ! 4, Address = fields ! 5\<rparr>))"

definition MediaDirection :: "SessionDescription \<Rightarrow> string" where
  "MediaDirection sd = foldl (\<lambda>mode v.
     if v \<in> {ModeSendrecv, ModeSendonly, ModeRecvonly, ModeInactive} then v else mode)
     ModeSendrecv (Values sd ''a'')"

section \<open>Reading a body\<close>

text \<open>
  \<open>nextLine\<close> takes the text up to the next line feed without the carriage return before it. At the
  end of the body \<open>ReadString\<close> returns what is left with \<open>io.EOF\<close>, which is \<^term>\<open>None\<close>: the caller
  stops there and does not look at it.
\<close>

definition nextLine :: "string \<Rightarrow> (string \<times> string) option" where
  "nextLine s = (case Cut (CHR 0x0A) s of (line, rest, found) \<Rightarrow>
     if \<not> found then None
     else Some (if line \<noteq> [] \<and> last line = CHR 0x0D then butlast line else line, rest))"

lemma nextLine_shorter: "nextLine s = Some (l, r) \<Longrightarrow> length r < length s"
proof -
  assume "nextLine s = Some (l, r)"
  then have c: "CHR 0x0A \<in> set s" and r: "r = tl (dropWhile (\<lambda>x. x \<noteq> CHR 0x0A) s)"
    by (auto simp: nextLine_def Cut_def split: if_splits)
  have "dropWhile (\<lambda>x. x \<noteq> CHR 0x0A) s \<noteq> []" using c by (auto simp: dropWhile_eq_Nil_conv)
  then show "length r < length s"
    using length_dropWhile_le [of "\<lambda>x. x \<noteq> CHR 0x0A" s] unfolding r by (cases "dropWhile (\<lambda>x. x \<noteq> CHR 0x0A) s") simp_all
qed

text \<open>\<open>readLines\<close> with the state its callback changes; an error leaves the state reached.\<close>

function readLines ::
  "(string \<Rightarrow> string \<Rightarrow> 's \<Rightarrow> sdp_error option \<times> 's) \<Rightarrow> string \<Rightarrow> 's \<Rightarrow> sdp_error option \<times> 's" where
  "readLines line data s = (case nextLine data of
     None \<Rightarrow> (None, s)
   | Some (l, rest) \<Rightarrow>
       if length l < 2 then readLines line rest s
       else (case Cut (CHR ''='') l of (key, val, found) \<Rightarrow>
         if \<not> found \<or> key = [] then (Some (ErrNotTypeValue l), s)
         else (case line key val s of
             (Some e, s') \<Rightarrow> (Some e, s')
           | (None, s') \<Rightarrow> readLines line rest s')))"
  by auto
termination by (relation "measure (\<lambda>(line, data, s). length data)") (auto dest: nextLine_shorter)

declare readLines.simps [simp del]

definition addValue :: "string \<Rightarrow> string \<Rightarrow> SessionDescription \<Rightarrow> SessionDescription" where
  "addValue key val sd = sd(key := sd key @ [val])"

definition Unmarshal :: "string \<Rightarrow> SessionDescription \<Rightarrow> sdp_error option \<times> SessionDescription" where
  "Unmarshal data sd = readLines (\<lambda>key val sd. (None, addValue key val sd)) data sd"

record Line =
  LType :: string
  LValue :: string

record MediaSection =
  Media :: MediaDescription
  Lines :: "Line list"

record Sections =
  Session :: "Line list"
  SMedia :: "MediaSection list"

definition zeroSections :: Sections where
  "zeroSections = \<lparr>Session = [], SMedia = []\<rparr>"

definition sectionLine :: "string \<Rightarrow> string \<Rightarrow> Sections \<Rightarrow> sdp_error option \<times> Sections" where
  "sectionLine key val s =
    (let l = \<lparr>LType = key, LValue = val\<rparr> in
     if key = ''m'' then (case parseMediaLine val of
         Inl e \<Rightarrow> (Some (ErrMediaSection (length (SMedia s)) e), s)
       | Inr md \<Rightarrow> (None, s\<lparr>SMedia := SMedia s @ [\<lparr>Media = md, Lines = [l]\<rparr>]\<rparr>))
     else if SMedia s \<noteq> [] then
       (None, s\<lparr>SMedia := butlast (SMedia s) @ [(last (SMedia s))\<lparr>Lines := Lines (last (SMedia s)) @ [l]\<rparr>]\<rparr>)
     else (None, s\<lparr>Session := Session s @ [l]\<rparr>))"

definition UnmarshalSections :: "string \<Rightarrow> sdp_error option \<times> Sections" where
  "UnmarshalSections data = readLines sectionLine data zeroSections"

definition addLine :: "Line \<Rightarrow> SessionDescription \<Rightarrow> SessionDescription" where
  "addLine l sd = addValue (LType l) (LValue l) sd"

text \<open>An index past the last section panics, which is \<^term>\<open>None\<close>.\<close>

definition Description :: "Sections \<Rightarrow> nat \<Rightarrow> SessionDescription option" where
  "Description s i = (if i < length (SMedia s)
     then Some (fold addLine (Session s @ Lines (SMedia s ! i)) (\<lambda>_. [])) else None)"

section \<open>Writing a minimal body\<close>

definition sdpNTPTimestamp :: "int \<Rightarrow> u64" where
  "sdpNTPTimestamp unix = of_int (unix + 2208988800)"

definition CRLF :: string where
  "CRLF = [CHR 0x0D, CHR 0x0A]"

definition formatAttrs :: "string \<Rightarrow> string list" where
  "formatAttrs f =
    (if f = FORMAT_TYPE_ULAW then [''a=rtpmap:0 PCMU/8000'']
     else if f = FORMAT_TYPE_ALAW then [''a=rtpmap:8 PCMA/8000'']
     else if f = FORMAT_TYPE_G722 then [''a=rtpmap:9 G722/8000'']
     else if f = FORMAT_TYPE_OPUS then [''a=rtpmap:96 opus/48000/2'', ''a=fmtp:96 useinbandfec=0'']
     else if f = FORMAT_TYPE_TELEPHONE_EVENT then [''a=rtpmap:101 telephone-event/8000'', ''a=fmtp:101 0-16'']
     else [])"

definition audioBody :: "u64 \<Rightarrow> ip \<Rightarrow> ip \<Rightarrow> int \<Rightarrow> string \<Rightarrow> string list \<Rightarrow> string list" where
  "audioBody ntpTime originIP connectionIP rtpPort mode fmts =
    [''v=0'',
     ''o=- '' @ formatNat (unat ntpTime) @ '' '' @ formatNat (unat ntpTime) @ '' IN IP4 '' @ ipString originIP,
     ''s=Sip Go Media'',
     ''c=IN IP4 '' @ ipString connectionIP,
     ''t=0 0'',
     ''m=audio '' @ FormatInt rtpPort @ '' RTP/AVP '' @ Join fmts '' '']
    @ concat (map formatAttrs fmts) @ [''a=ptime:20'', ''a=maxptime:20'', ''a='' @ mode]"

text \<open>\<open>unix\<close> is the clock, \<open>time.Now().Unix()\<close>.\<close>

definition GenerateForAudio :: "int \<Rightarrow> ip \<Rightarrow> ip \<Rightarrow> int \<Rightarrow> string \<Rightarrow> string list \<Rightarrow> string" where
  "GenerateForAudio unix originIP connectionIP rtpPort mode fmts =
    Join (audioBody (sdpNTPTimestamp unix) originIP connectionIP rtpPort mode fmts) CRLF @ CRLF"

section \<open>Reading what was written\<close>

text \<open>The lines of a body, each ended by a carriage return and a line feed.\<close>

definition lineText :: "Line \<Rightarrow> string" where
  "lineText l = LType l @ CHR ''='' # LValue l"

definition bodyText :: "Line list \<Rightarrow> string" where
  "bodyText ls = concat (map (\<lambda>l. lineText l @ CRLF) ls)"

definition wfLine :: "Line \<Rightarrow> bool" where
  "wfLine l \<longleftrightarrow> LType l \<noteq> [] \<and> CHR ''='' \<notin> set (LType l) \<and> CHR 0x0A \<notin> set (LType l) \<and> CHR 0x0A \<notin> set (LValue l)"

fun applyLines ::
  "(string \<Rightarrow> string \<Rightarrow> 's \<Rightarrow> sdp_error option \<times> 's) \<Rightarrow> Line list \<Rightarrow> 's \<Rightarrow> sdp_error option \<times> 's" where
  "applyLines line [] s = (None, s)"
| "applyLines line (l # ls) s = (case line (LType l) (LValue l) s of
     (Some e, s') \<Rightarrow> (Some e, s') | (None, s') \<Rightarrow> applyLines line ls s')"

lemma nextLine_CRLF: "CHR 0x0A \<notin> set l \<Longrightarrow> nextLine (l @ CRLF @ r) = Some (l, r)"
  using Cut_append [of "CHR 0x0A" "l @ [CHR 0x0D]" r] by (simp add: nextLine_def CRLF_def)

lemma readLines_body:
  "\<forall>l \<in> set ls. wfLine l \<Longrightarrow> readLines line (bodyText ls) s = applyLines line ls s"
proof (induction ls arbitrary: s)
  case Nil
  then show ?case by (simp add: readLines.simps bodyText_def nextLine_def Cut_def)
next
  case (Cons l ls)
  have n: "nextLine (bodyText (l # ls)) = Some (lineText l, bodyText ls)"
    using Cons.prems nextLine_CRLF [of "lineText l" "bodyText ls"]
    by (simp add: bodyText_def wfLine_def lineText_def)
  have c: "Cut (CHR ''='') (lineText l) = (LType l, LValue l, True)"
    using Cons.prems by (simp add: lineText_def wfLine_def Cut_append)
  have "\<not> length (lineText l) < 2" "LType l \<noteq> []"
    using Cons.prems by (cases "LType l"; simp add: lineText_def wfLine_def)+
  then show ?case
    using Cons by (subst readLines.simps) (simp add: n c split: prod.split option.split)
qed

lemma Join_CRLF: "ls \<noteq> [] \<Longrightarrow> Join ls CRLF @ CRLF = concat (map (\<lambda>l. l @ CRLF) ls)"
  by (induction ls CRLF rule: Join.induct) simp_all

text \<open>Every line handed on is well formed, so what holds for such lines holds at the end.\<close>

lemma nextLine_no_LF: "nextLine s = Some (l, r) \<Longrightarrow> CHR 0x0A \<notin> set l"
  by (auto simp: nextLine_def Cut_def dest: set_takeWhileD in_set_butlastD split: if_splits)

lemma readLines_inv:
  assumes step: "\<And>k v s e s'. wfLine \<lparr>LType = k, LValue = v\<rparr> \<Longrightarrow> P s \<Longrightarrow> line k v s = (e, s') \<Longrightarrow> P s'"
    and "P s"
  shows "P (snd (readLines line data s))"
  using assms(2)
proof (induction "length data" arbitrary: data s rule: less_induct)
  case less
  show ?case
  proof (cases "nextLine data")
    case None
    then show ?thesis using less.prems by (simp add: readLines.simps)
  next
    case (Some lr)
    obtain l rest where lr: "lr = (l, rest)" by fastforce
    have IH: "P s' \<Longrightarrow> P (snd (readLines line rest s'))" for s'
      using less.hyps nextLine_shorter Some lr by blast
    obtain key val found where cut: "Cut (CHR ''='') l = (key, val, found)" by (metis surj_pair)
    obtain e s' where st: "line key val s = (e, s')" by fastforce
    show ?thesis
    proof (cases "length l < 2 \<or> \<not> found \<or> key = []")
      case True
      then show ?thesis using less.prems IH Some lr cut by (subst readLines.simps) auto
    next
      case False
      have "CHR 0x0A \<notin> set l" using nextLine_no_LF Some lr by blast
      then have "wfLine \<lparr>LType = key, LValue = val\<rparr>"
        using False cut Cut_found [of "CHR ''=''" l key val] by (auto simp: wfLine_def)
      then have "P s'" using step less.prems st by blast
      then show ?thesis using False IH Some lr cut st by (subst readLines.simps) (simp split: option.split)
    qed
  qed
qed

subsection \<open>Sections\<close>

definition wfSection :: "MediaSection \<Rightarrow> bool" where
  "wfSection sec \<longleftrightarrow> (\<forall>l \<in> set (Lines sec). wfLine l)
     \<and> (\<exists>v ls. Lines sec = \<lparr>LType = ''m'', LValue = v\<rparr> # ls \<and> parseMediaLine v = Inr (Media sec)
          \<and> (\<forall>l \<in> set ls. LType l \<noteq> ''m''))"

definition wfSections :: "Sections \<Rightarrow> bool" where
  "wfSections s \<longleftrightarrow> (\<forall>l \<in> set (Session s). wfLine l \<and> LType l \<noteq> ''m'') \<and> (\<forall>sec \<in> set (SMedia s). wfSection sec)"

definition sectionsText :: "Sections \<Rightarrow> string" where
  "sectionsText s = bodyText (Session s @ concat (map Lines (SMedia s)))"

lemma wfSection_snoc:
  "wfSection sec \<Longrightarrow> wfLine l \<Longrightarrow> LType l \<noteq> ''m'' \<Longrightarrow> wfSection (sec\<lparr>Lines := Lines sec @ [l]\<rparr>)"
  by (auto simp: wfSection_def)

lemma sectionLine_wf:
  assumes "wfLine \<lparr>LType = k, LValue = v\<rparr>" "wfSections s" "sectionLine k v s = (e, s')"
  shows "wfSections s'"
proof (cases "k = ''m''")
  case True
  then show ?thesis using assms by (auto simp: sectionLine_def Let_def wfSections_def wfSection_def split: sum.splits)
next
  case False
  show ?thesis
  proof (cases "SMedia s = []")
    case True
    then show ?thesis using assms False by (auto simp: sectionLine_def wfSections_def)
  next
    case nonempty: False
    then obtain secs sec where m: "SMedia s = secs @ [sec]" by (meson rev_exhaust)
    then show ?thesis
      using assms False wfSection_snoc [of sec "\<lparr>LType = k, LValue = v\<rparr>"]
      by (auto simp: sectionLine_def wfSections_def)
  qed
qed

lemma applyLines_append:
  "applyLines line ls s = (None, s') \<Longrightarrow> applyLines line (ls @ ms) s = applyLines line ms s'"
  by (induction ls arbitrary: s) (auto split: prod.splits option.splits)

lemma applyLines_session:
  "\<forall>l \<in> set ls. LType l \<noteq> ''m'' \<Longrightarrow> applyLines sectionLine ls \<lparr>Session = xs, SMedia = []\<rparr>
     = (None, \<lparr>Session = xs @ ls, SMedia = []\<rparr>)"
  by (induction ls arbitrary: xs) (simp_all add: sectionLine_def)

lemma applyLines_media:
  "\<forall>l \<in> set ls. LType l \<noteq> ''m'' \<Longrightarrow>
     applyLines sectionLine ls \<lparr>Session = xs, SMedia = secs @ [\<lparr>Media = md, Lines = ms\<rparr>]\<rparr>
     = (None, \<lparr>Session = xs, SMedia = secs @ [\<lparr>Media = md, Lines = ms @ ls\<rparr>]\<rparr>)"
  by (induction ls arbitrary: ms) (simp_all add: sectionLine_def)

lemma applyLines_section:
  assumes "wfSection sec"
  shows "applyLines sectionLine (Lines sec) \<lparr>Session = xs, SMedia = secs\<rparr> = (None, \<lparr>Session = xs, SMedia = secs @ [sec]\<rparr>)"
proof -
  obtain v ls where l: "Lines sec = \<lparr>LType = ''m'', LValue = v\<rparr> # ls" "parseMediaLine v = Inr (Media sec)"
      "\<forall>l \<in> set ls. LType l \<noteq> ''m''"
    using assms by (auto simp: wfSection_def)
  have "applyLines sectionLine (Lines sec) \<lparr>Session = xs, SMedia = secs\<rparr>
      = applyLines sectionLine ls \<lparr>Session = xs, SMedia = secs @ [\<lparr>Media = Media sec, Lines = [\<lparr>LType = ''m'', LValue = v\<rparr>]\<rparr>]\<rparr>"
    by (simp add: l sectionLine_def)
  also have "\<dots> = (None, \<lparr>Session = xs, SMedia = secs @ [\<lparr>Media = Media sec, Lines = Lines sec\<rparr>]\<rparr>)"
    using applyLines_media [OF l(3), of xs secs "Media sec"] by (simp add: l(1))
  finally show ?thesis by simp
qed

lemma applyLines_sections:
  "\<forall>sec \<in> set rest. wfSection sec \<Longrightarrow> applyLines sectionLine (concat (map Lines rest)) \<lparr>Session = xs, SMedia = secs\<rparr>
     = (None, \<lparr>Session = xs, SMedia = secs @ rest\<rparr>)"
proof (induction rest arbitrary: secs)
  case (Cons sec rest)
  have "applyLines sectionLine (Lines sec @ concat (map Lines rest)) \<lparr>Session = xs, SMedia = secs\<rparr>
      = applyLines sectionLine (concat (map Lines rest)) \<lparr>Session = xs, SMedia = secs @ [sec]\<rparr>"
    using Cons.prems by (intro applyLines_append applyLines_section) simp
  then show ?case using Cons by simp
qed simp

text \<open>Reading the text of well-formed sections gives them back.\<close>

lemma UnmarshalSections_sectionsText:
  assumes "wfSections s"
  shows "UnmarshalSections (sectionsText s) = (None, s)"
proof -
  let ?ls = "Session s @ concat (map Lines (SMedia s))"
  have "\<forall>l \<in> set ?ls. wfLine l" using assms by (auto simp: wfSections_def wfSection_def)
  then have "UnmarshalSections (sectionsText s) = applyLines sectionLine ?ls zeroSections"
    by (simp add: UnmarshalSections_def sectionsText_def readLines_body)
  also have "\<dots> = applyLines sectionLine (concat (map Lines (SMedia s))) \<lparr>Session = Session s, SMedia = []\<rparr>"
    using assms applyLines_session [of "Session s" "[]"]
    by (intro applyLines_append) (simp add: zeroSections_def wfSections_def)
  also have "\<dots> = (None, s)"
    using assms applyLines_sections [of "SMedia s" "Session s" "[]"] by (simp add: wfSections_def)
  finally show ?thesis .
qed

lemma UnmarshalSections_wf: "wfSections (snd (UnmarshalSections data))"
  unfolding UnmarshalSections_def
proof (rule readLines_inv [where P = wfSections])
  show "wfSections zeroSections" by (simp add: zeroSections_def wfSections_def)
qed (fact sectionLine_wf)

subsection \<open>Media lines\<close>

definition token :: "string \<Rightarrow> bool" where
  "token w \<longleftrightarrow> w \<noteq> [] \<and> list_all (\<lambda>c. \<not> isSpace c) w"

definition wfMedia :: "MediaDescription \<Rightarrow> bool" where
  "wfMedia md \<longleftrightarrow> token (MediaType md) \<and> token (Proto md) \<and> Formats md \<noteq> [] \<and> list_all token (Formats md)
     \<and> - (2 ^ 63) \<le> MPort md \<and> MPort md < 2 ^ 63 \<and> 0 \<le> PortNumbers md \<and> PortNumbers md < 2 ^ 63"

lemma token_FormatInt: "token (FormatInt i)"
proof -
  have "\<not> isSpace c" if "c \<in> set (FormatInt i)" for c
    using FormatInt_chars [OF that] isDigit_not_space [of c] by (auto simp: isSpace_def)
  then show ?thesis by (simp add: token_def list_all_iff)
qed

lemma mdString_parse:
  assumes "wfMedia md"
  shows "\<exists>v. mdString md = ''m='' @ v \<and> parseMediaLine v = Inr md"
proof -
  let ?n = "FormatInt (PortNumbers md)"
  let ?ports = "FormatInt (MPort md) @ (if PortNumbers md > 0 then CHR ''/'' # ?n else [])"
  let ?ws = "MediaType md # ?ports # Proto md # Formats md"
  have "token (a @ CHR ''/'' # b)" if "token a" "token b" for a b
    using that by (simp add: token_def isSpace_def)
  then have "token ?ports" using token_FormatInt by simp
  then have "\<forall>w \<in> set ?ws. w \<noteq> [] \<and> list_all (\<lambda>c. \<not> isSpace c) w"
    using assms by (simp add: wfMedia_def token_def list_all_iff)
  define v where "v = Join ?ws '' ''"
  have f: "Fields v = ?ws" unfolding v_def by (rule Fields_Join) fact
  have slash: "CHR ''/'' \<notin> set (FormatInt i)" for i
    using FormatInt_chars [of "CHR ''/''" i] by (auto simp: isDigit_def)
  have p: "Split (CHR ''/'') ?ports = FormatInt (MPort md) # (if PortNumbers md > 0 then [?n] else [])"
    by (simp add: slash Split_append Split_single)
  obtain g gs where g: "Formats md = g # gs" using assms by (cases "Formats md") (simp_all add: wfMedia_def)
  have "parseMediaLine v = Inr md"
    unfolding parseMediaLine_def f Let_def using assms p by (simp add: AtoiValue_FormatInt wfMedia_def g)
  moreover have "mdString md = ''m='' @ v" by (simp add: mdString_def v_def g)
  ultimately show ?thesis by blast
qed

subsection \<open>Descriptions\<close>

lemma addLines_values:
  "fold addLine ls sd key = sd key @ map LValue (filter (\<lambda>l. LType l = key) ls)"
  by (induction ls arbitrary: sd) (simp_all add: addLine_def addValue_def)

lemma Description_values:
  "Description s i = Some sd \<Longrightarrow>
     sd key = map LValue (filter (\<lambda>l. LType l = key) (Session s @ Lines (SMedia s ! i)))"
  by (auto simp: Description_def addLines_values split: if_splits)

section \<open>Properties\<close>



text \<open>
  Text after the last line feed is never read: \<open>ReadString\<close> returns it with \<open>io.EOF\<close>, and
  \<open>readLines\<close> stops there.
\<close>

lemma readLines_unterminated:
  assumes "data = [] \<or> last data = CHR 0x0A" "CHR 0x0A \<notin> set l"
  shows "readLines line (data @ l) s = readLines line data s"
  using assms(1)
proof (induction "length data" arbitrary: data s rule: less_induct)
  case less
  show ?case
  proof (cases "data = []")
    case True
    then show ?thesis using assms(2) by (simp add: readLines.simps nextLine_def Cut_def)
  next
    case False
    then have "CHR 0x0A \<in> set data" using less.prems last_in_set by fastforce
    then obtain a b where d: "data = a @ CHR 0x0A # b" "CHR 0x0A \<notin> set a" by (meson split_list_first)
    define k where "k = (if a \<noteq> [] \<and> last a = CHR 0x0D then butlast a else a)"
    have n: "nextLine data = Some (k, b)" "nextLine (data @ l) = Some (k, b @ l)"
      using d by (simp_all add: nextLine_def Cut_append k_def)
    have "b = [] \<or> last b = CHR 0x0A" using less.prems d by (auto split: if_splits)
    then have IH: "readLines line (b @ l) s' = readLines line b s'" for s'
      using less.hyps [of b] d by simp
    show ?thesis unfolding readLines.simps [of line data s] readLines.simps [of line "data @ l" s]
      by (simp add: n IH split: prod.split option.split)
  qed
qed

end
