(* ===== verification/Media_State.thy ===== *)
theory Media_State
  imports Sdp "HOL-Library.List_Lexorder" "HOL-Library.Char_ord"
begin

text \<open>
  The state of \<open>media/media_session.go\<close>, the data of \<open>media/dtls.go\<close> and \<open>media/ice.go\<close> in it, and the
  profiles of \<open>media/srtp.go\<close>.

  A socket is a number. An SRTP context is a value of a type the model leaves open, made by the
  SRTP library. What the libraries, the clock, the random source and the operating system give
  to one call are the fields of \<open>media_env\<close>, an argument of the definitions that need them, and so
  are the configuration variables of the package.
\<close>

section \<open>The outside\<close>

text \<open>The protection profiles \<open>media/srtp.go\<close> names; \<open>NoProfile\<close> is the value 0.\<close>

datatype srtp_profile = NoProfile | Aes128CmHmacSha1_80 | Aes256CmHmacSha1_80 | AeadAes128Gcm | AeadAes256Gcm
  | NullHmacSha1_80 | OtherProfile u16

type_synonym conn = nat

record ICECandidate =
  Foundation :: string
  Component :: nat
  NetworkShort :: string
  Priority :: nat
  CandAddress :: string
  CandPort :: int
  CandType :: string

text \<open>
  The fields of one call: \<open>randRead k n\<close> is the \<open>k\<close>-th draw of \<open>n\<close> random bytes, \<open>listenUDP k a\<close> the
  result of the \<open>k\<close>-th attempt to bind \<open>a\<close>.
\<close>

record 'ctx media_env =
  createContext :: "bytes \<Rightarrow> bytes \<Rightarrow> srtp_profile \<Rightarrow> go_error + 'ctx"
  keyLen :: "srtp_profile \<Rightarrow> go_error + nat"
  saltLen :: "srtp_profile \<Rightarrow> go_error + nat"
  profileName :: "srtp_profile \<Rightarrow> string"
  randRead :: "nat \<Rightarrow> nat \<Rightarrow> bytes"
  newTLSID :: string
  certDigest :: "string \<Rightarrow> bytes \<Rightarrow> bytes option"
  ntpNow :: u64
  listenUDP :: "nat \<Rightarrow> UDPAddr \<Rightarrow> go_error + UDPAddr \<times> conn"
  dialDTLS :: "go_error option"
  acceptCandidate :: "string \<Rightarrow> bool"
  gatherCandidates :: "go_error + ICECandidate list"
  RTPProfileSAVPDisable :: bool
  SDPCodecPreferLocalOrder :: int
  RTPPortStart :: int
  RTPPortEnd :: int

section \<open>SRTP profiles\<close>

definition srtpProfileString :: "'ctx media_env \<Rightarrow> srtp_profile \<Rightarrow> string" where
  "srtpProfileString E p = (case p of
     Aes128CmHmacSha1_80 \<Rightarrow> ''AES_CM_128_HMAC_SHA1_80''
   | Aes256CmHmacSha1_80 \<Rightarrow> ''AES_CM_256_HMAC_SHA1_80''
   | AeadAes128Gcm \<Rightarrow> ''AEAD_AES_128_GCM''
   | AeadAes256Gcm \<Rightarrow> ''AEAD_AES_256_GCM''
   | NullHmacSha1_80 \<Rightarrow> ''NULL_HMAC_SHA1_80''
   | _ \<Rightarrow> TrimPrefix ''SRTP_'' (profileName E p))"

definition srtpProfileParse :: "string \<Rightarrow> srtp_profile" where
  "srtpProfileParse alg =
    (if alg = ''AES_CM_128_HMAC_SHA1_80'' then Aes128CmHmacSha1_80
     else if alg = ''AES_CM_256_HMAC_SHA1_80'' then Aes256CmHmacSha1_80
     else if alg = ''AEAD_AES_128_GCM'' then AeadAes128Gcm
     else if alg = ''AEAD_AES_256_GCM'' then AeadAes256Gcm
     else if alg = ''NULL_HMAC_SHA1_80'' then NullHmacSha1_80
     else NoProfile)"

section \<open>Data\<close>

definition SecureRTPModeNone :: int where "SecureRTPModeNone = 0"
definition SecureRTPModeSDES :: int where "SecureRTPModeSDES = 1"
definition SecureRTPModeDTLS :: int where "SecureRTPModeDTLS = 2"

datatype DTLSEndpointRole = DTLSEndpointRoleUnknown | DTLSEndpointRoleOfferer | DTLSEndpointRoleAnswerer

text \<open>A certificate is the DER of its leaf, empty when it has none.\<close>

record DTLSConfig =
  Certificates :: "bytes list"
  SDPSetupRole :: "(bool \<Rightarrow> string) option"

record ICEConfig =
  STUNServers :: "string list"
  Lite :: bool

text \<open>The agent with the remote candidates the ICE library took.\<close>

record ICEAgent =
  agentInit :: bool
  agUfrag :: string
  agPwd :: string
  agRemoteUfrag :: string
  agRemotePwd :: string
  agCandidates :: "ICECandidate list"
  agRemoteCandidates :: "string list"

record sdesInline =
  sdesAlg :: string
  sdesBase64 :: string
  sdesTag :: int

record sdpFingerprints =
  fingerprint :: string
  fpAlg :: string

record dtlsSetup =
  dsSetup :: string
  dsFingerprints :: "sdpFingerprints list"
  dsTlsID :: string

record iceSetup =
  isUfrag :: string
  isPwd :: string
  isCandidates :: "string list"
  isRtcpMux :: bool
  isLite :: bool

record establishedICE =
  eiLocal :: iceSetup
  eiRemoteUfrag :: string
  eiRemotePwd :: string

record dtlsAssociation =
  assocSetup :: string
  localFingerprints :: "string list"
  remoteFingerprints :: "string list"
  assocRemoteTLSID :: string
  assocLocalTLSID :: string
  assocLaddr :: UDPAddr
  assocRaddr :: UDPAddr

record offeredStreams =
  osMedia :: "MediaDescription list"
  osAudio :: nat

text \<open>
  \<open>onFinalize\<close> is a closure over the role, the association to record and the DTLS configuration
  made of the fingerprints: the values it closes over.
\<close>

record armedDTLS =
  armedClient :: bool
  armedAssoc :: dtlsAssociation
  armedFingerprints :: "sdpFingerprints list"

text \<open>\<open>finalizeRun\<close>: a negotiation in the background, with its result once it has returned.\<close>

record 'ctx MediaSession =
  Codecs :: "Codec list"
  RemoteSDPIsAnswer :: bool
  staticSDP :: string
  Mode :: string
  Laddr :: UDPAddr
  Raddr :: UDPAddr
  ExternalIP :: ip
  SecureRTP :: int
  SRTPAlg :: srtp_profile
  DTLSConf :: DTLSConfig
  ICEConf :: "ICEConfig option"
  DTLSRole :: DTLSEndpointRole
  negMode :: string
  filterCodecs :: "Codec list"
  rtpConn :: "conn option"
  rtcpConn :: "conn option"
  rtcpRaddr :: UDPAddr
  localCtxSRTP :: "'ctx option"
  remoteCtxSRTP :: "'ctx option"
  srtpRemoteTag :: int
  RTPNAT :: int
  learnedRTPFrom :: "UDPAddr option"
  learnedRTCPFrom :: "UDPAddr option"
  ReadRTPFromAddr :: "Addr option"
  remoteProto :: string
  offStreams :: offeredStreams
  srtpAuthFailures :: u64
  dtlsRemoteSetup :: string
  localTLSID :: string
  dtlsRemoteTLSID :: string
  iceAgent :: "ICEAgent option"
  iceUDPConn :: "conn option"
  iceMux :: "(conn \<times> conn \<times> conn) option"
  rtcpMux :: bool
  remoteICEUfrag :: string
  remoteICEPwd :: string
  remoteICELite :: bool
  estICE :: "establishedICE option"
  dtlsAssoc :: "dtlsAssociation option"
  onFinalize :: "armedDTLS option"
  finalizeRun :: "(armedDTLS \<times> go_error option option) option"
  finalizeErr :: "go_error option"
  dtlsUnkeyed :: bool
  dtlsKeyed :: bool
  rtpReadDeadline :: "instant option"
  rtpWriteDeadline :: "instant option"
  sessionID :: u64
  sessionVersion :: u64

definition zeroOfferedStreams :: offeredStreams where
  "zeroOfferedStreams = \<lparr>osMedia = [], osAudio = 0\<rparr>"

definition zeroSession :: "'ctx MediaSession" where
  "zeroSession = \<lparr>Codecs = [], RemoteSDPIsAnswer = False, staticSDP = [], Mode = [],
     Laddr = zeroUDPAddr, Raddr = zeroUDPAddr, ExternalIP = [], SecureRTP = 0, SRTPAlg = NoProfile,
     DTLSConf = \<lparr>Certificates = [], SDPSetupRole = None\<rparr>, ICEConf = None, DTLSRole = DTLSEndpointRoleUnknown,
     negMode = [], filterCodecs = [], rtpConn = None, rtcpConn = None, rtcpRaddr = zeroUDPAddr,
     localCtxSRTP = None, remoteCtxSRTP = None, srtpRemoteTag = 0, RTPNAT = 0, learnedRTPFrom = None,
     learnedRTCPFrom = None, ReadRTPFromAddr = None, remoteProto = [], offStreams = zeroOfferedStreams,
     srtpAuthFailures = 0, dtlsRemoteSetup = [], localTLSID = [], dtlsRemoteTLSID = [], iceAgent = None,
     iceUDPConn = None, iceMux = None, rtcpMux = False, remoteICEUfrag = [], remoteICEPwd = [], remoteICELite = False,
     estICE = None, dtlsAssoc = None, onFinalize = None, finalizeRun = None, finalizeErr = None,
     dtlsUnkeyed = False, dtlsKeyed = False, rtpReadDeadline = None, rtpWriteDeadline = None,
     sessionID = 0, sessionVersion = 0\<rparr>"

text \<open>An outside and two sessions for examples.\<close>

definition exEnv :: "(bytes \<times> bytes) media_env" where
  "exEnv = \<lparr>createContext = (\<lambda>key salt p. Inr (key, salt)), keyLen = (\<lambda>p. Inr 16), saltLen = (\<lambda>p. Inr 14),
     profileName = (\<lambda>p. []), randRead = (\<lambda>k n. replicate n (of_nat k)), newTLSID = ''ABCDEFGHIJKLMNOPQRST'',
     certDigest = (\<lambda>h c. Some c), ntpNow = 0, listenUDP = (\<lambda>k a. Inr (a\<lparr>Port := 30000\<rparr>, k)), dialDTLS = None,
     acceptCandidate = (\<lambda>c. True), gatherCandidates = Inr [], RTPProfileSAVPDisable = False, SDPCodecPreferLocalOrder = 0,
     RTPPortStart = 0, RTPPortEnd = 0\<rparr>"

definition exOfferer :: "(bytes \<times> bytes) MediaSession" where
  "exOfferer = zeroSession\<lparr>Codecs := [CodecAudioOpus, CodecAudioUlaw], Mode := ModeSendonly, RemoteSDPIsAnswer := True,
     Laddr := \<lparr>IP = [10, 0, 0, 1], Port = 4000, Zone = []\<rparr>\<rparr>"

definition exAnswerer :: "(bytes \<times> bytes) MediaSession" where
  "exAnswerer = zeroSession\<lparr>Codecs := [CodecAudioUlaw, CodecAudioOpus\<lparr>CPayloadType := 111\<rparr>], Mode := ModeSendrecv,
     Laddr := \<lparr>IP = [10, 0, 0, 2], Port = 5000, Zone = []\<rparr>\<rparr>"

end
