(* ===== verification/Media_Session.thy ===== *)
theory Media_Session
  imports Media_State
begin

text \<open>
  The decisions the negotiation of \<open>media/media_session.go\<close> is made of: the DTLS roles, the DTLS
  association and when SDP asks for a new one, the codecs both sides have, the direction, the
  profile of a media line, the stream that carries the call, and \<open>Fork\<close>, which a renegotiation
  starts from.
\<close>

section \<open>Roles\<close>

definition iceEnabled :: "'ctx MediaSession \<Rightarrow> bool" where
  "iceEnabled s \<longleftrightarrow> ICEConf s \<noteq> None \<and> SecureRTP s = SecureRTPModeDTLS"

definition dtlsSetupActive :: string where "dtlsSetupActive = ''active''"
definition dtlsSetupPassive :: string where "dtlsSetupPassive = ''passive''"
definition dtlsSetupActPass :: string where "dtlsSetupActPass = ''actpass''"

definition answeringOffer :: "'ctx MediaSession \<Rightarrow> bool" where
  "answeringOffer s \<longleftrightarrow> remoteProto s \<noteq> [] \<and> \<not> RemoteSDPIsAnswer s"

definition dtlsEndpointRole :: "'ctx MediaSession \<Rightarrow> DTLSEndpointRole" where
  "dtlsEndpointRole s =
    (if DTLSRole s \<noteq> DTLSEndpointRoleUnknown then DTLSRole s
     else if answeringOffer s then DTLSEndpointRoleAnswerer else DTLSEndpointRoleOfferer)"

definition localDTLSSetup :: "'ctx MediaSession \<Rightarrow> string" where
  "localDTLSSetup s =
    (let answering = (dtlsEndpointRole s = DTLSEndpointRoleAnswerer);
         remote = ToLower (TrimSpace (dtlsRemoteSetup s))
     in case SDPSetupRole (DTLSConf s) of
          Some f \<Rightarrow> f (\<not> answering)
        | None \<Rightarrow>
            if remote = dtlsSetupActive then dtlsSetupPassive
            else if remote = dtlsSetupPassive then dtlsSetupActive
            else if remote = dtlsSetupActPass then dtlsSetupActive
            else if answering then dtlsSetupActive
            else dtlsSetupActPass)"

definition dtlsActsAsClient :: "'ctx MediaSession \<Rightarrow> bool" where
  "dtlsActsAsClient s \<longleftrightarrow> localDTLSSetup s = dtlsSetupActive"

definition dtlsSRTP :: "'ctx MediaSession \<Rightarrow> bool" where
  "dtlsSRTP s \<longleftrightarrow> Certificates (DTLSConf s) \<noteq> [] \<or> SecureRTP s = SecureRTPModeDTLS"

definition iceControlling :: "'ctx MediaSession \<Rightarrow> bool" where
  "iceControlling s =
    (let lite = (case ICEConf s of Some c \<Rightarrow> Lite c | None \<Rightarrow> False) in
     if lite \<noteq> remoteICELite s then \<not> lite else dtlsEndpointRole s = DTLSEndpointRoleOfferer)"

section \<open>Addresses and deadlines\<close>

definition SetRemoteAddr :: "UDPAddr \<Rightarrow> 'ctx MediaSession \<Rightarrow> 'ctx MediaSession" where
  "SetRemoteAddr raddr s = s\<lparr>Raddr := raddr, rtcpRaddr := \<lparr>IP = IP raddr, Port = Port raddr + 1, Zone = Zone raddr\<rparr>\<rparr>"

definition sameUDPAddr :: "UDPAddr \<Rightarrow> UDPAddr \<Rightarrow> bool" where
  "sameUDPAddr a b \<longleftrightarrow> ipEqual (IP a) (IP b) \<and> Port a = Port b \<and> Zone a = Zone b"

text \<open>The sockets' own deadlines are the operating system's: what is set on them is returned.\<close>

datatype deadline = SetReadDeadline conn "instant option" | SetWriteDeadline conn "instant option"

definition setRTPDeadline ::
  "int \<Rightarrow> instant option \<Rightarrow> 'ctx MediaSession \<Rightarrow> (deadline list \<times> 'ctx MediaSession) option" where
  "setRTPDeadline rw t s = (case rtpConn s of
     None \<Rightarrow> None
   | Some c \<Rightarrow>
       if odd rw then Some ([SetReadDeadline c t], s\<lparr>rtpReadDeadline := t\<rparr>)
       else if odd (rw div 2) then Some ([SetWriteDeadline c t], s\<lparr>rtpWriteDeadline := t\<rparr>)
       else Some ([SetReadDeadline c t, SetWriteDeadline c t], s\<lparr>rtpReadDeadline := t, rtpWriteDeadline := t\<rparr>))"

definition StopRTP :: "instant \<Rightarrow> int \<Rightarrow> duration \<Rightarrow> 'ctx MediaSession \<Rightarrow> (deadline list \<times> 'ctx MediaSession) option" where
  "StopRTP now rw dur s = setRTPDeadline rw (Some (now + dur)) s"

definition StartRTP :: "int \<Rightarrow> 'ctx MediaSession \<Rightarrow> (deadline list \<times> 'ctx MediaSession) option" where
  "StartRTP rw s = setRTPDeadline rw None s"

definition CarryRTPDeadlines :: "'ctx MediaSession \<Rightarrow> 'ctx MediaSession \<Rightarrow> (deadline list \<times> 'ctx MediaSession) option" where
  "CarryRTPDeadlines from s =
    (let r = rtpReadDeadline from; w = rtpWriteDeadline from; s1 = s\<lparr>rtpReadDeadline := r, rtpWriteDeadline := w\<rparr> in
     if rtpConn from = rtpConn s then Some ([], s1)
     else case rtpConn s of
         None \<Rightarrow> None
       | Some c \<Rightarrow> Some ([SetReadDeadline c r, SetWriteDeadline c w], s1))"

section \<open>Fork\<close>

definition msFork :: "'ctx MediaSession \<Rightarrow> 'ctx MediaSession" where
  "msFork s =
    (let cp = zeroSession\<lparr>Laddr := Laddr s, rtpConn := rtpConn s, rtcpConn := rtcpConn s, Codecs := Codecs s,
           Mode := Mode s, RTPNAT := RTPNAT s, staticSDP := staticSDP s, sessionID := sessionID s,
           sessionVersion := sessionVersion s, DTLSConf := DTLSConf s, ICEConf := ICEConf s, DTLSRole := DTLSRole s,
           rtcpMux := rtcpMux s, iceMux := iceMux s, ExternalIP := ExternalIP s,
           RemoteSDPIsAnswer := RemoteSDPIsAnswer s, localTLSID := localTLSID s, SecureRTP := SecureRTP s,
           SRTPAlg := SRTPAlg s, offStreams := offStreams s, estICE := estICE s\<rparr>
     in if dtlsAssoc s \<noteq> None
        then cp\<lparr>dtlsAssoc := dtlsAssoc s, localCtxSRTP := localCtxSRTP s, remoteCtxSRTP := remoteCtxSRTP s,
             dtlsKeyed := True\<rparr>
        else cp)"

definition OwnsICEAgent :: "'ctx MediaSession \<Rightarrow> bool" where
  "OwnsICEAgent s \<longleftrightarrow> iceAgent s \<noteq> None"

section \<open>Fingerprints\<close>

definition dtlsFingerprintHashes :: "string list" where
  "dtlsFingerprintHashes = [''sha-1'', ''sha-224'', ''sha-256'', ''sha-384'', ''sha-512'']"

text \<open>The digest of a certificate as octets in upper case hexadecimal, separated by colons.\<close>

definition formatFingerprint :: "bytes \<Rightarrow> string" where
  "formatFingerprint digest = Join (map (\<lambda>b. ToUpper [hexDigit (unat b div 16), hexDigit (unat b mod 16)]) digest) '':''"

definition dtlsCertificateFingerprint :: "'ctx media_env \<Rightarrow> string \<Rightarrow> bytes \<Rightarrow> string option" where
  "dtlsCertificateFingerprint E hash cert = map_option formatFingerprint (certDigest E hash cert)"

definition dtlsSHA256Fingerprint :: "'ctx media_env \<Rightarrow> bytes \<Rightarrow> string option" where
  "dtlsSHA256Fingerprint E cert = (if cert = [] then None else dtlsCertificateFingerprint E ''sha-256'' cert)"

definition checkCertificates :: "'ctx media_env \<Rightarrow> DTLSConfig \<Rightarrow> bool" where
  "checkCertificates E conf \<longleftrightarrow> Certificates conf \<noteq> []
     \<and> list_all (\<lambda>cert. dtlsSHA256Fingerprint E cert \<noteq> None) (Certificates conf)"

definition localDTLSFingerprints :: "'ctx media_env \<Rightarrow> 'ctx MediaSession \<Rightarrow> sdpFingerprints list" where
  "localDTLSFingerprints E s = map (\<lambda>cert. case dtlsSHA256Fingerprint E cert of
     None \<Rightarrow> \<lparr>fingerprint = [], fpAlg = []\<rparr>
   | Some fp \<Rightarrow> \<lparr>fingerprint = fp, fpAlg = ''SHA-256''\<rparr>) (Certificates (DTLSConf s))"

text \<open>\<open>dtlsVerifyConnection\<close>: whether the peer's certificate is accepted.\<close>

fun dtlsVerifyCert :: "'ctx media_env \<Rightarrow> bytes \<Rightarrow> sdpFingerprints list \<Rightarrow> bool" where
  "dtlsVerifyCert E cert [] = False"
| "dtlsVerifyCert E cert (fp # fps) =
    (let alg = ToLower (fpAlg fp) in
     if alg \<notin> set dtlsFingerprintHashes then dtlsVerifyCert E cert fps
     else case dtlsCertificateFingerprint E alg cert of
         None \<Rightarrow> False
       | Some remoteFP \<Rightarrow> if EqualFold (fingerprint fp) remoteFP then True else dtlsVerifyCert E cert fps)"

definition dtlsVerifyConnection :: "'ctx media_env \<Rightarrow> bytes list \<Rightarrow> sdpFingerprints list \<Rightarrow> bool" where
  "dtlsVerifyConnection E peerCertificates fps = (case peerCertificates of
     [] \<Rightarrow> False | cert # _ \<Rightarrow> dtlsVerifyCert E cert fps)"

definition fingerprintSet :: "sdpFingerprints list \<Rightarrow> string list" where
  "fingerprintSet fps = remdups_adj (sort (map (\<lambda>fp. ToLower (fpAlg fp) @ '' '' @ ToUpper (fingerprint fp))
     (filter (\<lambda>fp. fingerprint fp \<noteq> []) fps)))"

section \<open>The DTLS association\<close>

definition dtlsRoleAgainst :: "string \<Rightarrow> string" where
  "dtlsRoleAgainst setup =
    (let v = ToLower (TrimSpace setup) in
     if v = dtlsSetupActive then dtlsSetupPassive else if v = dtlsSetupPassive then dtlsSetupActive else [])"

text \<open>The reason as the text \<open>changedBy\<close> returns; empty when the association continues.\<close>

definition changedBy ::
  "'ctx media_env \<Rightarrow> dtlsAssociation \<Rightarrow> 'ctx MediaSession \<Rightarrow> string \<Rightarrow> sdpFingerprints list \<Rightarrow> string \<Rightarrow> string" where
  "changedBy E a s setup fps tlsID =
    (let role = dtlsRoleAgainst setup in
     if role \<noteq> [] \<and> role \<noteq> assocSetup a then ''a change of DTLS roles''
     else if fingerprintSet fps \<noteq> remoteFingerprints a then ''a change of the peer's fingerprints''
     else if fingerprintSet (localDTLSFingerprints E s) \<noteq> localFingerprints a then ''a change of our fingerprints''
     else if tlsID \<noteq> [] \<and> tlsID \<noteq> assocRemoteTLSID a then ''a new tls-id''
     else if iceEnabled s then []
     else if \<not> sameUDPAddr (Laddr s) (assocLaddr a) then ''a change of our transport''
     else if tlsID = [] \<and> \<not> sameUDPAddr (Raddr s) (assocRaddr a) then ''a change of the peer's transport''
     else [])"

definition localChangedBy :: "'ctx media_env \<Rightarrow> dtlsAssociation \<Rightarrow> 'ctx MediaSession \<Rightarrow> bool" where
  "localChangedBy E a s \<longleftrightarrow> fingerprintSet (localDTLSFingerprints E s) \<noteq> localFingerprints a
     \<or> (\<not> iceEnabled s \<and> \<not> sameUDPAddr (Laddr s) (assocLaddr a))"

definition newAnswerTLSID :: "'ctx media_env \<Rightarrow> string \<Rightarrow> 'ctx MediaSession \<Rightarrow> 'ctx MediaSession" where
  "newAnswerTLSID E remoteTLSID s = (if RemoteSDPIsAnswer s then s
     else s\<lparr>localTLSID := (if remoteTLSID \<noteq> [] then newTLSID E else [])\<rparr>)"

definition localSDPTLSID :: "'ctx media_env \<Rightarrow> 'ctx MediaSession \<Rightarrow> string \<times> 'ctx MediaSession" where
  "localSDPTLSID E s =
    (if answeringOffer s then (if dtlsRemoteTLSID s = [] then [] else localTLSID s, s)
     else
       let s' = (case dtlsAssoc s of
           Some a \<Rightarrow>
             if \<not> localChangedBy E a s then s\<lparr>localTLSID := assocLocalTLSID a\<rparr>
             else if localTLSID s = assocLocalTLSID a then s\<lparr>localTLSID := newTLSID E\<rparr> else s
         | None \<Rightarrow> if localTLSID s = [] then s\<lparr>localTLSID := newTLSID E\<rparr> else s)
       in (localTLSID s', s'))"

section \<open>Codecs and direction\<close>

definition codecMatch :: "Codec \<Rightarrow> Codec \<Rightarrow> bool" where
  "codecMatch local remote \<longleftrightarrow> EqualFold (Name local) (Name remote)
     \<and> SampleRate local = SampleRate remote \<and> NumChannels local = NumChannels remote"

definition negotiatedCodec :: "Codec \<Rightarrow> Codec \<Rightarrow> Codec" where
  "negotiatedCodec local remote = local\<lparr>CPayloadType := CPayloadType remote\<rparr>"

text \<open>The two filter loops: the offerer's order, and the local order.\<close>

definition filterRemoteOrder :: "Codec list \<Rightarrow> Codec list \<Rightarrow> Codec list" where
  "filterRemoteOrder local remote =
    List.map_filter (\<lambda>rc. map_option (\<lambda>lc. negotiatedCodec lc rc) (List.find (\<lambda>lc. codecMatch lc rc) local)) remote"

definition filterLocalOrder :: "Codec list \<Rightarrow> Codec list \<Rightarrow> Codec list" where
  "filterLocalOrder local remote =
    List.map_filter (\<lambda>lc. map_option (negotiatedCodec lc) (List.find (codecMatch lc) remote)) local"

definition updateRemoteCodecs ::
  "'ctx media_env \<Rightarrow> Codec list \<Rightarrow> bool \<Rightarrow> 'ctx MediaSession \<Rightarrow> nat \<times> 'ctx MediaSession" where
  "updateRemoteCodecs E codecs answerer s =
    (if Codecs s = [] then (length codecs, s\<lparr>Codecs := codecs\<rparr>)
     else
       let f = (if SDPCodecPreferLocalOrder E > 0 \<and> answerer
           then filterLocalOrder (Codecs s) codecs else filterRemoteOrder (Codecs s) codecs)
       in (length f, s\<lparr>filterCodecs := f\<rparr>))"

definition CommonCodecs :: "'ctx MediaSession \<Rightarrow> Codec list" where
  "CommonCodecs s = filterCodecs s"

definition activeCodecs :: "'ctx MediaSession \<Rightarrow> Codec list" where
  "activeCodecs s = (if filterCodecs s \<noteq> [] then filterCodecs s else Codecs s)"

definition negotiateMediaDirection :: "string \<Rightarrow> string \<Rightarrow> string" where
  "negotiateMediaDirection remoteMode localPref0 =
    (let localPref = (if localPref0 = [] then ModeSendrecv else localPref0) in
     if remoteMode = ''inactive'' then ''inactive''
     else if remoteMode = ModeSendonly then (if localPref = ''inactive'' then ''inactive'' else ModeRecvonly)
     else if remoteMode = ModeRecvonly then (if localPref = ''inactive'' then ''inactive'' else ModeSendonly)
     else if remoteMode = ModeSendrecv then
       (if localPref \<in> {ModeSendrecv, ModeSendonly, ModeRecvonly, ''inactive''} then localPref else ModeSendrecv)
     else localPref)"

section \<open>Media lines\<close>

record rtpProfile =
  secure :: bool
  feedback :: bool
  dtls :: bool

definition parseRTPProfile :: "string \<Rightarrow> rtpProfile option" where
  "parseRTPProfile proto =
    (let p0 = ToUpper (TrimSpace proto);
         d = HasPrefix p0 ''UDP/TLS/'';
         p = TrimPrefix p0 ''UDP/TLS/'';
         prof = (if p = ''RTP/AVP'' then Some \<lparr>secure = False, feedback = False, dtls = d\<rparr>
           else if p = ''RTP/AVPF'' then Some \<lparr>secure = False, feedback = True, dtls = d\<rparr>
           else if p = ''RTP/SAVP'' then Some \<lparr>secure = True, feedback = False, dtls = d\<rparr>
           else if p = ''RTP/SAVPF'' then Some \<lparr>secure = True, feedback = True, dtls = d\<rparr>
           else None)
     in case prof of None \<Rightarrow> None | Some q \<Rightarrow> if dtls q \<and> \<not> secure q then None else Some q)"

definition sdpHasFingerprint :: "string list \<Rightarrow> bool" where
  "sdpHasFingerprint attrs \<longleftrightarrow> (\<exists>a \<in> set attrs. HasPrefix (ToLower (TrimSpace a)) ''fingerprint:'')"

text \<open>The loop of \<open>audioStream\<close> with its index and the first audio stream found; \<open>-1\<close> is \<^term>\<open>None\<close>.\<close>

fun audioStreamFrom :: "nat \<Rightarrow> nat option \<Rightarrow> MediaSection list \<Rightarrow> nat option" where
  "audioStreamFrom i first [] = first"
| "audioStreamFrom i first (sec # secs) =
    (if MediaType (Media sec) \<noteq> ''audio'' then audioStreamFrom (Suc i) first secs
     else if parseRTPProfile (Proto (Media sec)) \<noteq> None \<and> MPort (Media sec) > 0 then Some i
     else audioStreamFrom (Suc i) (if first = None then Some i else first) secs)"

definition audioStream :: "MediaSection list \<Rightarrow> nat option" where
  "audioStream secs = audioStreamFrom 0 None secs"

definition rejectedLine :: "MediaDescription \<Rightarrow> string" where
  "rejectedLine md = mdString (zeroMediaDescription\<lparr>MediaType := MediaType md, Proto := Proto md, Formats := Formats md\<rparr>)"

definition rejected :: "offeredStreams \<Rightarrow> string list \<times> string list" where
  "rejected st = (map rejectedLine (take (osAudio st) (osMedia st)), map rejectedLine (drop (Suc (osAudio st)) (osMedia st)))"

end
