(* ===== verification/Media_Sdp.thy ===== *)
theory Media_Sdp
  imports Media_Session
begin

text \<open>
  \<open>LocalSDP\<close> and \<open>RemoteSDP\<close> of \<open>media/media_session.go\<close>: writing our SDP, and applying the peer's to
  a session stage by stage, with every early return. An error keeps what the stages before it
  changed. Setting up sockets is modelled with them, since a new DTLS association moves to new
  ones; \<open>off\<close> is the package variable \<open>rtpPortOffset\<close>.

  A bind that fails leaves a session without the socket: the nil connection Go keeps in its place
  takes no call.
\<close>

datatype media_error =
    ErrParse sdp_error | ErrSdp sdp_error | ErrNoCommonMedia string | ErrNoCommonCodec | ErrNoCommonCrypto
  | ErrICERestartUnsupported | ErrReadingCodecs go_error
  | ErrBadCrypto string | ErrBadCryptoTag string | ErrSDESDecode | ErrSDESKeyLen nat | ErrCreateContext go_error
  | ErrNoICECredentials | ErrNoRtcpMux | ErrNoICEPair | ErrBadFingerprint string | ErrNoFingerprint nat
  | ErrEmptySetup | ErrUnknownSetup string | ErrOldTransport string | ErrListen go_error | ErrPortRange go_error
  | ErrDial go_error | ErrNoFormats | ErrNoMode | ErrNoLaddr | ErrCertificates | ErrICEAgent go_error | ErrLiteSTUN

section \<open>Sockets\<close>

definition listenICE :: "'ctx media_env \<Rightarrow> nat \<Rightarrow> UDPAddr \<Rightarrow> 'ctx MediaSession \<Rightarrow> go_error option \<times> 'ctx MediaSession" where
  "listenICE E k laddr s = (case listenUDP E k \<lparr>IP = IP laddr, Port = Port laddr, Zone = []\<rparr> of
     Inl e \<Rightarrow> (Some e, s)
   | Inr (la, c) \<Rightarrow> (None, s\<lparr>iceUDPConn := Some c, Laddr := la, rtcpMux := True\<rparr>))"

definition listenRTPandRTCP ::
  "'ctx media_env \<Rightarrow> nat \<Rightarrow> UDPAddr \<Rightarrow> 'ctx MediaSession \<Rightarrow> go_error option \<times> 'ctx MediaSession" where
  "listenRTPandRTCP E k laddr s = (case listenUDP E (2 * k) \<lparr>IP = IP laddr, Port = Port laddr, Zone = []\<rparr> of
     Inl e \<Rightarrow> (Some e, s\<lparr>rtpConn := None\<rparr>)
   | Inr (la, c) \<Rightarrow>
       (case listenUDP E (2 * k + 1) \<lparr>IP = IP la, Port = Port la + 1, Zone = []\<rparr> of
          Inl e \<Rightarrow> (Some e, s\<lparr>rtpConn := Some c, rtcpConn := None\<rparr>)
        | Inr (_, c2) \<Rightarrow> (None, s\<lparr>rtpConn := Some c, rtcpConn := Some c2, Laddr := la\<rparr>)))"

definition listen :: "'ctx media_env \<Rightarrow> nat \<Rightarrow> UDPAddr \<Rightarrow> 'ctx MediaSession \<Rightarrow> go_error option \<times> 'ctx MediaSession" where
  "listen E k laddr s = (if iceEnabled s then listenICE E k laddr s else listenRTPandRTCP E k laddr s)"

text \<open>The loop over the port range, with the last error and the port it stopped at.\<close>

function listenRange ::
  "'ctx media_env \<Rightarrow> nat \<Rightarrow> int \<Rightarrow> go_error option \<Rightarrow> UDPAddr \<Rightarrow> 'ctx MediaSession
    \<Rightarrow> go_error option \<times> int \<times> UDPAddr \<times> 'ctx MediaSession" where
  "listenRange E k port err laddr s =
    (if port < RTPPortEnd E then
       (case listen E k (laddr\<lparr>Port := port\<rparr>) s of
          (None, s') \<Rightarrow> (None, port, laddr\<lparr>Port := port\<rparr>, s')
        | (Some e, s') \<Rightarrow> listenRange E (Suc k) (port + 2) (Some e) (laddr\<lparr>Port := port\<rparr>) s')
     else (err, port, laddr, s))"
  by auto
termination by (relation "measure (\<lambda>(E, k, port, err, laddr, s). nat (RTPPortEnd E - port))") auto

declare listenRange.simps [simp del]

fun listenRetry ::
  "'ctx media_env \<Rightarrow> nat \<Rightarrow> nat \<Rightarrow> go_error option \<Rightarrow> UDPAddr \<Rightarrow> 'ctx MediaSession \<Rightarrow> go_error option \<times> 'ctx MediaSession" where
  "listenRetry E 0 k err laddr s = (err, s)"
| "listenRetry E (Suc retries) k err laddr s = (case listen E k laddr s of
     (None, s') \<Rightarrow> (None, s') | (Some e, s') \<Rightarrow> listenRetry E retries (Suc k) (Some e) laddr s')"

text \<open>The error, the new port offset, the address as the caller sees it afterwards, and the session.\<close>

definition createListeners ::
  "'ctx media_env \<Rightarrow> int \<Rightarrow> UDPAddr \<Rightarrow> 'ctx MediaSession \<Rightarrow> media_error option \<times> int \<times> UDPAddr \<times> 'ctx MediaSession" where
  "createListeners E off laddr s =
    (if Port laddr \<noteq> 0 then (case listen E 0 laddr s of (e, s') \<Rightarrow> (map_option ErrListen e, off, laddr, s'))
     else if RTPPortStart E > 0 \<and> RTPPortEnd E > RTPPortStart E then
       (case listenRange E 0 (RTPPortStart E + off) None laddr s of
          (Some e, port, la, s') \<Rightarrow> (Some (ErrPortRange e), off, la, s')
        | (None, port, la, s') \<Rightarrow>
            (None, (port + 2 - RTPPortStart E) mod (RTPPortEnd E - RTPPortStart E), la, s'))
     else (case listenRetry E 10 0 None laddr s of (e, s') \<Rightarrow> (map_option ErrListen e, off, laddr, s')))"

section \<open>Setting a session up\<close>

definition generateICEString :: "'ctx media_env \<Rightarrow> nat \<Rightarrow> nat \<Rightarrow> string" where
  "generateICEString E k n = take n (hexString (randRead E k (n div 2 + 1)))"

definition NewICEAgent :: "'ctx media_env \<Rightarrow> ICEConfig \<Rightarrow> media_error + ICEAgent" where
  "NewICEAgent E config =
    (if Lite config \<and> STUNServers config \<noteq> [] then Inl ErrLiteSTUN
     else Inr \<lparr>agentInit = False, agUfrag = generateICEString E 0 16, agPwd = generateICEString E 1 22,
       agRemoteUfrag = [], agRemotePwd = [], agCandidates = [], agRemoteCandidates = []\<rparr>)"

definition initICE :: "'ctx media_env \<Rightarrow> 'ctx MediaSession \<Rightarrow> media_error option \<times> 'ctx MediaSession" where
  "initICE E s = (case ICEConf s of
     None \<Rightarrow> (None, s)
   | Some config \<Rightarrow> (case NewICEAgent E config of
         Inl e \<Rightarrow> (Some e, s\<lparr>iceUDPConn := None\<rparr>)
       | Inr agent \<Rightarrow> (case gatherCandidates E of
             Inl e \<Rightarrow> (Some (ErrICEAgent e), s\<lparr>iceUDPConn := None\<rparr>)
           | Inr cands \<Rightarrow> (None, s\<lparr>iceAgent := Some (agent\<lparr>agentInit := True, agCandidates := cands\<rparr>)\<rparr>))))"

definition Init :: "'ctx media_env \<Rightarrow> int \<Rightarrow> 'ctx MediaSession \<Rightarrow> media_error option \<times> int \<times> 'ctx MediaSession" where
  "Init E off s =
    (if Codecs s = [] then (Some ErrNoFormats, off, s)
     else if Mode s = [] then (Some ErrNoMode, off, s)
     else if IP (Laddr s) = [] then (Some ErrNoLaddr, off, s)
     else
       let s1 = (if SecureRTP s > 0 \<and> SRTPAlg s = NoProfile then s\<lparr>SRTPAlg := Aes128CmHmacSha1_80\<rparr> else s) in
       if SecureRTP s1 = SecureRTPModeDTLS \<and> \<not> checkCertificates E (DTLSConf s1) then (Some ErrCertificates, off, s1)
       else
         let s2 = (if rtpConn s1 \<noteq> None then s1\<lparr>ExternalIP := []\<rparr> else s1) in
         case createListeners E off (Laddr s2) s2 of
           (Some e, off', la, s3) \<Rightarrow> (Some e, off', s3\<lparr>Laddr := la\<rparr>)
         | (None, off', la, s3) \<Rightarrow>
             if iceEnabled s3 then (case initICE E s3 of (e, s4) \<Rightarrow> (e, off', s4)) else (None, off', s3))"

definition NewMediaSession :: "'ctx media_env \<Rightarrow> int \<Rightarrow> ip \<Rightarrow> int \<Rightarrow> media_error option \<times> int \<times> 'ctx MediaSession" where
  "NewMediaSession E off ipa port =
    Init E off (zeroSession\<lparr>Codecs := [CodecAudioUlaw, CodecAudioAlaw, CodecTelephoneEvent8000], Mode := ModeSendrecv,
      Laddr := \<lparr>IP = ipa, Port = port, Zone = []\<rparr>\<rparr>)"

text \<open>\<open>InitWithListeners\<close>: \<open>parseAddr\<close> is \<open>sip.ParseAddr\<close> of the SIP library, on the socket's local address.\<close>

definition InitWithListeners ::
  "(string \<Rightarrow> string \<times> int) \<Rightarrow> conn \<Rightarrow> conn \<Rightarrow> string \<Rightarrow> UDPAddr \<Rightarrow> 'ctx MediaSession \<Rightarrow> 'ctx MediaSession" where
  "InitWithListeners parseAddr lRTP lRTCP localAddr raddr s =
    (case parseAddr localAddr of (host, port) \<Rightarrow>
       SetRemoteAddr raddr (s\<lparr>Mode := ModeSendrecv, rtpConn := Some lRTP, rtcpConn := Some lRTCP,
         Laddr := \<lparr>IP = ParseIP host, Port = port, Zone = []\<rparr>\<rparr>))"

definition InitWithSDP :: "string \<Rightarrow> 'ctx MediaSession \<Rightarrow> (media_error option \<times> 'ctx MediaSession) option" where
  "InitWithSDP localSDP s0 =
    (let s = s0\<lparr>staticSDP := localSDP\<rparr> in
     case UnmarshalSections localSDP of
       (Some e, _) \<Rightarrow> Some (Some (ErrParse e), s)
     | (None, sections) \<Rightarrow>
         (case audioStream (SMedia sections) of
            None \<Rightarrow> Some (Some (ErrNoCommonMedia ''no audio media description''), s)
          | Some audio \<Rightarrow>
              Option.bind (Description sections audio) (\<lambda>sd.
                let md = Media (SMedia sections ! audio) in
                case connectionInformation sd of
                  Inl e \<Rightarrow> Some (Some (ErrSdp e), s)
                | Inr ci \<Rightarrow>
                    map_option (\<lambda>(codecs, n, _). (None, s\<lparr>Laddr := \<lparr>IP = CIP ci, Port = MPort md, Zone = []\<rparr>,
                        Mode := ModeSendrecv, Codecs := take n codecs\<rparr>))
                      (CodecsFromSDPRead (Formats md) (Values sd ''a'') (replicate (length (Formats md)) zeroCodec)))))"

text \<open>\<open>Close\<close> once no negotiation is running: the sockets closed and the session.\<close>

definition msClose :: "'ctx MediaSession \<Rightarrow> conn list \<times> 'ctx MediaSession" where
  "msClose s =
    (List.map_filter id ([rtcpConn s, rtpConn s] @ (if iceAgent s \<noteq> None then [iceUDPConn s] else [])),
     if iceAgent s \<noteq> None then s\<lparr>iceAgent := None, iceUDPConn := None\<rparr> else s)"

section \<open>Writing our SDP\<close>

definition sdpIP :: "ip \<Rightarrow> string" where
  "sdpIP a = (if To4 a = [] then ''IP6'' else ''IP4'')"

definition formatRTPMap :: "Codec \<Rightarrow> string list" where
  "formatRTPMap c =
    (let pt = formatNat (unat (CPayloadType c)) in
     if EqualFold (Name c) (Name CodecAudioOpus) then
       [''a=rtpmap:'' @ pt @ '' opus/48000/2'', ''a=fmtp:'' @ pt @ '' useinbandfec=0'']
     else if EqualFold (Name c) (Name CodecTelephoneEvent8000) then
       [''a=rtpmap:'' @ pt @ '' telephone-event/8000'', ''a=fmtp:'' @ pt @ '' 0-16'']
     else if CPayloadType c = CPayloadType CodecAudioUlaw then [''a=rtpmap:0 PCMU/8000'']
     else if CPayloadType c = CPayloadType CodecAudioAlaw then [''a=rtpmap:8 PCMA/8000'']
     else if CPayloadType c = CPayloadType CodecAudioG722 then [''a=rtpmap:9 G722/8000'']
     else [''a=rtpmap:'' @ pt @ '' '' @ Name c @ ''/'' @ formatNat (unat (SampleRate c)) @ ''/'' @ FormatInt (NumChannels c)])"

definition dtlsLines :: "dtlsSetup \<Rightarrow> string list" where
  "dtlsLines d =
    [''a=setup:'' @ dsSetup d]
    @ map (\<lambda>fp. ''a=fingerprint:'' @ fpAlg fp @ '' '' @ fingerprint fp) (filter (\<lambda>fp. fingerprint fp \<noteq> []) (dsFingerprints d))
    @ (if dsTlsID d \<noteq> [] then [''a=tls-id:'' @ dsTlsID d] else [])"

definition iceLines :: "iceSetup \<Rightarrow> string list" where
  "iceLines i =
    [''a=ice-ufrag:'' @ isUfrag i, ''a=ice-pwd:'' @ isPwd i] @ map (\<lambda>c. ''a='' @ c) (isCandidates i)
    @ (if isRtcpMux i then [''a=rtcp-mux''] else [])"

text \<open>The lines of our SDP: session level, rejected streams before, our stream, rejected streams after.\<close>

definition sessionLines :: "u64 \<Rightarrow> u64 \<Rightarrow> ip \<Rightarrow> ip \<Rightarrow> iceSetup option \<Rightarrow> string list" where
  "sessionLines sid ver originIP connectionIP iceSet =
    [''v=0'',
     ''o=- '' @ formatNat (unat sid) @ '' '' @ formatNat (unat ver) @ '' IN '' @ sdpIP originIP @ '' '' @ ipString originIP,
     ''s=Sip Go Media'',
     ''c=IN '' @ sdpIP connectionIP @ '' '' @ ipString connectionIP,
     ''t=0 0'']
    @ (case iceSet of Some i \<Rightarrow> if isLite i then [''a=ice-lite''] else [] | None \<Rightarrow> [])"

definition audioLine :: "string \<Rightarrow> int \<Rightarrow> Codec list \<Rightarrow> string" where
  "audioLine rtpProf rtpPort codecs =
    ''m=audio '' @ FormatInt rtpPort @ '' '' @ rtpProf @ '' '' @ Join (map (\<lambda>c. FormatInt (int (unat (CPayloadType c)))) codecs) '' ''"

definition audioLines ::
  "string \<Rightarrow> int \<Rightarrow> string \<Rightarrow> Codec list \<Rightarrow> sdesInline \<Rightarrow> dtlsSetup option \<Rightarrow> iceSetup option \<Rightarrow> string list" where
  "audioLines rtpProf rtpPort mode codecs sdes dtlsSet iceSet =
    audioLine rtpProf rtpPort codecs # concat (map formatRTPMap codecs)
    @ [''a=ptime:20'', ''a=maxptime:20'', ''a='' @ mode]
    @ (if sdesAlg sdes \<noteq> [] then [''a=crypto:'' @ FormatInt (sdesTag sdes) @ '' '' @ sdesAlg sdes @ '' inline:'' @ sdesBase64 sdes] else [])
    @ (case dtlsSet of Some d \<Rightarrow> dtlsLines d | None \<Rightarrow> [])
    @ (case iceSet of Some i \<Rightarrow> iceLines i | None \<Rightarrow> [])"

definition generateSDPForAudio ::
  "u64 \<Rightarrow> u64 \<Rightarrow> string \<Rightarrow> ip \<Rightarrow> ip \<Rightarrow> int \<Rightarrow> string \<Rightarrow> Codec list \<Rightarrow> sdesInline \<Rightarrow> dtlsSetup option \<Rightarrow> iceSetup option
    \<Rightarrow> offeredStreams \<Rightarrow> string" where
  "generateSDPForAudio sid ver rtpProf originIP connectionIP rtpPort mode codecs sdes dtlsSet iceSet streams =
    (case rejected streams of (before, after) \<Rightarrow>
       Join (sessionLines sid ver originIP connectionIP iceSet @ before
         @ audioLines rtpProf rtpPort mode codecs sdes dtlsSet iceSet @ after) CRLF @ CRLF)"

text \<open>\<open>generateMasterKeySalt\<close>: the random key and salt, and the length of the key.\<close>

definition generateMasterKeySalt :: "'ctx media_env \<Rightarrow> srtp_profile \<Rightarrow> go_error + bytes \<times> nat" where
  "generateMasterKeySalt E profile = (case keyLen E profile of
     Inl e \<Rightarrow> Inl e
   | Inr k \<Rightarrow> (case saltLen E profile of
         Inl e \<Rightarrow> Inl e
       | Inr n \<Rightarrow> Inr (randRead E 0 k @ randRead E 1 n, k)))"

definition noSDES :: sdesInline where
  "noSDES = \<lparr>sdesAlg = [], sdesBase64 = [], sdesTag = 0\<rparr>"

text \<open>
  The SDES closure of \<open>LocalSDP\<close>: the crypto attribute, the profile and the session. Its errors are
  logged and end it where they occur.
\<close>

definition localSDES :: "'ctx media_env \<Rightarrow> 'ctx MediaSession \<Rightarrow> sdesInline \<times> string \<times> 'ctx MediaSession" where
  "localSDES E s =
    (if SecureRTP s = 1 \<and> (IP (Raddr s) = [] \<or> remoteCtxSRTP s \<noteq> None) then
       (case generateMasterKeySalt E (SRTPAlg s) of
          Inl e \<Rightarrow> (noSDES, ''RTP/AVP'', s)
        | Inr (keysalt, k) \<Rightarrow>
            let sdes = \<lparr>sdesAlg = srtpProfileString E (SRTPAlg s), sdesBase64 = base64Encode keysalt, sdesTag = 1\<rparr> in
            (case createContext E (take k keysalt) (drop k keysalt) (SRTPAlg s) of
               Inl e \<Rightarrow> (sdes, ''RTP/AVP'', s)
             | Inr ctx \<Rightarrow>
                 (if srtpRemoteTag s > 0 then sdes\<lparr>sdesTag := srtpRemoteTag s\<rparr> else sdes,
                  if \<not> answeringOffer s \<and> \<not> RTPProfileSAVPDisable E then ''RTP/SAVP'' else ''RTP/AVP'',
                  s\<lparr>localCtxSRTP := Some ctx\<rparr>)))
     else (noSDES, ''RTP/AVP'', s))"

definition iceCandidateSDP :: "ICECandidate \<Rightarrow> string" where
  "iceCandidateSDP c = ''candidate:'' @ Foundation c @ '' '' @ formatNat (Component c) @ '' '' @ ToUpper (NetworkShort c)
     @ '' '' @ formatNat (Priority c) @ '' '' @ CandAddress c @ '' '' @ FormatInt (CandPort c) @ '' typ '' @ CandType c"

definition agentICESetup :: "'ctx MediaSession \<Rightarrow> ICEAgent \<Rightarrow> iceSetup" where
  "agentICESetup s ag = \<lparr>isUfrag = agUfrag ag, isPwd = agPwd ag, isCandidates = map iceCandidateSDP (agCandidates ag),
     isRtcpMux = rtcpMux s, isLite = (case ICEConf s of Some c \<Rightarrow> Lite c | None \<Rightarrow> False)\<rparr>"

definition localICESetup :: "'ctx MediaSession \<Rightarrow> iceSetup option" where
  "localICESetup s = (case iceAgent s of
     Some ag \<Rightarrow> Some (agentICESetup s ag)
   | None \<Rightarrow> map_option eiLocal (estICE s))"

definition localDTLS :: "'ctx media_env \<Rightarrow> 'ctx MediaSession \<Rightarrow> dtlsSetup option \<times> 'ctx MediaSession" where
  "localDTLS E s =
    (if SecureRTP s = 2 then
       let setup = localDTLSSetup s; fps = localDTLSFingerprints E s in
       (case localSDPTLSID E s of (tlsID, s') \<Rightarrow>
          (Some \<lparr>dsSetup = (case dtlsAssoc s' of Some a \<Rightarrow> if answeringOffer s' then assocSetup a else setup | None \<Rightarrow> setup),
             dsFingerprints = fps, dsTlsID = tlsID\<rparr>, s'))
     else (None, s))"

definition nextVersion :: "'ctx media_env \<Rightarrow> 'ctx MediaSession \<Rightarrow> 'ctx MediaSession" where
  "nextVersion E s = (if sessionID s = 0 then s\<lparr>sessionID := drop_bit 32 (ntpNow E), sessionVersion := drop_bit 32 (ntpNow E)\<rparr>
     else s\<lparr>sessionVersion := sessionVersion s + 1\<rparr>)"

definition LocalSDP :: "'ctx media_env \<Rightarrow> 'ctx MediaSession \<Rightarrow> string \<times> 'ctx MediaSession" where
  "LocalSDP E s0 =
    (if staticSDP s0 \<noteq> [] then (staticSDP s0, s0)
     else
       case localSDES E s0 of (sdes, prof1, s1) \<Rightarrow>
       (case localDTLS E s1 of (dtlsSet, s2) \<Rightarrow>
         let prof2 = (if SecureRTP s1 = 2 then ''UDP/TLS/RTP/SAVP'' else prof1);
             prof = (if answeringOffer s2 then remoteProto s2 else prof2);
             s3 = nextVersion E s2;
             connIP = (if ExternalIP s3 = [] then IP (Laddr s3) else ExternalIP s3);
             mode = (if negMode s3 = [] then Mode s3 else negMode s3)
         in (generateSDPForAudio (sessionID s3) (sessionVersion s3) prof (IP (Laddr s3)) connIP (Port (Laddr s3)) mode
               (activeCodecs s3) sdes dtlsSet (localICESetup s3) (offStreams s3), s3)))"

section \<open>Applying the peer's SDP\<close>

subsection \<open>SDES\<close>

fun remoteSDES :: "'ctx media_env \<Rightarrow> string list \<Rightarrow> 'ctx MediaSession \<Rightarrow> media_error option \<times> 'ctx MediaSession" where
  "remoteSDES E [] s = (None, s)"
| "remoteSDES E (v # attrs) s =
    (if \<not> HasPrefix v ''crypto:'' then remoteSDES E attrs s
     else
       let vals = Split (CHR '' '') v in
       if length vals < 3 then (Some (ErrBadCrypto v), s)
       else case AtoiValue (TrimPrefix (vals ! 0) ''crypto:'') of (tag, ok) \<Rightarrow>
         let s1 = s\<lparr>srtpRemoteTag := tag\<rparr>; profile = srtpProfileParse (vals ! 1) in
         if \<not> ok then (Some (ErrBadCryptoTag v), s1)
         else if profile = NoProfile \<or> SRTPAlg s1 \<noteq> profile then remoteSDES E attrs s1
         else (case base64Decode (TrimPrefix (vals ! 2) ''inline:'') of
             None \<Rightarrow> (Some ErrSDESDecode, s1)
           | Some key \<Rightarrow>
               if length key \<noteq> 30 then (Some (ErrSDESKeyLen (length key)), s1)
               else (case createContext E (take 16 key) (drop 16 key) profile of
                   Inl e \<Rightarrow> (Some (ErrCreateContext e), s1)
                 | Inr ctx \<Rightarrow> (None, s1\<lparr>remoteCtxSRTP := Some ctx\<rparr>))))"

subsection \<open>ICE\<close>

text \<open>What \<open>remoteICE\<close> reads of the attributes, and the agent's side of it.\<close>

record remoteICEAttrs =
  raMux :: bool
  raLite :: bool
  raUfrag :: string
  raPwd :: string
  raCandidates :: "string list"

definition readICEAttr :: "string \<Rightarrow> remoteICEAttrs \<Rightarrow> remoteICEAttrs" where
  "readICEAttr v r =
    (if v = ''ice-lite'' then r\<lparr>raLite := True\<rparr>
     else if HasPrefix v ''ice-ufrag:'' then r\<lparr>raUfrag := TrimSpace (drop 10 v)\<rparr>
     else if HasPrefix v ''ice-pwd:'' then r\<lparr>raPwd := TrimSpace (drop 8 v)\<rparr>
     else if HasPrefix v ''candidate:'' then r\<lparr>raCandidates := raCandidates r @ [TrimSpace v]\<rparr>
     else if v = ''rtcp-mux'' then r\<lparr>raMux := True\<rparr>
     else r)"

definition AddRemoteCandidate :: "'ctx media_env \<Rightarrow> string \<Rightarrow> ICEAgent \<Rightarrow> ICEAgent" where
  "AddRemoteCandidate E c ag = (if agentInit ag \<and> acceptCandidate E c
     then ag\<lparr>agRemoteCandidates := agRemoteCandidates ag @ [c]\<rparr> else ag)"

definition SetRemoteCredentials :: "string \<Rightarrow> string \<Rightarrow> ICEAgent \<Rightarrow> ICEAgent" where
  "SetRemoteCredentials u p ag = ag\<lparr>agRemoteUfrag := u, agRemotePwd := p\<rparr>"

definition remoteICE :: "'ctx media_env \<Rightarrow> string list \<Rightarrow> 'ctx MediaSession \<Rightarrow> media_error option \<times> 'ctx MediaSession" where
  "remoteICE E attrs s =
    (let r = fold readICEAttr attrs \<lparr>raMux = False, raLite = False, raUfrag = [], raPwd = [], raCandidates = []\<rparr> in
     if raUfrag r = [] \<or> raPwd r = [] then (Some ErrNoICECredentials, s)
     else if \<not> raMux r then (Some ErrNoRtcpMux, s)
     else case iceAgent s of
       Some ag \<Rightarrow> (None, s\<lparr>remoteICEUfrag := raUfrag r, remoteICEPwd := raPwd r, remoteICELite := raLite r,
         iceAgent := Some (SetRemoteCredentials (raUfrag r) (raPwd r) (fold (AddRemoteCandidate E) (raCandidates r) ag))\<rparr>)
     | None \<Rightarrow>
         (case estICE s of
            Some est \<Rightarrow>
              if raUfrag r \<noteq> eiRemoteUfrag est \<or> raPwd r \<noteq> eiRemotePwd est then (Some ErrICERestartUnsupported, s)
              else (None, s\<lparr>remoteICEUfrag := raUfrag r, remoteICEPwd := raPwd r\<rparr>)
          | None \<Rightarrow> (Some ErrNoICEPair, s)))"

subsection \<open>DTLS\<close>

fun dtlsAttrs ::
  "string list \<Rightarrow> string \<Rightarrow> string \<Rightarrow> sdpFingerprints list \<Rightarrow> media_error + string \<times> string \<times> sdpFingerprints list" where
  "dtlsAttrs [] setup tlsID fps = Inr (setup, tlsID, fps)"
| "dtlsAttrs (v # attrs) setup tlsID fps =
    (if HasPrefix v ''setup:'' then dtlsAttrs attrs (TrimSpace (drop 6 v)) tlsID fps
     else if HasPrefix v ''tls-id:'' then dtlsAttrs attrs setup (TrimSpace (drop 7 v)) fps
     else if HasPrefix v ''fingerprint:'' then
       (let vals = Split (CHR '' '') (drop 12 v) in
        if length vals < 2 then Inl (ErrBadFingerprint v)
        else dtlsAttrs attrs setup tlsID (fps @ [\<lparr>fingerprint = vals ! 1, fpAlg = vals ! 0\<rparr>]))
     else dtlsAttrs attrs setup tlsID fps)"

definition armDTLSHandshake ::
  "'ctx media_env \<Rightarrow> sdpFingerprints list \<Rightarrow> string \<Rightarrow> 'ctx MediaSession \<Rightarrow> media_error option \<times> 'ctx MediaSession" where
  "armDTLSHandshake E fps tlsID s =
    (let client = dtlsActsAsClient s;
         assoc = \<lparr>assocSetup = (if client then dtlsSetupActive else dtlsSetupPassive),
           localFingerprints = fingerprintSet (localDTLSFingerprints E s), remoteFingerprints = fingerprintSet fps,
           assocRemoteTLSID = tlsID, assocLocalTLSID = localTLSID s, assocLaddr = Laddr s, assocRaddr = Raddr s\<rparr>;
         s' = s\<lparr>onFinalize := Some \<lparr>armedClient = client, armedAssoc = assoc, armedFingerprints = fps\<rparr>\<rparr>
     in if iceEnabled s then (None, s')
        else (case dialDTLS E of Some e \<Rightarrow> (Some (ErrDial e), s) | None \<Rightarrow> (None, s')))"

definition negotiateDTLSAssociation ::
  "'ctx media_env \<Rightarrow> int \<Rightarrow> string \<Rightarrow> sdpFingerprints list \<Rightarrow> string \<Rightarrow> 'ctx MediaSession
    \<Rightarrow> media_error option \<times> int \<times> 'ctx MediaSession" where
  "negotiateDTLSAssociation E off setup fps tlsID s = (case dtlsAssoc s of
     None \<Rightarrow> (case armDTLSHandshake E fps tlsID (newAnswerTLSID E tlsID s) of (e, s') \<Rightarrow> (e, off, s'))
   | Some assoc \<Rightarrow>
       let reason = changedBy E assoc s setup fps tlsID;
           same = sameUDPAddr (Laddr s) (assocLaddr assoc);
           fresh = (\<lambda>s. armDTLSHandshake E fps tlsID (newAnswerTLSID E tlsID
             (s\<lparr>dtlsKeyed := False, dtlsAssoc := None, localCtxSRTP := None, remoteCtxSRTP := None\<rparr>)))
       in if reason = [] then (None, off, s)
          else if iceEnabled s then (Some ErrICERestartUnsupported, off, s)
          else if \<not> same then (case fresh s of (e, s') \<Rightarrow> (e, off, s'))
          else if RemoteSDPIsAnswer s then (Some (ErrOldTransport reason), off, s)
          else (case createListeners E off \<lparr>IP = IP (Laddr s), Port = 0, Zone = Zone (Laddr s)\<rparr> (s\<lparr>rtpConn := None, rtcpConn := None\<rparr>) of
              (Some e, off', la, s1) \<Rightarrow> (Some e, off', s1)
            | (None, off', la, s1) \<Rightarrow> (case fresh s1 of
                  (Some e, s2) \<Rightarrow> (Some e, off', snd (msClose s2))
                | (None, s2) \<Rightarrow> (None, off', s2))))"

definition remoteDTLS ::
  "'ctx media_env \<Rightarrow> int \<Rightarrow> string list \<Rightarrow> 'ctx MediaSession \<Rightarrow> media_error option \<times> int \<times> 'ctx MediaSession" where
  "remoteDTLS E off attrs s = (case dtlsAttrs attrs [] [] [] of
     Inl e \<Rightarrow> (Some e, off, s)
   | Inr (setup, tlsID, fps) \<Rightarrow>
       if \<not> list_ex (\<lambda>fp. ToLower (fpAlg fp) \<in> set dtlsFingerprintHashes) fps then (Some (ErrNoFingerprint (length fps)), off, s)
       else if setup = [] then (Some ErrEmptySetup, off, s)
       else if ToLower (TrimSpace setup) \<notin> {dtlsSetupActive, dtlsSetupPassive, dtlsSetupActPass}
         then (Some (ErrUnknownSetup setup), off, s)
       else negotiateDTLSAssociation E off setup fps tlsID (s\<lparr>dtlsRemoteSetup := setup, dtlsRemoteTLSID := tlsID\<rparr>))"

subsection \<open>The whole\<close>

text \<open>From the connection line to the security: the stages after the codecs.\<close>

definition remoteAddress ::
  "SessionDescription \<Rightarrow> MediaDescription \<Rightarrow> 'ctx MediaSession \<Rightarrow> media_error option \<times> 'ctx MediaSession" where
  "remoteAddress sd md s = (case connectionInformation sd of
     Inl e \<Rightarrow> (Some (ErrSdp e), s)
   | Inr ci \<Rightarrow>
       if MPort md \<le> 0 \<or> MPort md > 65535 then (Some (ErrNoCommonMedia ''audio media port is not usable''), s)
       else if CIP ci = [] then (Some (ErrNoCommonMedia ''audio connection address is not an IP''), s)
       else (None, (SetRemoteAddr \<lparr>IP = CIP ci, Port = MPort md, Zone = []\<rparr> s)
           \<lparr>negMode := negotiateMediaDirection (MediaDirection sd) (Mode s)\<rparr>))"

definition remoteSecurity ::
  "'ctx media_env \<Rightarrow> int \<Rightarrow> string list \<Rightarrow> bool \<Rightarrow> 'ctx MediaSession \<Rightarrow> media_error option \<times> int \<times> 'ctx MediaSession" where
  "remoteSecurity E off attrs secureRequest s = (case remoteSDES E attrs s of
     (Some e, s1) \<Rightarrow> (Some e, off, s1)
   | (None, s1) \<Rightarrow>
       (case (if iceEnabled s1 then remoteICE E attrs s1 else (None, s1)) of
          (Some e, s2) \<Rightarrow> (Some e, off, s2)
        | (None, s2) \<Rightarrow>
            (case (if dtlsSRTP s2 then remoteDTLS E off attrs s2 else (None, off, s2)) of
               (Some e, off', s3) \<Rightarrow> (Some e, off', s3)
             | (None, off', s3) \<Rightarrow>
                 let s4 = (if localCtxSRTP s3 \<noteq> None \<and> remoteCtxSRTP s3 = None \<and> \<not> secureRequest
                     then s3\<lparr>localCtxSRTP := None\<rparr> else s3)
                 in if secureRequest \<and> remoteCtxSRTP s4 = None then (Some ErrNoCommonCrypto, off', s4)
                    else (None, off', s4))))"

definition remoteCodecs ::
  "'ctx media_env \<Rightarrow> MediaDescription \<Rightarrow> string list \<Rightarrow> bool \<Rightarrow> 'ctx MediaSession \<Rightarrow> (media_error option \<times> 'ctx MediaSession) option" where
  "remoteCodecs E md attrs answerer s =
    map_option (\<lambda>(codecs, n, err).
      case err of
        Some e \<Rightarrow> (Some (ErrReadingCodecs e), s)
      | None \<Rightarrow>
          if n = 0 then (Some ErrNoCommonCodec, s)
          else (case updateRemoteCodecs E (take n codecs) answerer s of (k, s') \<Rightarrow>
            (if k = 0 then Some ErrNoCommonCodec else None, s')))
      (CodecsFromSDPRead (Formats md) attrs (replicate (length (Formats md)) zeroCodec))"

definition remoteOrigin :: "SessionInformation \<Rightarrow> 'ctx MediaSession \<Rightarrow> 'ctx MediaSession" where
  "remoteOrigin si s = (if sessionID s \<noteq> SessionID si
     then s\<lparr>sessionID := SessionID si, sessionVersion := SessionVersion si + 1\<rparr> else s)"

definition remoteStreams :: "Sections \<Rightarrow> nat \<Rightarrow> 'ctx MediaSession \<Rightarrow> 'ctx MediaSession" where
  "remoteStreams sections audio s =
    (let s1 = s\<lparr>remoteProto := Proto (Media (SMedia sections ! audio))\<rparr> in
     if \<not> RemoteSDPIsAnswer s1 then s1\<lparr>offStreams := \<lparr>osMedia = map Media (SMedia sections), osAudio = audio\<rparr>\<rparr> else s1)"

definition RemoteSDP ::
  "'ctx media_env \<Rightarrow> int \<Rightarrow> string \<Rightarrow> 'ctx MediaSession \<Rightarrow> (media_error option \<times> int \<times> 'ctx MediaSession) option" where
  "RemoteSDP E off sdpReceived s = (case UnmarshalSections sdpReceived of
     (Some e, _) \<Rightarrow> Some (Some (ErrParse e), off, s)
   | (None, sections) \<Rightarrow>
       (case audioStream (SMedia sections) of
          None \<Rightarrow> Some (Some (ErrNoCommonMedia ''no audio media description''), off, s)
        | Some audio \<Rightarrow>
            Option.bind (Description sections audio) (\<lambda>sd.
              let md = Media (SMedia sections ! audio); attrs = Values sd ''a'' in
              case sessionInformation sd of
                Inl e \<Rightarrow> Some (Some (ErrSdp e), off, s)
              | Inr si \<Rightarrow>
                  let s1 = remoteOrigin si s in
                  (case parseRTPProfile (Proto md) of
                     None \<Rightarrow> Some (Some (ErrNoCommonMedia ''unsupported media description protocol''), off, s1)
                   | Some prof \<Rightarrow>
                       let secureRequest = (secure prof \<and> \<not> dtls prof \<and> \<not> sdpHasFingerprint attrs) in
                       map_option (\<lambda>r. case r of
                           (Some e, s2) \<Rightarrow> (Some e, off, s2)
                         | (None, s2) \<Rightarrow> (case remoteAddress sd md s2 of
                               (Some e, s3) \<Rightarrow> (Some e, off, s3)
                             | (None, s3) \<Rightarrow> remoteSecurity E off attrs secureRequest s3))
                         (remoteCodecs E md attrs (\<not> RemoteSDPIsAnswer s) (remoteStreams sections audio s1))))))"

end
