(* ===== verification/Media_Wire.thy ===== *)
theory Media_Wire
  imports Media_Sdp
begin

text \<open>
  What a peer reads of the SDP \<open>LocalSDP\<close> writes: its sections, line for line, and the codecs of its
  audio stream.
\<close>

section \<open>Lines\<close>

abbreviation LF :: char where "LF \<equiv> CHR 0x0A"

definition plain :: "string \<Rightarrow> bool" where
  "plain s \<longleftrightarrow> LF \<notin> set s"

lemma plain_simps [simp]: "plain []" "plain (c # s) \<longleftrightarrow> c \<noteq> LF \<and> plain s" "plain (s @ t) \<longleftrightarrow> plain s \<and> plain t"
  by (auto simp: plain_def)

text \<open>A text line \<open>x=value\<close> and the line it reads as.\<close>

definition lineOf :: "string \<Rightarrow> Line" where
  "lineOf l = (case Cut (CHR ''='') l of (k, v, _) \<Rightarrow> \<lparr>LType = k, LValue = v\<rparr>)"

definition okText :: "string \<Rightarrow> bool" where
  "okText l \<longleftrightarrow> (\<exists>c v. l = c # CHR ''='' # v \<and> c \<noteq> CHR ''='' \<and> c \<noteq> LF \<and> plain v)"

lemma lineOf_Cons [simp]: "c \<noteq> CHR ''='' \<Longrightarrow> lineOf (c # CHR ''='' # v) = \<lparr>LType = [c], LValue = v\<rparr>"
  using Cut_append [of "CHR ''=''" "[c]" v] by (simp add: lineOf_def)

lemma okText_Cons [simp]: "okText (c # CHR ''='' # v) \<longleftrightarrow> c \<noteq> CHR ''='' \<and> c \<noteq> LF \<and> plain v"
  by (auto simp: okText_def)

lemma okText_line:
  assumes "okText l"
  shows "wfLine (lineOf l)" "lineText (lineOf l) = l"
  using assms by (auto simp: okText_def wfLine_def lineText_def plain_def)

lemma body_lines:
  assumes "ls \<noteq> []" "\<forall>l \<in> set ls. okText l"
  shows "Join ls CRLF @ CRLF = bodyText (map lineOf ls)"
proof -
  have "map (\<lambda>l. lineText (lineOf l) @ CRLF) ls = map (\<lambda>l. l @ CRLF) ls"
    using assms(2) by (intro map_cong) (simp_all add: okText_line)
  then have "concat (map (\<lambda>l. l @ CRLF) ls) = bodyText (map lineOf ls)"
    by (simp only: bodyText_def map_map comp_def)
  then show ?thesis using Join_CRLF [OF assms(1)] by simp
qed

lemma plain_not_space: "list_all (\<lambda>c. \<not> isSpace c) s \<Longrightarrow> plain s"
  by (auto simp: plain_def list_all_iff isSpace_def)

lemma plain_formatNat [simp]: "plain (formatNat n)"
  by (rule plain_not_space [OF formatNat_not_space])

lemma plain_ipString [simp]: "plain (ipString a)"
  by (rule plain_not_space [OF ipString_not_space])

lemma plain_FormatInt [simp]: "plain (FormatInt i)"
  using token_FormatInt [of i] by (intro plain_not_space) (simp add: token_def)

lemma plain_token: "token w \<Longrightarrow> plain w"
  by (simp add: token_def plain_not_space)

lemma plain_Join: "\<forall>w \<in> set ws. plain w \<Longrightarrow> plain sep \<Longrightarrow> plain (Join ws sep)"
  by (induction ws sep rule: Join.induct) simp_all

lemma plain_sdpIP [simp]: "plain (sdpIP a)"
  by (simp add: sdpIP_def)

lemma plain_base64 [simp]: "plain (base64Encode bs)"
  using base64Encode_no_break [of LF bs] by (auto simp: plain_def)

section \<open>Media lines\<close>

definition mediaTokens :: "MediaDescription \<Rightarrow> bool" where
  "mediaTokens md \<longleftrightarrow> token (MediaType md) \<and> token (Proto md) \<and> Formats md \<noteq> [] \<and> list_all token (Formats md)"

lemma parseMediaLine_tokens: "parseMediaLine v = Inr md \<Longrightarrow> mediaTokens md"
proof -
  assume a: "parseMediaLine v = Inr md"
  then have l: "\<not> length (Fields v) < 4" and md: "MediaType md = Fields v ! 0" "Proto md = Fields v ! 2" "Formats md = drop 3 (Fields v)"
    by (auto simp: parseMediaLine_def Let_def split: if_splits)
  have t: "token f" if "f \<in> set (Fields v)" for f
    using Fields_no_space [OF that] by (simp add: token_def)
  have "token (Fields v ! 0)" "token (Fields v ! 2)" using l by (intro t nth_mem; linarith)+
  then show ?thesis using l t unfolding mediaTokens_def md by (auto simp: list_all_iff dest: in_set_dropD)
qed

definition rejectedMedia :: "MediaDescription \<Rightarrow> MediaDescription" where
  "rejectedMedia md = zeroMediaDescription\<lparr>MediaType := MediaType md, Proto := Proto md, Formats := Formats md\<rparr>"

definition audioMedia :: "string \<Rightarrow> int \<Rightarrow> Codec list \<Rightarrow> MediaDescription" where
  "audioMedia prof port codecs = \<lparr>MediaType = ''audio'', MPort = port, PortNumbers = 0, Proto = prof,
     Formats = map (\<lambda>c. FormatInt (int (unat (CPayloadType c)))) codecs\<rparr>"

lemma audioLine_mdString: "audioLine prof port codecs = mdString (audioMedia prof port codecs)"
  by (simp add: audioLine_def mdString_def audioMedia_def)

lemma wfMedia_rejected: "mediaTokens md \<Longrightarrow> wfMedia (rejectedMedia md)"
  by (simp add: mediaTokens_def wfMedia_def rejectedMedia_def zeroMediaDescription_def)

lemma token_audio: "token ''audio''"
  by (simp add: token_def isSpace_def)

lemma wfMedia_audio:
  "token prof \<Longrightarrow> codecs \<noteq> [] \<Longrightarrow> - (2 ^ 63) \<le> port \<Longrightarrow> port < 2 ^ 63 \<Longrightarrow> wfMedia (audioMedia prof port codecs)"
  by (simp add: wfMedia_def audioMedia_def token_audio list_all_iff token_FormatInt)

text \<open>The section a written media line starts.\<close>

definition sectionOf :: "MediaDescription \<Rightarrow> string list \<Rightarrow> MediaSection" where
  "sectionOf md ls = \<lparr>Media = md, Lines = map lineOf (mdString md # ls)\<rparr>"

lemma wfMedia_text:
  assumes "wfMedia md"
  shows "\<exists>v. mdString md = CHR ''m'' # CHR ''='' # v \<and> plain v \<and> parseMediaLine v = Inr md"
proof -
  obtain v where v: "mdString md = ''m='' @ v" "parseMediaLine v = Inr md" using mdString_parse [OF assms] by blast
  have "plain (Join (Formats md) '' '')"
    using assms by (intro plain_Join) (auto simp: wfMedia_def list_all_iff plain_token)
  then have "plain (mdString md)" using assms by (simp add: mdString_def Let_def wfMedia_def plain_token)
  then show ?thesis using v by auto
qed

lemma wfSection_sectionOf:
  assumes "wfMedia md" "\<forall>l \<in> set ls. okText l \<and> LType (lineOf l) \<noteq> ''m''"
  shows "wfSection (sectionOf md ls)"
proof -
  obtain v where v: "mdString md = CHR ''m'' # CHR ''='' # v" "plain v" "parseMediaLine v = Inr md"
    using wfMedia_text [OF assms(1)] by blast
  then have "\<forall>l \<in> set (Lines (sectionOf md ls)). wfLine l"
    using assms(2) okText_line(1) by (auto simp: sectionOf_def wfLine_def plain_def)
  then show ?thesis using v assms(2) by (auto simp: wfSection_def sectionOf_def)
qed

section \<open>Sections\<close>

text \<open>The sections of our SDP.\<close>

definition ourSections ::
  "string list \<Rightarrow> MediaDescription \<Rightarrow> string list \<Rightarrow> offeredStreams \<Rightarrow> Sections" where
  "ourSections sess md ls st = \<lparr>Session = map lineOf sess,
     SMedia = map (\<lambda>m. sectionOf (rejectedMedia m) []) (take (osAudio st) (osMedia st)) @ [sectionOf md ls]
       @ map (\<lambda>m. sectionOf (rejectedMedia m) []) (drop (Suc (osAudio st)) (osMedia st))\<rparr>"

definition streamsWf :: "offeredStreams \<Rightarrow> bool" where
  "streamsWf st \<longleftrightarrow> list_all mediaTokens (osMedia st) \<and> (osMedia st \<noteq> [] \<longrightarrow> osAudio st < length (osMedia st))"

lemma generateSDPForAudio_sections:
  assumes sess: "sess = sessionLines sid ver originIP connectionIP iceSet"
    and ls: "audioLines prof port mode codecs sdes dtlsSet iceSet = audioLine prof port codecs # ls"
    and ok: "\<forall>l \<in> set ls. okText l \<and> LType (lineOf l) \<noteq> ''m''"
    and md: "token prof" "codecs \<noteq> []" "- (2 ^ 63) \<le> port" "port < 2 ^ 63" "streamsWf st"
  shows "UnmarshalSections (generateSDPForAudio sid ver prof originIP connectionIP port mode codecs sdes dtlsSet iceSet st)
      = (None, ourSections sess (audioMedia prof port codecs) ls st)"
proof -
  let ?secs = "ourSections sess (audioMedia prof port codecs) ls st"
  let ?rej = "\<lambda>m. sectionOf (rejectedMedia m) []"
  have okrej: "mediaTokens m \<Longrightarrow> okText (rejectedLine m)" for m
    using wfMedia_text [OF wfMedia_rejected, of m] by (auto simp: rejectedLine_def rejectedMedia_def)
  have wfrej: "mediaTokens m \<Longrightarrow> wfSection (?rej m)" for m
    by (rule wfSection_sectionOf) (simp_all add: wfMedia_rejected)
  have wfa: "wfMedia (audioMedia prof port codecs)" using md by (intro wfMedia_audio)
  have wfs: "\<forall>l \<in> set sess. okText l \<and> LType (lineOf l) \<noteq> ''m''"
    unfolding sess sessionLines_def by (auto split: option.split)
  have st: "\<forall>m \<in> set (osMedia st). mediaTokens m" using md(5) by (simp add: streamsWf_def list_all_iff)
  have "wfSections ?secs"
    using wfs st wfrej wfSection_sectionOf [OF wfa ok] okText_line(1)
    by (auto simp: wfSections_def ourSections_def dest: in_set_takeD in_set_dropD)
  then have u: "UnmarshalSections (sectionsText ?secs) = (None, ?secs)" by (rule UnmarshalSections_sectionsText)
  let ?all = "sess @ map rejectedLine (take (osAudio st) (osMedia st)) @ (audioLine prof port codecs # ls)
      @ map rejectedLine (drop (Suc (osAudio st)) (osMedia st))"
  have "okText (audioLine prof port codecs)" using wfMedia_text [OF wfa] by (auto simp: audioLine_mdString)
  then have "\<forall>l \<in> set ?all. okText l"
    using wfs ok st okrej by (auto dest: in_set_takeD in_set_dropD)
  moreover have "?all \<noteq> []" by simp
  ultimately have "Join ?all CRLF @ CRLF = bodyText (map lineOf ?all)" by (intro body_lines)
  also have "\<dots> = sectionsText ?secs"
    by (simp add: sectionsText_def ourSections_def sectionOf_def rejectedLine_def rejectedMedia_def audioLine_mdString comp_def
        concat_map_singleton)
  finally show ?thesis using u ls by (simp add: generateSDPForAudio_def rejected_def sess)
qed

section \<open>The description a peer reads\<close>

definition attrsOf :: "string list \<Rightarrow> string list" where
  "attrsOf ls = map LValue (filter (\<lambda>l. LType l = ''a'') (map lineOf ls))"

lemma attrsOf_simps [simp]:
  "attrsOf [] = []" "attrsOf ((CHR ''a'' # CHR ''='' # v) # ls) = v # attrsOf ls"
  "attrsOf (ls @ ms) = attrsOf ls @ attrsOf ms"
  by (simp_all add: attrsOf_def)

lemma attrsOf_other: "c \<noteq> CHR ''a'' \<Longrightarrow> c \<noteq> CHR ''='' \<Longrightarrow> attrsOf ((c # CHR ''='' # v) # ls) = attrsOf ls"
  by (simp add: attrsOf_def)

lemma audioStreamFrom_skip:
  assumes "\<forall>sec \<in> set pre. MPort (Media sec) \<le> 0"
    and "MediaType (Media sec) = ''audio''" "parseRTPProfile (Proto (Media sec)) \<noteq> None" "MPort (Media sec) > 0"
  shows "audioStreamFrom i first (pre @ sec # post) = Some (i + length pre)"
  using assms(1)
proof (induction pre arbitrary: i first)
  case Nil
  then show ?case using assms by simp
next
  case (Cons x pre)
  then show ?case by auto
qed

definition streamsBefore :: "offeredStreams \<Rightarrow> nat" where
  "streamsBefore st = min (osAudio st) (length (osMedia st))"

lemma ourSections_audio:
  assumes "parseRTPProfile prof \<noteq> None" "0 < port"
  shows "audioStream (SMedia (ourSections sess (audioMedia prof port codecs) ls st)) = Some (streamsBefore st)"
    and "SMedia (ourSections sess (audioMedia prof port codecs) ls st) ! streamsBefore st
      = sectionOf (audioMedia prof port codecs) ls"
    and "streamsBefore st < length (SMedia (ourSections sess (audioMedia prof port codecs) ls st))"
proof -
  let ?rej = "map (\<lambda>m. sectionOf (rejectedMedia m) [])"
  have l: "length (?rej (take (osAudio st) (osMedia st))) = streamsBefore st"
    by (simp add: streamsBefore_def)
  show "audioStream (SMedia (ourSections sess (audioMedia prof port codecs) ls st)) = Some (streamsBefore st)"
    unfolding audioStream_def ourSections_def Sections.select_convs append_Cons append_Nil
    using assms l audioStreamFrom_skip [of "?rej (take (osAudio st) (osMedia st))" "sectionOf (audioMedia prof port codecs) ls" 0 None]
    by (auto simp: sectionOf_def rejectedMedia_def zeroMediaDescription_def audioMedia_def)
  show "SMedia (ourSections sess (audioMedia prof port codecs) ls st) ! streamsBefore st
      = sectionOf (audioMedia prof port codecs) ls"
    using nth_append_length [of "?rej (take (osAudio st) (osMedia st))"] unfolding l
    by (simp add: ourSections_def)
  show "streamsBefore st < length (SMedia (ourSections sess (audioMedia prof port codecs) ls st))"
    by (simp add: ourSections_def streamsBefore_def)
qed

text \<open>The lines of a type a peer finds in the description of our stream.\<close>

lemma ourSections_description:
  assumes "parseRTPProfile prof \<noteq> None" "0 < port" "wfMedia (audioMedia prof port codecs)"
    and ls: "\<forall>l \<in> set ls. LType (lineOf l) = ''a''"
    and sess: "sess = sessionLines sid ver originIP connectionIP iceSet"
  shows "\<exists>sd v. Description (ourSections sess (audioMedia prof port codecs) ls st) (streamsBefore st) = Some sd
    \<and> sd ''a'' = attrsOf sess @ attrsOf ls
    \<and> sd ''c'' = [''IN '' @ sdpIP connectionIP @ '' '' @ ipString connectionIP]
    \<and> sd ''o'' = [''- '' @ formatNat (unat sid) @ '' '' @ formatNat (unat ver) @ '' IN '' @ sdpIP originIP @ '' '' @ ipString originIP]
    \<and> sd ''m'' = [v]"
proof -
  let ?s = "ourSections sess (audioMedia prof port codecs) ls st"
  obtain v where v: "mdString (audioMedia prof port codecs) = CHR ''m'' # CHR ''='' # v"
    using wfMedia_text [OF assms(3)] by blast
  obtain sd where sd: "Description ?s (streamsBefore st) = Some sd"
    using ourSections_audio(3) [OF assms(1,2)] by (simp add: Description_def)
  have lines: "Session ?s = map lineOf sess" "Lines (SMedia ?s ! streamsBefore st) = map lineOf (mdString (audioMedia prof port codecs) # ls)"
    using ourSections_audio(2) [OF assms(1,2), of sess codecs ls st] by (simp_all add: ourSections_def sectionOf_def)
  have vals: "sd key = map LValue (filter (\<lambda>l. LType l = key) (map lineOf sess))
      @ map LValue (filter (\<lambda>l. LType l = key) (map lineOf (mdString (audioMedia prof port codecs) # ls)))" for key
    using Description_values [OF sd, of key] unfolding lines by simp
  have none: "filter (\<lambda>l. LType l = [k]) (map lineOf ls) = []" if "k \<noteq> CHR ''a''" for k
    using ls that by (auto simp: filter_empty_conv)
  have "sd ''a'' = attrsOf sess @ attrsOf ls" unfolding vals attrsOf_def by (simp add: v)
  moreover have "sd ''c'' = [''IN '' @ sdpIP connectionIP @ '' '' @ ipString connectionIP]"
    unfolding vals sess sessionLines_def by (simp add: v none split: option.split)
  moreover have "sd ''o'' = [''- '' @ formatNat (unat sid) @ '' '' @ formatNat (unat ver) @ '' IN '' @ sdpIP originIP @ '' '' @ ipString originIP]"
    unfolding vals sess sessionLines_def by (simp add: v none split: option.split)
  moreover have "sd ''m'' = [v]" unfolding vals sess sessionLines_def by (simp add: v none split: option.split)
  ultimately show ?thesis using sd by blast
qed

section \<open>The codecs a peer reads\<close>

lemma codecMatch_sym: "codecMatch a b \<Longrightarrow> codecMatch b a"
  by (simp add: codecMatch_def EqualFold_def)

lemma codecMatch_trans: "codecMatch a b \<Longrightarrow> codecMatch b c \<Longrightarrow> codecMatch a c"
  by (simp add: codecMatch_def EqualFold_def)

text \<open>
  A codec the wire carries: its name is one token without a slash, and the payload types and names
  with a fixed meaning have it. \<open>wireCodec\<close> is what a peer reads of it.
\<close>

definition wireWf :: "Codec \<Rightarrow> bool" where
  "wireWf c \<longleftrightarrow> CHR '' '' \<notin> set (Name c) \<and> CHR ''/'' \<notin> set (Name c) \<and> plain (Name c)
     \<and> 0 \<le> NumChannels c \<and> NumChannels c < 2 ^ 32
     \<and> (CPayloadType c = 0 \<longrightarrow> codecMatch c CodecAudioUlaw) \<and> (CPayloadType c = 8 \<longrightarrow> codecMatch c CodecAudioAlaw)
     \<and> (CPayloadType c = 9 \<longrightarrow> codecMatch c CodecAudioG722)
     \<and> (EqualFold (Name c) (Name CodecAudioOpus) \<longrightarrow> codecMatch c CodecAudioOpus)
     \<and> (EqualFold (Name c) (Name CodecTelephoneEvent8000) \<longrightarrow> codecMatch c CodecTelephoneEvent8000)"

definition wireCodec :: "Codec \<Rightarrow> Codec" where
  "wireCodec c =
    (if CPayloadType c = 0 then CodecAudioUlaw else if CPayloadType c = 8 then CodecAudioAlaw
     else if CPayloadType c = 9 then CodecAudioG722
     else \<lparr>Name = (if EqualFold (Name c) (Name CodecAudioOpus) then ''opus''
         else if EqualFold (Name c) (Name CodecTelephoneEvent8000) then ''telephone-event'' else Name c),
       CPayloadType = CPayloadType c, SampleRate = SampleRate c, SampleDur = 20 * millisecond, NumChannels = NumChannels c\<rparr>)"

lemma wireCodec_match:
  assumes "wireWf c"
  shows "codecMatch c (wireCodec c)" "CPayloadType (wireCodec c) = CPayloadType c"
  using assms by (auto simp: wireWf_def wireCodec_def codecMatch_def EqualFold_def CodecAudioUlaw_def CodecAudioAlaw_def
      CodecAudioG722_def CodecAudioOpus_def CodecTelephoneEvent8000_def)

abbreviation fmtOf :: "Codec \<Rightarrow> string" where
  "fmtOf c \<equiv> formatNat (unat (CPayloadType c))"

lemma formatNat_inject: "formatNat n = formatNat m \<longleftrightarrow> n = m"
  by (metis decimalValue_formatNat)

lemma fmt_no_space: "CHR '' '' \<notin> set (formatNat n)"
  by (rule formatNat_not_in) (simp add: isDigit_def)

lemma rtpmap_prefix:
  "HasPrefix (''rtpmap:'' @ formatNat n @ CHR '' '' # r) (''rtpmap:'' @ formatNat m @ '' '') \<longleftrightarrow> n = m"
  using HasPrefix_word [OF fmt_no_space [of n] fmt_no_space [of m], of "''rtpmap:''" r] by (simp only: formatNat_inject)

lemma rtpmapCodec_other: "n \<noteq> m \<Longrightarrow> rtpmapCodec pt (formatNat m) (''rtpmap:'' @ formatNat n @ CHR '' '' # r) = None"
  using rtpmap_prefix [of n r m] by (simp add: rtpmapCodec_def)

lemma rtpmapCodec_fmtp: "rtpmapCodec pt f (''fmtp:'' @ r) = None"
  by (simp add: rtpmapCodec_def HasPrefix_def)

lemma rtpmapCodec_read:
  assumes "CHR '' '' \<notin> set r" "Split (CHR ''/'') r = enc # rate # rest" "ParseUint 32 rate = Some k" "length rest \<le> 1"
  shows "rtpmapCodec pt (formatNat n) (''rtpmap:'' @ formatNat n @ CHR '' '' # r) =
    Some \<lparr>Name = enc, CPayloadType = pt, SampleRate = of_nat k, SampleDur = 20 * millisecond,
      NumChannels = (case rest of [] \<Rightarrow> 1 | ch # _ \<Rightarrow> (case ParseUint 32 ch of Some m \<Rightarrow> int m | None \<Rightarrow> 1))\<rparr>"
proof -
  let ?p = "''rtpmap:'' @ formatNat n @ '' ''"
  have p: "HasPrefix (''rtpmap:'' @ formatNat n @ CHR '' '' # r) ?p" by (simp only: rtpmap_prefix)
  have d: "drop (length ?p) (''rtpmap:'' @ formatNat n @ CHR '' '' # r) = r" by simp
  show ?thesis
    unfolding rtpmapCodec_def Let_def d using p assms
    by (cases rest) (simp_all add: Split_single [OF assms(1)])
qed

definition rtpAttrs :: "Codec \<Rightarrow> string list" where
  "rtpAttrs c = attrsOf (formatRTPMap c)"

text \<open>The encoding an \<open>rtpmap\<close> line names, and the \<open>fmtp\<close> line after it.\<close>

definition encOf :: "Codec \<Rightarrow> string" where
  "encOf c = (if EqualFold (Name c) (Name CodecAudioOpus) then ''opus/48000/2''
     else if EqualFold (Name c) (Name CodecTelephoneEvent8000) then ''telephone-event/8000''
     else if CPayloadType c = 0 then ''PCMU/8000'' else if CPayloadType c = 8 then ''PCMA/8000''
     else if CPayloadType c = 9 then ''G722/8000''
     else Name c @ ''/'' @ formatNat (unat (SampleRate c)) @ ''/'' @ FormatInt (NumChannels c))"

definition fmtpOf :: "Codec \<Rightarrow> string list" where
  "fmtpOf c = (if EqualFold (Name c) (Name CodecAudioOpus) then [''fmtp:'' @ fmtOf c @ '' useinbandfec=0'']
     else if EqualFold (Name c) (Name CodecTelephoneEvent8000) then [''fmtp:'' @ fmtOf c @ '' 0-16''] else [])"

lemma rtpAttrs_eq: "rtpAttrs c = (''rtpmap:'' @ fmtOf c @ CHR '' '' # encOf c) # fmtpOf c"
proof -
  have n: "formatNat 0 = ''0''" "formatNat 8 = ''8''" "formatNat 9 = ''9''"
    by (subst formatNat.simps, simp add: digitChar_def char_of_def bit_0)+
  show ?thesis
    by (simp add: rtpAttrs_def formatRTPMap_def encOf_def fmtpOf_def Let_def CodecAudioUlaw_def CodecAudioAlaw_def CodecAudioG722_def n)
qed

lemma map_filter_fmtp: "List.map_filter (rtpmapCodec pt f) (fmtpOf c) = []"
  by (simp add: fmtpOf_def map_filter_simps rtpmapCodec_def HasPrefix_def)

lemma Split_slash_FormatNat: "Split (CHR ''/'') (formatNat n) = [formatNat n]"
  by (rule Split_single, rule formatNat_not_in) (simp add: isDigit_def)

lemma rtpmapCodec_own:
  assumes "wireWf c" "CPayloadType c \<notin> {0, 8, 9}"
  shows "rtpmapCodec (CPayloadType c) (fmtOf c) (''rtpmap:'' @ fmtOf c @ CHR '' '' # encOf c) = Some (wireCodec c)"
proof -
  have rates: "ParseUint 32 ''48000'' = Some 48000" "ParseUint 32 ''8000'' = Some 8000" "ParseUint 32 ''2'' = Some 2"
    by (simp_all add: ParseUint_def isDigit_def decimalValue_def digitValue_def)
  consider "EqualFold (Name c) (Name CodecAudioOpus)"
    | "\<not> EqualFold (Name c) (Name CodecAudioOpus)" "EqualFold (Name c) (Name CodecTelephoneEvent8000)"
    | "\<not> EqualFold (Name c) (Name CodecAudioOpus)" "\<not> EqualFold (Name c) (Name CodecTelephoneEvent8000)" by blast
  then show ?thesis
  proof cases
    case 1
    have "rtpmapCodec (CPayloadType c) (fmtOf c) (''rtpmap:'' @ fmtOf c @ CHR '' '' # encOf c)
        = Some \<lparr>Name = ''opus'', CPayloadType = CPayloadType c, SampleRate = of_nat 48000, SampleDur = 20 * millisecond, NumChannels = 2\<rparr>"
      using 1 by (subst rtpmapCodec_read [where enc = "''opus''" and rate = "''48000''" and rest = "[''2'']" and k = 48000])
        (simp_all add: encOf_def rates)
    then show ?thesis using 1 assms by (simp add: wireCodec_def wireWf_def codecMatch_def CodecAudioOpus_def)
  next
    case 2
    have "rtpmapCodec (CPayloadType c) (fmtOf c) (''rtpmap:'' @ fmtOf c @ CHR '' '' # encOf c)
        = Some \<lparr>Name = ''telephone-event'', CPayloadType = CPayloadType c, SampleRate = of_nat 8000, SampleDur = 20 * millisecond, NumChannels = 1\<rparr>"
      using 2 by (subst rtpmapCodec_read [where enc = "''telephone-event''" and rate = "''8000''" and rest = "[]" and k = 8000])
        (simp_all add: encOf_def rates)
    then show ?thesis using 2 assms by (simp add: wireCodec_def wireWf_def codecMatch_def CodecTelephoneEvent8000_def)
  next
    case 3
    have ch: "FormatInt (NumChannels c) = formatNat (nat (NumChannels c))" using assms by (simp add: FormatInt_def wireWf_def)
    have e: "encOf c = Name c @ CHR ''/'' # formatNat (unat (SampleRate c)) @ CHR ''/'' # formatNat (nat (NumChannels c))"
      using 3 assms by (simp add: encOf_def ch)
    have dig: "CHR ''/'' \<notin> set (formatNat n)" for n by (rule formatNat_not_in) (simp add: isDigit_def)
    have sp: "Split (CHR ''/'') (encOf c) = [Name c, formatNat (unat (SampleRate c)), formatNat (nat (NumChannels c))]"
      using assms unfolding e by (simp add: Split_append Split_slash_FormatNat dig wireWf_def)
    have "unat (SampleRate c) < 2 ^ LENGTH(32)" by (rule unsigned_less)
    then have r: "ParseUint 32 (formatNat (unat (SampleRate c))) = Some (unat (SampleRate c))"
      by (intro ParseUint_formatNat) simp
    have "ParseUint 32 (formatNat (nat (NumChannels c))) = Some (nat (NumChannels c))"
      using assms by (intro ParseUint_formatNat) (simp add: wireWf_def nat_less_iff)
    then show ?thesis
      using 3 assms sp r fmt_no_space
      by (subst rtpmapCodec_read [OF _ sp r]) (simp_all add: wireCodec_def wireWf_def e)
  qed
qed

lemma map_filter_append: "List.map_filter g (xs @ ys) = List.map_filter g xs @ List.map_filter g ys"
  by (simp add: List.map_filter_def)

lemma map_filter_none: "\<forall>x \<in> set xs. g x = None \<Longrightarrow> List.map_filter g xs = []"
  by (induction xs) (simp_all add: map_filter_simps)

lemma map_filter_rtpAttrs:
  assumes "wireWf c" "CPayloadType c \<notin> {0, 8, 9}"
  shows "List.map_filter (rtpmapCodec (CPayloadType c) (fmtOf c)) (rtpAttrs d)
    = (if CPayloadType d = CPayloadType c then List.map_filter (rtpmapCodec (CPayloadType c) (fmtOf c)) (rtpAttrs d) else [])"
proof (cases "CPayloadType d = CPayloadType c")
  case False
  then have "unat (CPayloadType d) \<noteq> unat (CPayloadType c)" by (simp add: word_unat_eq_iff)
  then show ?thesis
    using False by (simp add: rtpAttrs_eq map_filter_simps rtpmapCodec_other [simplified] map_filter_fmtp)
qed simp

lemma map_filter_rtpAttrs_own:
  assumes "wireWf c" "CPayloadType c \<notin> {0, 8, 9}"
  shows "List.map_filter (rtpmapCodec (CPayloadType c) (fmtOf c)) (rtpAttrs c) = [wireCodec c]"
  using rtpmapCodec_own [OF assms] by (simp add: rtpAttrs_eq map_filter_simps map_filter_fmtp)

lemma map_filter_all_rtpAttrs:
  assumes "wireWf c" "CPayloadType c \<notin> {0, 8, 9}" "distinct (map CPayloadType cs)" "c \<in> set cs"
  shows "List.map_filter (rtpmapCodec (CPayloadType c) (fmtOf c)) (concat (map rtpAttrs cs)) = [wireCodec c]"
proof -
  let ?g = "List.map_filter (rtpmapCodec (CPayloadType c) (fmtOf c))"
  have other: "CPayloadType d \<noteq> CPayloadType c \<Longrightarrow> ?g (rtpAttrs d) = []" for d
    using map_filter_rtpAttrs [OF assms(1,2), of d] by simp
  have none: "CPayloadType c \<notin> set (map CPayloadType ds) \<Longrightarrow> ?g (concat (map rtpAttrs ds)) = []" for ds
    by (induction ds) (auto simp: map_filter_append map_filter_simps other)
  obtain xs ys where cs: "cs = xs @ c # ys" using split_list [OF assms(4)] by blast
  then have "CPayloadType c \<notin> set (map CPayloadType xs)" "CPayloadType c \<notin> set (map CPayloadType ys)"
    using assms(3) by auto
  then show ?thesis using map_filter_rtpAttrs_own [OF assms(1,2)] none by (simp add: cs map_filter_append)
qed

definition noRtpmap :: "string list \<Rightarrow> bool" where
  "noRtpmap as \<longleftrightarrow> (\<forall>a \<in> set as. \<not> HasPrefix a ''rtpmap:'')"

lemma noRtpmap_filter: "noRtpmap as \<Longrightarrow> List.map_filter (rtpmapCodec pt f) as = []"
proof (rule map_filter_none, rule ballI)
  fix a assume "noRtpmap as" "a \<in> set as"
  then have "\<not> HasPrefix a (''rtpmap:'' @ f @ '' '')" by (auto simp: noRtpmap_def HasPrefix_iff)
  then show "rtpmapCodec pt f a = None" by (simp add: rtpmapCodec_def)
qed

text \<open>The codecs a peer reads of the formats and attributes we write.\<close>

lemma codecs_read_back:
  assumes "\<forall>c \<in> set cs. wireWf c" "distinct (map CPayloadType cs)" "noRtpmap pre" "noRtpmap post"
  shows "CodecsFromSDPRead (map fmtOf cs) (pre @ concat (map rtpAttrs cs) @ post) (replicate (length cs) zeroCodec)
    = Some (map wireCodec cs, length cs, None)"
proof -
  let ?as = "pre @ concat (map rtpAttrs cs) @ post"
  have lit: "formatNat n = ''0'' \<longleftrightarrow> n = 0" "formatNat n = ''8'' \<longleftrightarrow> n = 8" "formatNat n = ''9'' \<longleftrightarrow> n = 9" for n
  proof -
    have "formatNat 0 = ''0''" "formatNat 8 = ''8''" "formatNat 9 = ''9''"
      by (subst formatNat.simps, simp add: digitChar_def char_of_def bit_0)+
    then show "formatNat n = ''0'' \<longleftrightarrow> n = 0" "formatNat n = ''8'' \<longleftrightarrow> n = 8" "formatNat n = ''9'' \<longleftrightarrow> n = 9"
      by (metis formatNat_inject)+
  qed
  have pt: "unat (CPayloadType c) = 0 \<longleftrightarrow> CPayloadType c = 0" "unat (CPayloadType c) = 8 \<longleftrightarrow> CPayloadType c = 8"
      "unat (CPayloadType c) = 9 \<longleftrightarrow> CPayloadType c = 9" for c :: Codec
    using word_unat_eq_iff [of "CPayloadType c" 0] word_unat_eq_iff [of "CPayloadType c" 8]
      word_unat_eq_iff [of "CPayloadType c" 9] by auto
  have one: "codecsOf ?as (fmtOf c) = [wireCodec c]" if c: "c \<in> set cs" for c
  proof (cases "CPayloadType c \<in> {0, 8, 9}")
    case True
    then show ?thesis by (auto simp: codecsOf_def lit wireCodec_def)
  next
    case False
    have "ParseUint 8 (fmtOf c) = Some (unat (CPayloadType c))"
      using unat_u8_less [of "CPayloadType c"] by (intro ParseUint_formatNat) simp
    then have "codecsOf ?as (fmtOf c) = List.map_filter (rtpmapCodec (CPayloadType c) (fmtOf c)) ?as"
      using False by (simp add: codecsOf_def lit pt)
    also have "\<dots> = [wireCodec c]"
      using assms False c map_filter_all_rtpAttrs [of c cs] by (simp add: map_filter_append noRtpmap_filter)
    finally show ?thesis .
  qed
  have "map (codecsOf ?as) (map fmtOf cs) = map (\<lambda>c. [wireCodec c]) cs" using one by simp
  then have "concat (map (codecsOf ?as) (map fmtOf cs)) = map wireCodec cs" by (simp only: concat_map_singleton)
  then show ?thesis by (simp add: readFormats_putAll CodecsFromSDPRead_def putAll_spec)
qed

end
