(* ===== verification/Media_Plain.thy ===== *)
theory Media_Plain
  imports Media_Wire
begin

text \<open>
  A session that negotiates plain RTP: the text \<open>LocalSDP\<close> writes for it, and the session a peer
  has after \<open>RemoteSDP\<close> has read that text.
\<close>

section \<open>Plain RTP\<close>

definition connIP :: "'ctx MediaSession \<Rightarrow> ip" where
  "connIP s = (if ExternalIP s = [] then IP (Laddr s) else ExternalIP s)"

definition modes :: "string set" where
  "modes = {ModeSendrecv, ModeSendonly, ModeRecvonly, ModeInactive}"

text \<open>
  A session that negotiates plain RTP: no keys and no ICE, codecs the wire carries under distinct
  payload types, a direction, an IPv4 address and a port.
\<close>

definition plainEnd :: "'ctx MediaSession \<Rightarrow> bool" where
  "plainEnd s \<longleftrightarrow> staticSDP s = [] \<and> SecureRTP s = 0 \<and> Certificates (DTLSConf s) = [] \<and> iceAgent s = None \<and> estICE s = None
     \<and> localCtxSRTP s = None \<and> remoteCtxSRTP s = None \<and> streamsWf (offStreams s)
     \<and> Codecs s \<noteq> [] \<and> (\<forall>c \<in> set (Codecs s). wireWf c) \<and> distinct (map CPayloadType (Codecs s))
     \<and> Mode s \<in> modes \<and> To4 (connIP s) \<noteq> [] \<and> 0 < Port (Laddr s) \<and> Port (Laddr s) \<le> 65535"

text \<open>
  The profiles \<open>RemoteSDP\<close> asks no inline keys for: those without SRTP, and those keyed by DTLS.
\<close>

definition keylessProto :: "string \<Rightarrow> bool" where
  "keylessProto p \<longleftrightarrow> token p \<and> (\<exists>q. parseRTPProfile p = Some q \<and> (secure q \<longrightarrow> dtls q))"

text \<open>What a session that negotiates plain RTP is about to write.\<close>

definition offerMode :: "'ctx MediaSession \<Rightarrow> string" where
  "offerMode s = (if negMode s = [] then Mode s else negMode s)"

definition plainProf :: "'ctx MediaSession \<Rightarrow> string" where
  "plainProf s = (if answeringOffer s then remoteProto s else ''RTP/AVP'')"

definition plainBody :: "u64 \<Rightarrow> u64 \<Rightarrow> 'ctx MediaSession \<Rightarrow> string" where
  "plainBody sid ver s = generateSDPForAudio sid ver (plainProf s) (IP (Laddr s)) (connIP s) (Port (Laddr s)) (offerMode s)
     (activeCodecs s) noSDES None None (offStreams s)"

lemma LocalSDP_plain:
  assumes "staticSDP s = []" "SecureRTP s = 0" "iceAgent s = None" "estICE s = None"
  shows "\<exists>sid ver. LocalSDP E s = (plainBody sid ver s, s\<lparr>sessionID := sid, sessionVersion := ver\<rparr>)"
proof -
  have "localSDES E s = (noSDES, ''RTP/AVP'', s)" using assms by (simp add: localSDES_def)
  moreover have "localDTLS E s = (None, s)" using assms by (simp add: localDTLS_def)
  moreover have "nextVersion E s = s\<lparr>sessionID := sessionID (nextVersion E s), sessionVersion := sessionVersion (nextVersion E s)\<rparr>"
    by (simp add: nextVersion_def)
  then obtain sid ver where "nextVersion E s = s\<lparr>sessionID := sid, sessionVersion := ver\<rparr>" by blast
  ultimately have "LocalSDP E s = (plainBody sid ver s, s\<lparr>sessionID := sid, sessionVersion := ver\<rparr>)"
    using assms
    by (simp add: LocalSDP_def Let_def plainBody_def plainProf_def offerMode_def connIP_def localICESetup_def answeringOffer_def
        activeCodecs_def)
  then show ?thesis by blast
qed

subsection \<open>The lines of a plain body\<close>

definition plainAttrLines :: "string \<Rightarrow> Codec list \<Rightarrow> string list" where
  "plainAttrLines mode codecs = concat (map formatRTPMap codecs) @ [''a=ptime:20'', ''a=maxptime:20'', ''a='' @ mode]"

lemma plain_Name_lines:
  assumes "wireWf c" "l \<in> set (formatRTPMap c)"
  shows "okText l \<and> LType (lineOf l) = ''a''"
  using assms by (auto simp: formatRTPMap_def Let_def wireWf_def split: if_splits)

lemma plainAttrLines_ok:
  assumes "\<forall>c \<in> set codecs. wireWf c" "mode \<in> modes" "l \<in> set (plainAttrLines mode codecs)"
  shows "okText l \<and> LType (lineOf l) = ''a''"
  using assms plain_Name_lines
  by (auto simp: plainAttrLines_def modes_def ModeSendrecv_def ModeSendonly_def ModeRecvonly_def ModeInactive_def)

lemma attrsOf_plain:
  "attrsOf (plainAttrLines mode codecs) = concat (map rtpAttrs codecs) @ [''ptime:20'', ''maxptime:20'', mode]"
proof -
  have "attrsOf (concat (map formatRTPMap codecs)) = concat (map rtpAttrs codecs)"
    by (induction codecs) (simp_all add: rtpAttrs_def)
  then show ?thesis by (simp add: plainAttrLines_def)
qed

lemma attrsOf_session: "attrsOf (sessionLines sid ver o1 c1 None) = []"
  by (simp add: sessionLines_def attrsOf_def)

text \<open>The attributes of a plain body by their prefixes.\<close>

lemma plain_attrs_prefix:
  assumes "a \<in> set (concat (map rtpAttrs codecs) @ [''ptime:20'', ''maxptime:20'', mode])" "mode \<in> modes"
  shows "\<not> HasPrefix a ''crypto:''" "a \<in> modes \<Longrightarrow> a = mode"
  using assms
  by (auto simp: rtpAttrs_eq fmtpOf_def HasPrefix_def modes_def ModeSendrecv_def ModeSendonly_def ModeRecvonly_def ModeInactive_def
      split: if_splits)

lemma MediaDirection_plain:
  assumes "sd ''a'' = concat (map rtpAttrs codecs) @ [''ptime:20'', ''maxptime:20'', mode]" "mode \<in> modes"
  shows "MediaDirection sd = mode"
  using assms
  by (simp add: MediaDirection_def Values_def modes_def)

lemma remoteSDES_none: "\<forall>a \<in> set as. \<not> HasPrefix a ''crypto:'' \<Longrightarrow> remoteSDES E as s = (None, s)"
  by (induction as) simp_all

subsection \<open>The description of a plain body\<close>

lemma ip_no_slash: "To4 a \<noteq> [] \<Longrightarrow> CHR ''/'' \<notin> set (ipString a)"
proof -
  assume a: "To4 a \<noteq> []"
  have "CHR ''/'' \<notin> set (formatNat n)" for n by (rule formatNat_not_in) (simp add: isDigit_def)
  then have "list_all (\<lambda>c. c \<noteq> CHR ''/'') (ipv4String b)" for b
    unfolding ipv4String_def by (intro list_all_Join) (auto simp: list_all_iff)
  then show ?thesis by (auto simp: ipString_v4 [OF a] list_all_iff)
qed

lemma Fields_words: "list_all token ws \<Longrightarrow> Fields (Join ws '' '') = ws"
  by (rule Fields_Join) (auto simp: token_def list_all_iff)

lemma token_words:
  "token ''-''" "token ''IN''" "token (sdpIP a)" "token (ipString a)" "token (formatNat n)"
  using ipString_not_space [of a] formatNat_not_space [of n] by (simp_all add: token_def isSpace_def sdpIP_def)

lemma sessionInformation_plain:
  assumes "sd ''o'' = [''- '' @ formatNat (unat sid) @ '' '' @ formatNat (unat ver) @ '' IN '' @ sdpIP a @ '' '' @ ipString a]"
  shows "\<exists>si. sessionInformation sd = Inr si \<and> SessionID si = sid \<and> SessionVersion si = ver"
proof -
  let ?ws = "[''-'', formatNat (unat sid), formatNat (unat ver), ''IN'', sdpIP a, ipString a]"
  have o1: "sd ''o'' = [Join ?ws '' '']" using assms by simp
  have f: "Fields (Join ?ws '' '') = ?ws" by (rule Fields_words) (simp add: token_words)
  have p: "ParseUint 64 (formatNat (unat (w :: u64))) = Some (unat w)" for w
    using unsigned_less [of w] by (intro ParseUint_formatNat) simp
  show ?thesis
    unfolding sessionInformation_def sdpValue_def o1 list.case Let_def f by (simp add: p)
qed

lemma connectionInformation_plain:
  assumes "sd ''c'' = [''IN '' @ sdpIP a @ '' '' @ ipString a]" "sd ''m'' = [v]" "To4 a \<noteq> []"
  shows "\<exists>ci. connectionInformation sd = Inr ci \<and> CIP ci = To4 a"
proof -
  let ?ws = "[''IN'', ''IP4'', ipString a]"
  define w where "w = Join ?ws '' ''"
  have c: "sd ''c'' = [w]" using assms by (simp add: sdpIP_def w_def)
  have "token ''IP4''" by (simp add: token_def isSpace_def)
  then have f: "Fields w = ?ws" unfolding w_def by (intro Fields_words) (simp add: token_words)
  have sp: "Split (CHR ''/'') (ipString a) = [ipString a]" by (rule Split_single [OF ip_no_slash [OF assms(3)]])
  show ?thesis
    using assms(2,3) by (simp add: connectionInformation_def Values_def c Let_def f sp To4_ParseIP_ipString)
qed

subsection \<open>Applying a plain body\<close>

definition answeredStreams :: "string \<Rightarrow> int \<Rightarrow> Codec list \<Rightarrow> offeredStreams \<Rightarrow> offeredStreams" where
  "answeredStreams prof port codecs st = \<lparr>osMedia = map rejectedMedia (take (osAudio st) (osMedia st)) @ [audioMedia prof port codecs]
       @ map rejectedMedia (drop (Suc (osAudio st)) (osMedia st)), osAudio = streamsBefore st\<rparr>"

lemma answeredStreams_wf:
  assumes "streamsWf st" "token prof" "codecs \<noteq> []"
  shows "streamsWf (answeredStreams prof port codecs st)"
proof -
  have "mediaTokens m \<Longrightarrow> mediaTokens (rejectedMedia m)" for m
    by (simp add: mediaTokens_def rejectedMedia_def)
  moreover have "mediaTokens (audioMedia prof port codecs)"
    using assms by (simp add: mediaTokens_def audioMedia_def token_audio list_all_iff token_FormatInt)
  ultimately show ?thesis
    using assms(1) by (auto simp: streamsWf_def answeredStreams_def list_all_iff streamsBefore_def dest: in_set_takeD in_set_dropD)
qed

lemma map_Media_ourSections:
  "map Media (SMedia (ourSections sess (audioMedia prof port codecs) ls st)) = osMedia (answeredStreams prof port codecs st)"
  by (simp add: ourSections_def answeredStreams_def sectionOf_def comp_def)

definition commonCodecs :: "'ctx media_env \<Rightarrow> 'ctx MediaSession \<Rightarrow> Codec list \<Rightarrow> Codec list" where
  "commonCodecs E t remote = (if SDPCodecPreferLocalOrder E > 0 \<and> \<not> RemoteSDPIsAnswer t
     then filterLocalOrder (Codecs t) remote else filterRemoteOrder (Codecs t) remote)"

definition appliedPlain ::
  "'ctx media_env \<Rightarrow> string \<Rightarrow> ip \<Rightarrow> int \<Rightarrow> string \<Rightarrow> Codec list \<Rightarrow> offeredStreams \<Rightarrow> 'ctx MediaSession \<Rightarrow> 'ctx MediaSession" where
  "appliedPlain E prof conn port mode codecs st t = t\<lparr>remoteProto := prof,
     offStreams := (if RemoteSDPIsAnswer t then offStreams t else answeredStreams prof port codecs st),
     filterCodecs := commonCodecs E t (map wireCodec codecs), Raddr := \<lparr>IP = To4 conn, Port = port, Zone = []\<rparr>,
     rtcpRaddr := \<lparr>IP = To4 conn, Port = port + 1, Zone = []\<rparr>, negMode := negotiateMediaDirection mode (Mode t)\<rparr>"

text \<open>What a session reads of a plain body.\<close>

lemma plain_description:
  fixes codecs :: "Codec list" and mode prof :: string and port :: int and sid ver :: u64 and oip conn :: ip and st :: offeredStreams
  defines "as \<equiv> concat (map rtpAttrs codecs) @ [''ptime:20'', ''maxptime:20'', mode]"
    and "md \<equiv> audioMedia prof port codecs"
    and "secs \<equiv> ourSections (sessionLines sid ver oip conn None) (audioMedia prof port codecs) (plainAttrLines mode codecs) st"
  assumes proto: "keylessProto prof"
    and codecs: "codecs \<noteq> []" "\<forall>c \<in> set codecs. wireWf c" "distinct (map CPayloadType codecs)"
    and mode: "mode \<in> modes" and conn: "To4 conn \<noteq> []" and port: "0 < port" "port \<le> 65535" and st: "streamsWf st"
  obtains sd si ci where
    "UnmarshalSections (generateSDPForAudio sid ver prof oip conn port mode codecs noSDES None None st) = (None, secs)"
    "audioStream (SMedia secs) = Some (streamsBefore st)" "Media (SMedia secs ! streamsBefore st) = md"
    "Description secs (streamsBefore st) = Some sd" "sd ''a'' = as" "sessionInformation sd = Inr si"
    "connectionInformation sd = Inr ci" "CIP ci = To4 conn" "MediaDirection sd = mode"
    "CodecsFromSDPRead (Formats md) as (replicate (length (Formats md)) zeroCodec) = Some (map wireCodec codecs, length codecs, None)"
proof -
  let ?ls = "plainAttrLines mode codecs"
  have token: "token prof" and pp: "parseRTPProfile prof \<noteq> None" using proto by (auto simp: keylessProto_def)
  have u: "UnmarshalSections (generateSDPForAudio sid ver prof oip conn port mode codecs noSDES None None st) = (None, secs)"
    using plainAttrLines_ok [OF codecs(2) mode] port token codecs(1) st unfolding secs_def
    by (intro generateSDPForAudio_sections [OF refl]) (auto simp: audioLines_def plainAttrLines_def noSDES_def)
  have wfm: "wfMedia md" unfolding md_def using token codecs(1) port by (intro wfMedia_audio) auto
  obtain sd v where sd: "Description secs (streamsBefore st) = Some sd" "sd ''a'' = attrsOf (sessionLines sid ver oip conn None) @ attrsOf ?ls"
      "sd ''c'' = [''IN '' @ sdpIP conn @ '' '' @ ipString conn]"
      "sd ''o'' = [''- '' @ formatNat (unat sid) @ '' '' @ formatNat (unat ver) @ '' IN '' @ sdpIP oip @ '' '' @ ipString oip]"
      "sd ''m'' = [v]"
    using ourSections_description [OF pp port(1) wfm [unfolded md_def] _ refl, where ls = ?ls and iceSet = None and st = st]
      plainAttrLines_ok [OF codecs(2) mode] unfolding secs_def by blast
  have as: "sd ''a'' = as" using sd(2) by (simp only: attrsOf_session attrsOf_plain append_Nil as_def)
  obtain si where si: "sessionInformation sd = Inr si" using sessionInformation_plain [of sd sid ver oip] sd(4) by blast
  obtain ci where ci: "connectionInformation sd = Inr ci" "CIP ci = To4 conn"
    using connectionInformation_plain [of sd conn v] sd(3,5) conn by blast
  have norm: "noRtpmap []" "noRtpmap [''ptime:20'', ''maxptime:20'', mode]"
    using mode by (auto simp: noRtpmap_def HasPrefix_def modes_def ModeSendrecv_def ModeSendonly_def ModeRecvonly_def ModeInactive_def)
  have "CodecsFromSDPRead (map fmtOf codecs) as (replicate (length codecs) zeroCodec) = Some (map wireCodec codecs, length codecs, None)"
    using codecs_read_back [OF codecs(2,3) norm] unfolding as_def by simp
  moreover have "Formats md = map fmtOf codecs" by (simp add: md_def audioMedia_def FormatInt_def)
  moreover have "Media (SMedia secs ! streamsBefore st) = md"
    unfolding secs_def ourSections_audio(2) [OF pp port(1)] by (simp add: sectionOf_def md_def)
  moreover have "MediaDirection sd = mode" using MediaDirection_plain [of sd codecs mode] as mode unfolding as_def by blast
  moreover have "audioStream (SMedia secs) = Some (streamsBefore st)"
    unfolding secs_def by (rule ourSections_audio(1) [OF pp port(1)])
  ultimately show ?thesis using that [OF u _ _ sd(1) as si ci] by simp
qed

lemma RemoteSDP_plain:
  assumes proto: "keylessProto prof"
    and codecs: "codecs \<noteq> []" "\<forall>c \<in> set codecs. wireWf c" "distinct (map CPayloadType codecs)"
    and mode: "mode \<in> modes" and conn: "To4 conn \<noteq> []" and port: "0 < port" "port \<le> 65535" and st: "streamsWf st"
    and t: "SecureRTP t = 0" "Certificates (DTLSConf t) = []" "localCtxSRTP t = None" "remoteCtxSRTP t = None" "Codecs t \<noteq> []"
    and common: "commonCodecs E t (map wireCodec codecs) \<noteq> []"
  shows "\<exists>sid' ver'. RemoteSDP E off (generateSDPForAudio sid ver prof oip conn port mode codecs noSDES None None st) t
    = Some (None, off, (appliedPlain E prof conn port mode codecs st t)\<lparr>sessionID := sid', sessionVersion := ver'\<rparr>)"
proof -
  let ?md = "audioMedia prof port codecs" and ?as = "concat (map rtpAttrs codecs) @ [''ptime:20'', ''maxptime:20'', mode]"
  let ?secs = "ourSections (sessionLines sid ver oip conn None) ?md (plainAttrLines mode codecs) st"
  obtain sd si ci where d:
    "UnmarshalSections (generateSDPForAudio sid ver prof oip conn port mode codecs noSDES None None st) = (None, ?secs)"
    "audioStream (SMedia ?secs) = Some (streamsBefore st)" "Media (SMedia ?secs ! streamsBefore st) = ?md"
    "Description ?secs (streamsBefore st) = Some sd" "sd ''a'' = ?as" "sessionInformation sd = Inr si"
    and ci: "connectionInformation sd = Inr ci" "CIP ci = To4 conn" "MediaDirection sd = mode"
    and rd: "CodecsFromSDPRead (Formats ?md) ?as (replicate (length (Formats ?md)) zeroCodec) = Some (map wireCodec codecs, length codecs, None)"
    by (rule plain_description [OF proto codecs mode conn port st])
  define s1 where "s1 = remoteStreams ?secs (streamsBefore st) (remoteOrigin si t)"
  define s2 where "s2 = s1\<lparr>filterCodecs := commonCodecs E t (map wireCodec codecs)\<rparr>"
  define s3 where "s3 = (SetRemoteAddr \<lparr>IP = To4 conn, Port = port, Zone = []\<rparr> s2)\<lparr>negMode := negotiateMediaDirection mode (Mode t)\<rparr>"
  have sel: "Proto ?md = prof" "MPort ?md = port" by (simp_all add: audioMedia_def)
  have "\<lparr>osMedia = osMedia (answeredStreams prof port codecs st), osAudio = streamsBefore st\<rparr> = answeredStreams prof port codecs st"
    by (simp add: answeredStreams_def)
  then have s1: "s1 = (remoteOrigin si t)\<lparr>remoteProto := prof,
      offStreams := (if RemoteSDPIsAnswer t then offStreams t else answeredStreams prof port codecs st)\<rparr>"
    by (simp add: s1_def remoteStreams_def remoteOrigin_def d(3) sel map_Media_ourSections)
  have "updateRemoteCodecs E (map wireCodec codecs) (\<not> RemoteSDPIsAnswer t) s1 = (length (commonCodecs E t (map wireCodec codecs)), s2)"
    using t(5) by (simp add: updateRemoteCodecs_def s2_def s1 remoteOrigin_def commonCodecs_def Let_def)
  then have c: "remoteCodecs E ?md ?as (\<not> RemoteSDPIsAnswer t) s1 = Some (None, s2)"
    using common codecs(1) rd by (simp add: remoteCodecs_def)
  have "Mode s2 = Mode t" by (simp add: s2_def s1 remoteOrigin_def)
  then have a: "remoteAddress sd ?md s2 = (None, s3)"
    using ci conn port by (simp add: remoteAddress_def s3_def sel SetRemoteAddr_def)
  have "SecureRTP s3 = 0" "Certificates (DTLSConf s3) = []" "localCtxSRTP s3 = None"
    using t by (simp_all add: s3_def s2_def s1 remoteOrigin_def SetRemoteAddr_def)
  then have sec: "remoteSecurity E off ?as False s3 = (None, off, s3)"
    using remoteSDES_none [of ?as E s3] plain_attrs_prefix(1) [OF _ mode, of _ codecs]
    by (auto simp: remoteSecurity_def iceEnabled_def dtlsSRTP_def SecureRTPModeDTLS_def)
  obtain q where q: "parseRTPProfile prof = Some q" "secure q \<longrightarrow> dtls q" using proto by (auto simp: keylessProto_def)
  have nokey: "(secure q \<and> \<not> dtls q \<and> P) = False" for P using q(2) by simp
  have "RemoteSDP E off (generateSDPForAudio sid ver prof oip conn port mode codecs noSDES None None st) t = Some (None, off, s3)"
    unfolding RemoteSDP_def d(1) by (simp add: d(2-6) q(1) nokey sel Values_def c [unfolded s1_def] a sec Let_def)
  moreover have "s3 = (appliedPlain E prof conn port mode codecs st t)\<lparr>sessionID := sessionID s3, sessionVersion := sessionVersion s3\<rparr>"
    by (simp add: s3_def s2_def s1 remoteOrigin_def SetRemoteAddr_def appliedPlain_def)
  ultimately show ?thesis by metis
qed

end
