(* ===== verification/Media_Agreement.thy ===== *)
theory Media_Agreement
  imports Media_Plain
begin

text \<open>
  Two media sessions and the SDP they write to each other. For plain RTP the whole offer and answer
  is followed through both sessions, from text to text.
\<close>

section \<open>Codecs both sides have\<close>

lemma negotiatedCodec_simps [simp]:
  "CPayloadType (negotiatedCodec lc rc) = CPayloadType rc" "codecMatch (negotiatedCodec lc rc) d = codecMatch lc d"
  by (simp_all add: negotiatedCodec_def codecMatch_def)

lemma find_codec: "\<exists>l \<in> set L. codecMatch l r \<Longrightarrow> \<exists>l \<in> set L. List.find (\<lambda>l. codecMatch l r) L = Some l \<and> codecMatch l r"
  by (induction L) auto

text \<open>Every entry of the filter is a local codec that matches a remote one, under the remote number.\<close>

lemma filterRemoteOrder_mem:
  assumes "f \<in> set (filterRemoteOrder L R)"
  shows "\<exists>l \<in> set L. \<exists>r \<in> set R. codecMatch l r \<and> f = negotiatedCodec l r"
  using assms
proof (induction R)
  case (Cons r R)
  show ?case
  proof (cases "List.find (\<lambda>l. codecMatch l r) L")
    case None
    then show ?thesis using Cons by (auto simp: filterRemoteOrder_def map_filter_simps)
  next
    case (Some l)
    then have "l \<in> set L" "codecMatch l r" by (auto simp: find_Some_iff)
    then show ?thesis using Cons Some by (auto simp: filterRemoteOrder_def map_filter_simps)
  qed
qed (simp add: filterRemoteOrder_def map_filter_simps)

lemma filterRemoteOrder_total:
  "\<forall>r \<in> set R. \<exists>l \<in> set L. codecMatch l r \<Longrightarrow>
    list_all2 (\<lambda>f r. codecMatch f r \<and> CPayloadType f = CPayloadType r) (filterRemoteOrder L R) R"
proof (induction R)
  case (Cons r R)
  obtain l where "List.find (\<lambda>l. codecMatch l r) L = Some l" "codecMatch l r"
    using find_codec [of L r] Cons.prems by auto
  then show ?case using Cons by (simp add: filterRemoteOrder_def map_filter_simps)
qed (simp add: filterRemoteOrder_def map_filter_simps)

lemma filterRemoteOrder_nonempty:
  "r \<in> set R \<Longrightarrow> l \<in> set L \<Longrightarrow> codecMatch l r \<Longrightarrow> filterRemoteOrder L R \<noteq> []"
proof (induction R)
  case (Cons x R)
  then have "x = r \<Longrightarrow> List.find (\<lambda>l. codecMatch l x) L \<noteq> None" by (auto simp: find_None_iff)
  then show ?case using Cons by (auto simp: filterRemoteOrder_def map_filter_simps split: option.split)
qed simp

lemma filterRemoteOrder_distinct:
  "distinct (map CPayloadType R) \<Longrightarrow> distinct (map CPayloadType (filterRemoteOrder L R))"
proof (induction R)
  case (Cons r R)
  have "CPayloadType r \<notin> CPayloadType ` set (filterRemoteOrder L R)"
    using Cons.prems filterRemoteOrder_mem [of _ L R] by force
  then show ?case using Cons by (auto simp: filterRemoteOrder_def map_filter_simps split: option.split)
qed (simp add: filterRemoteOrder_def map_filter_simps)

lemma wireWf_negotiated:
  assumes "wireWf l" "wireWf a" "codecMatch l (wireCodec a)"
  shows "wireWf (negotiatedCodec l (wireCodec a))"
proof -
  have "CPayloadType (wireCodec a) = CPayloadType a" "codecMatch l a"
    using wireCodec_match [OF assms(2)] assms(3) codecMatch_sym codecMatch_trans by blast+
  then show ?thesis
    using assms codecMatch_trans [of l a] by (auto simp: wireWf_def negotiatedCodec_def codecMatch_def EqualFold_def)
qed

section \<open>Offer and answer\<close>

definition mirrored :: "string \<Rightarrow> string \<Rightarrow> bool" where
  "mirrored a b \<longleftrightarrow> (a = ModeSendrecv \<and> b = ModeSendrecv) \<or> (a = ModeSendonly \<and> b = ModeRecvonly)
     \<or> (a = ModeRecvonly \<and> b = ModeSendonly) \<or> (a = ModeInactive \<and> b = ModeInactive)"

lemma direction_mirrored:
  "m \<in> modes \<Longrightarrow> n \<in> modes \<Longrightarrow> negotiateMediaDirection m n \<in> modes
    \<and> mirrored (negotiateMediaDirection (negotiateMediaDirection m n) m) (negotiateMediaDirection m n)"
  by (auto simp: modes_def mirrored_def negotiateMediaDirection_def ModeSendrecv_def ModeSendonly_def ModeRecvonly_def ModeInactive_def)

lemma keylessProto_AVP: "keylessProto ''RTP/AVP''"
proof -
  have "ToUpper (TrimSpace ''RTP/AVP'') = ''RTP/AVP''"
    by (simp add: TrimSpace_def isSpace_def ToUpper_def toUpperChar_def)
  then show ?thesis by (simp add: keylessProto_def token_def isSpace_def parseRTPProfile_def Let_def HasPrefix_def TrimPrefix_def)
qed

lemma codecMatch_refl [simp]: "codecMatch c c"
  by (simp add: codecMatch_def EqualFold_def)

lemma wireCodec_pts: "\<forall>c \<in> set cs. wireWf c \<Longrightarrow> map CPayloadType (map wireCodec cs) = map CPayloadType cs"
  by (induction cs) (simp_all add: wireCodec_match)

text \<open>The codecs of the answer, and that the offerer finds every one of them in its own list.\<close>

lemma answer_codecs:
  assumes "\<forall>c \<in> set A. wireWf c" "\<forall>c \<in> set B. wireWf c" "distinct (map CPayloadType A)"
  defines "F \<equiv> filterRemoteOrder B (map wireCodec A)"
  shows "\<forall>c \<in> set F. wireWf c" "distinct (map CPayloadType F)"
    "\<forall>r \<in> set (map wireCodec F). \<exists>l \<in> set A. codecMatch l r"
proof -
  have f: "\<exists>b \<in> set B. \<exists>a \<in> set A. codecMatch b (wireCodec a) \<and> c = negotiatedCodec b (wireCodec a)" if "c \<in> set F" for c
    using filterRemoteOrder_mem [of c B "map wireCodec A"] that by (auto simp: F_def)
  show wf: "\<forall>c \<in> set F. wireWf c" using f assms(1,2) wireWf_negotiated by blast
  show "distinct (map CPayloadType F)"
    unfolding F_def using assms(1,3) wireCodec_pts [of A] by (intro filterRemoteOrder_distinct) (simp only:)
  have "\<exists>l \<in> set A. codecMatch l (wireCodec c)" if c: "c \<in> set F" for c
  proof -
    obtain b a where ab: "a \<in> set A" "codecMatch b (wireCodec a)" "c = negotiatedCodec b (wireCodec a)" using f [OF c] by blast
    have "codecMatch c (wireCodec a)" using ab by simp
    then have "codecMatch a c" using wireCodec_match(1) [of a] assms(1) ab(1) codecMatch_sym codecMatch_trans by blast
    then show ?thesis using wireCodec_match(1) [of c] wf c ab(1) codecMatch_trans by blast
  qed
  then show "\<forall>r \<in> set (map wireCodec F). \<exists>l \<in> set A. codecMatch l r" by simp
qed

lemma agreed_codecs:
  assumes "\<forall>c \<in> set F. wireWf c" "\<forall>r \<in> set (map wireCodec F). \<exists>l \<in> set A. codecMatch l r"
  shows "list_all2 (\<lambda>a b. codecMatch a b \<and> CPayloadType a = CPayloadType b) (filterRemoteOrder A (map wireCodec F)) F"
proof -
  have "list_all2 (\<lambda>f r. codecMatch f r \<and> CPayloadType f = CPayloadType r) (filterRemoteOrder A (map wireCodec F)) (map wireCodec F)"
    by (rule filterRemoteOrder_total) (fact assms(2))
  then have "list_all2 (\<lambda>f c. codecMatch f (wireCodec c) \<and> CPayloadType f = CPayloadType (wireCodec c)) (filterRemoteOrder A (map wireCodec F)) F"
    by (simp add: list_all2_map2)
  moreover have "codecMatch f c \<and> CPayloadType f = CPayloadType c"
    if "c \<in> set F" "codecMatch f (wireCodec c)" "CPayloadType f = CPayloadType (wireCodec c)" for f c
    using that wireCodec_match [of c] assms(1) codecMatch_sym codecMatch_trans by metis
  ultimately show ?thesis by (auto simp: list_all2_conv_all_nth)
qed

text \<open>A session about to write a plain body, and the step from its text to the reader's session.\<close>

definition plainWriter :: "'ctx MediaSession \<Rightarrow> bool" where
  "plainWriter s \<longleftrightarrow> staticSDP s = [] \<and> SecureRTP s = 0 \<and> iceAgent s = None \<and> estICE s = None \<and> plainProf s = ''RTP/AVP''
     \<and> activeCodecs s \<noteq> [] \<and> (\<forall>c \<in> set (activeCodecs s). wireWf c) \<and> distinct (map CPayloadType (activeCodecs s))
     \<and> offerMode s \<in> modes \<and> To4 (connIP s) \<noteq> [] \<and> 0 < Port (Laddr s) \<and> Port (Laddr s) \<le> 65535 \<and> streamsWf (offStreams s)"

abbreviation appliedFrom :: "'ctx media_env \<Rightarrow> 'ctx MediaSession \<Rightarrow> 'ctx MediaSession \<Rightarrow> 'ctx MediaSession" where
  "appliedFrom E s t \<equiv> appliedPlain E ''RTP/AVP'' (connIP s) (Port (Laddr s)) (offerMode s) (activeCodecs s) (offStreams s) t"

lemma plain_step:
  fixes s t :: "'ctx MediaSession"
  assumes s: "plainWriter s" and t: "plainEnd t" and common: "commonCodecs E' t (map wireCodec (activeCodecs s)) \<noteq> []"
  obtains body sid ver sid' ver' where "LocalSDP E s = (body, s\<lparr>sessionID := sid, sessionVersion := ver\<rparr>)"
    "RemoteSDP E' off body t = Some (None, off, (appliedFrom E' s t)\<lparr>sessionID := sid', sessionVersion := ver'\<rparr>)"
proof -
  obtain sid ver where l: "LocalSDP E s = (plainBody sid ver s, s\<lparr>sessionID := sid, sessionVersion := ver\<rparr>)"
    using LocalSDP_plain [of s E] s by (auto simp: plainWriter_def)
  have "plainBody sid ver s = generateSDPForAudio sid ver ''RTP/AVP'' (IP (Laddr s)) (connIP s) (Port (Laddr s)) (offerMode s)
      (activeCodecs s) noSDES None None (offStreams s)"
    using s by (simp add: plainBody_def plainWriter_def)
  moreover have "\<exists>sid' ver'. RemoteSDP E' off (generateSDPForAudio sid ver ''RTP/AVP'' (IP (Laddr s)) (connIP s) (Port (Laddr s)) (offerMode s)
      (activeCodecs s) noSDES None None (offStreams s)) t = Some (None, off, (appliedFrom E' s t)\<lparr>sessionID := sid', sessionVersion := ver'\<rparr>)"
    using s t common by (intro RemoteSDP_plain [OF keylessProto_AVP]) (auto simp: plainWriter_def plainEnd_def)
  ultimately show ?thesis using l that by auto
qed


lemma codec_matches:
  "codecMatch CodecAudioUlaw CodecAudioUlaw" "\<not> EqualFold (Name CodecAudioUlaw) (Name CodecAudioOpus)"
  "\<not> EqualFold (Name CodecAudioUlaw) (Name CodecTelephoneEvent8000)" "\<not> EqualFold (Name CodecAudioOpus) (Name CodecTelephoneEvent8000)"
  by code_simp+

lemma wireWf_examples: "wireWf CodecAudioUlaw" "wireWf CodecAudioOpus" "wireWf (CodecAudioOpus\<lparr>CPayloadType := 111\<rparr>)"
  using codec_matches
  by (simp_all add: wireWf_def) (simp_all add: CodecAudioUlaw_def CodecAudioOpus_def codecMatch_def EqualFold_def)

lemma plainEnd_examples: "plainEnd exOfferer" "plainEnd exAnswerer"
  using wireWf_examples
  by (simp_all add: plainEnd_def exOfferer_def exAnswerer_def zeroSession_def streamsWf_def zeroOfferedStreams_def modes_def connIP_def To4_def)
    (simp_all add: CodecAudioUlaw_def CodecAudioOpus_def)




end
