(* ===== verification/Media_Finalize.thy ===== *)
theory Media_Finalize
  imports Media_Sdp
begin

text \<open>
  \<open>Finalize\<close> of \<open>media/media_session.go\<close>: the negotiation \<open>RemoteSDP\<close> armed, which checks the ICE pair,
  runs the DTLS handshake and keys SRTP, and its life in the background when \<open>FinalizeWithin\<close> leaves
  it running. The calls and the end of the negotiation are the steps of a transition relation, in
  any order the goroutines give.
\<close>

section \<open>The negotiation\<close>

text \<open>
  What the handshake of one negotiation gives: the ICE pair, the results of the DTLS library, the
  profile it selected and the keying material it exports.
\<close>

record handshake =
  hsConnect :: "go_error + UDPAddr \<times> conn \<times> conn \<times> conn"
  hsResult :: "go_error option"
  hsClose :: "go_error option"
  hsState :: bool
  hsProfile :: srtp_profile
  hsExport :: "nat \<Rightarrow> go_error + bytes"

text \<open>The keys and salts of the two directions: ours first.\<close>

definition srtpKeys :: "bool \<Rightarrow> nat \<Rightarrow> nat \<Rightarrow> bytes \<Rightarrow> (bytes \<times> bytes) \<times> (bytes \<times> bytes)" where
  "srtpKeys client k n km =
    (let clientKey = take k km; serverKey = take k (drop k km);
         clientSalt = take n (drop (2 * k) km); serverSalt = drop (2 * k + n) km
     in if client then ((clientKey, clientSalt), (serverKey, serverSalt))
        else ((serverKey, serverSalt), (clientKey, clientSalt)))"

definition startICE :: "handshake \<Rightarrow> 'ctx MediaSession \<Rightarrow> go_error option \<times> 'ctx MediaSession" where
  "startICE h s = (case iceAgent s of
     None \<Rightarrow> (Some (ErrOther 0), s)
   | Some ag \<Rightarrow>
       if \<not> agentInit ag \<or> agRemoteUfrag ag = [] \<or> agRemotePwd ag = [] then (Some (ErrOther 1), s)
       else (case hsConnect h of
           Inl e \<Rightarrow> (Some e, s)
         | Inr (raddr, cDtls, cRtp, cRtcp) \<Rightarrow>
             (None, (SetRemoteAddr raddr s)\<lparr>rtcpRaddr := raddr, iceMux := Some (cDtls, cRtp, cRtcp),
               rtpConn := Some cRtp, rtcpConn := Some cRtcp\<rparr>)))"

definition keySRTP ::
  "'ctx media_env \<Rightarrow> handshake \<Rightarrow> armedDTLS \<Rightarrow> 'ctx MediaSession \<Rightarrow> go_error option \<times> 'ctx MediaSession" where
  "keySRTP E h a s = (case keyLen E (hsProfile h) of
     Inl e \<Rightarrow> (Some e, s)
   | Inr k \<Rightarrow> (case saltLen E (hsProfile h) of
     Inl e \<Rightarrow> (Some e, s)
   | Inr n \<Rightarrow> (case hsExport h (2 * (k + n)) of
     Inl e \<Rightarrow> (Some e, s)
   | Inr km \<Rightarrow> (case srtpKeys (armedClient a) k n km of ((lk, ls), (rk, rs)) \<Rightarrow>
       (case createContext E lk ls (hsProfile h) of
          Inl e \<Rightarrow> (Some e, s\<lparr>localCtxSRTP := None\<rparr>)
        | Inr lc \<Rightarrow> (case createContext E rk rs (hsProfile h) of
              Inl e \<Rightarrow> (Some e, s\<lparr>localCtxSRTP := Some lc, remoteCtxSRTP := None\<rparr>)
            | Inr rc \<Rightarrow>
                let s1 = s\<lparr>localCtxSRTP := Some lc, remoteCtxSRTP := Some rc, dtlsAssoc := Some (armedAssoc a)\<rparr>;
                    s2 = (if iceEnabled s1 then s1\<lparr>estICE := map_option (\<lambda>ag. \<lparr>eiLocal = agentICESetup s1 ag,
                        eiRemoteUfrag = remoteICEUfrag s1, eiRemotePwd = remoteICEPwd s1\<rparr>) (iceAgent s1)\<rparr> else s1)
                in (None, s2\<lparr>dtlsKeyed := True, dtlsUnkeyed := False\<rparr>)))))))"

definition negotiation ::
  "'ctx media_env \<Rightarrow> handshake \<Rightarrow> armedDTLS \<Rightarrow> 'ctx MediaSession \<Rightarrow> go_error option \<times> 'ctx MediaSession" where
  "negotiation E h a s =
    (case (if iceEnabled s then (case startICE h s of (Some e, s') \<Rightarrow> (Some e, s') | (None, s') \<Rightarrow> (dialDTLS E, s')) else (None, s)) of
       (Some e, s1) \<Rightarrow> (Some e, s1)
     | (None, s1) \<Rightarrow>
         (case hsResult h of Some e \<Rightarrow> (Some e, s1) | None \<Rightarrow>
         (case hsClose h of Some e \<Rightarrow> (Some e, s1) | None \<Rightarrow>
          if \<not> hsState h then (Some (ErrOther 2), s1) else keySRTP E h a s1)))"

section \<open>Steps\<close>

definition startFinalizeRun :: "armedDTLS \<Rightarrow> 'ctx MediaSession \<Rightarrow> 'ctx MediaSession" where
  "startFinalizeRun a s = s\<lparr>onFinalize := None, finalizeRun := Some (a, None), dtlsUnkeyed := True\<rparr>"

definition endFinalizeRun :: "go_error option \<Rightarrow> 'ctx MediaSession \<Rightarrow> 'ctx MediaSession" where
  "endFinalizeRun e s = s\<lparr>finalizeRun := None, finalizeErr := (if e = None then finalizeErr s else e)\<rparr>"

definition FinalizePending :: "'ctx MediaSession \<Rightarrow> bool" where
  "FinalizePending s \<longleftrightarrow> onFinalize s \<noteq> None \<or> finalizeRun s \<noteq> None"

datatype fin_result = FinDone | FinInProgress | FinFailed go_error | FinStopped

definition finResult :: "go_error option \<Rightarrow> fin_result" where
  "finResult e = (case e of None \<Rightarrow> FinDone | Some e \<Rightarrow> FinFailed e)"

text \<open>
  \<open>StepStart\<close> is \<open>FinalizeWithin\<close> taking the armed negotiation to the background, \<open>StepRun\<close> the end of the
  negotiation there, \<open>StepReport\<close> a \<open>FinalizeContext\<close> or \<open>FinalizeWithin\<close> that returns, and
  \<open>StepStop\<close> an \<open>awaitFinalizeRun\<close> that gave up after the negotiation it cancelled has returned.
  \<open>StepInline\<close> is \<open>FinalizeContext\<close> running an armed negotiation itself.
\<close>

datatype fin_label = StepStart | StepRun "go_error option" | StepReport fin_result | StepStop fin_result
  | StepInline "go_error option"

inductive fin_step :: "'ctx MediaSession \<Rightarrow> fin_label \<Rightarrow> 'ctx MediaSession \<Rightarrow> bool" where
  fin_start: "finalizeRun s = None \<Longrightarrow> finalizeErr s = None \<Longrightarrow> onFinalize s = Some a \<Longrightarrow>
    fin_step s StepStart (startFinalizeRun a s)"
| fin_run: "finalizeRun s = Some (a, None) \<Longrightarrow> negotiation E h a s = (e, s') \<Longrightarrow>
    fin_step s (StepRun e) (s'\<lparr>finalizeRun := Some (a, Some e)\<rparr>)"
| fin_progress: "finalizeRun s = Some (a, None) \<Longrightarrow> fin_step s (StepReport FinInProgress) s"
| fin_ended: "finalizeRun s = Some (a, Some e) \<Longrightarrow> fin_step s (StepReport (finResult e)) (endFinalizeRun e s)"
| fin_error: "finalizeRun s = None \<Longrightarrow> finalizeErr s = Some e \<Longrightarrow> fin_step s (StepReport (FinFailed e)) s"
| fin_nothing: "finalizeRun s = None \<Longrightarrow> finalizeErr s = None \<Longrightarrow> onFinalize s = None \<Longrightarrow> fin_step s (StepReport FinDone) s"
| fin_stop: "finalizeRun s = Some (a, Some e) \<Longrightarrow>
    fin_step s (StepStop (if e = None then FinDone else FinStopped)) (endFinalizeRun e s)"
| fin_inline: "finalizeRun s = None \<Longrightarrow> finalizeErr s = None \<Longrightarrow> onFinalize s = Some a \<Longrightarrow> negotiation E h a s = (e, s') \<Longrightarrow>
    fin_step s (StepInline e) (s'\<lparr>onFinalize := None\<rparr>)"

inductive_cases fin_stepE: "fin_step s l t"

section \<open>What the negotiation changes\<close>

definition finState :: "'ctx MediaSession \<Rightarrow> _" where
  "finState s = (onFinalize s, finalizeRun s, finalizeErr s)"

lemma keySRTP_result:
  assumes "keySRTP E h a s = (e, s')"
  shows "finState s' = finState s"
    and "e \<noteq> None \<Longrightarrow> dtlsUnkeyed s' = dtlsUnkeyed s \<and> dtlsKeyed s' = dtlsKeyed s"
    and "e = None \<Longrightarrow> \<not> dtlsUnkeyed s' \<and> dtlsKeyed s' \<and> localCtxSRTP s' \<noteq> None \<and> remoteCtxSRTP s' \<noteq> None
      \<and> dtlsAssoc s' = Some (armedAssoc a)"
  using assms by (auto simp: keySRTP_def finState_def Let_def split: sum.splits prod.splits)

lemma negotiation_result:
  assumes "negotiation E h a s = (e, s')"
  shows "finState s' = finState s"
    and "e \<noteq> None \<Longrightarrow> dtlsUnkeyed s' = dtlsUnkeyed s \<and> dtlsKeyed s' = dtlsKeyed s"
    and "e = None \<Longrightarrow> \<not> dtlsUnkeyed s' \<and> dtlsKeyed s' \<and> localCtxSRTP s' \<noteq> None \<and> remoteCtxSRTP s' \<noteq> None"
proof -
  have ice: "finState s1 = finState s \<and> dtlsUnkeyed s1 = dtlsUnkeyed s \<and> dtlsKeyed s1 = dtlsKeyed s"
    if "startICE h s = (x, s1)" for x s1
    using that by (auto simp: startICE_def finState_def SetRemoteAddr_def split: option.splits if_splits sum.splits)
  obtain x s1 where 1: "(if iceEnabled s then (case startICE h s of (Some e, s') \<Rightarrow> (Some e, s') | (None, s') \<Rightarrow> (dialDTLS E, s'))
      else (None, s)) = (x, s1)" by fastforce
  have keep: "finState s1 = finState s" "dtlsUnkeyed s1 = dtlsUnkeyed s" "dtlsKeyed s1 = dtlsKeyed s"
    using 1 ice by (auto split: if_splits prod.splits option.splits)
  have "(e \<noteq> None \<and> s' = s1) \<or> keySRTP E h a s1 = (e, s')"
    using assms unfolding negotiation_def 1
    by (auto split: option.splits if_splits dest!: sym [of "Some _"])
  then show "finState s' = finState s"
    and "e \<noteq> None \<Longrightarrow> dtlsUnkeyed s' = dtlsUnkeyed s \<and> dtlsKeyed s' = dtlsKeyed s"
    and "e = None \<Longrightarrow> \<not> dtlsUnkeyed s' \<and> dtlsKeyed s' \<and> localCtxSRTP s' \<noteq> None \<and> remoteCtxSRTP s' \<noteq> None"
    using keep keySRTP_result [of E h a s1 e s'] by auto
qed

section \<open>A negotiation in the background\<close>

text \<open>
  The invariant from \<open>FinalizeWithin\<close> on: media is refused, or the session is keyed; a negotiation
  that runs or has failed refuses media; and one that was reported without error has keyed it.
\<close>

definition keyed :: "'ctx MediaSession \<Rightarrow> bool" where
  "keyed s \<longleftrightarrow> \<not> dtlsUnkeyed s \<and> dtlsKeyed s \<and> localCtxSRTP s \<noteq> None \<and> remoteCtxSRTP s \<noteq> None"

definition finInv :: "'ctx MediaSession \<Rightarrow> bool" where
  "finInv s \<longleftrightarrow> onFinalize s = None \<and> (case finalizeRun s of
     Some (a, None) \<Rightarrow> dtlsUnkeyed s \<and> finalizeErr s = None
   | Some (a, Some (Some e)) \<Rightarrow> dtlsUnkeyed s \<and> finalizeErr s = None
   | Some (a, Some None) \<Rightarrow> keyed s \<and> finalizeErr s = None
   | None \<Rightarrow> if finalizeErr s = None then keyed s else dtlsUnkeyed s)"

definition finInit :: "'ctx MediaSession \<Rightarrow> bool" where
  "finInit s \<longleftrightarrow> (\<exists>a s0. finalizeErr s0 = None \<and> s = startFinalizeRun a s0)"

lemma finInv_step:
  assumes "finInv s" "fin_step s l t"
  shows "finInv t"
  using assms(2)
proof cases
  case (fin_run a E h e s')
  have "finState s' = finState s" using negotiation_result(1) [OF fin_run(4)] .
  then show ?thesis
    using assms(1) fin_run negotiation_result(2,3) [OF fin_run(4)]
    by (cases e) (auto simp: finInv_def finState_def keyed_def)
next
  case (fin_ended a e)
  then show ?thesis using assms(1) by (cases e) (auto simp: finInv_def endFinalizeRun_def keyed_def)
next
  case (fin_stop a e)
  then show ?thesis using assms(1) by (cases e) (auto simp: finInv_def endFinalizeRun_def keyed_def)
qed (use assms(1) in \<open>auto simp: finInv_def\<close>)

interpretation fin: transition_system finInit fin_step finInv
proof
  show "finInv s" if "finInit s" for s :: "'a MediaSession"
    using that by (auto simp: finInit_def finInv_def startFinalizeRun_def)
qed (fact finInv_step)

lemma finInv_safe: "finInv s \<Longrightarrow> dtlsUnkeyed s \<or> keyed s"
  by (auto simp: finInv_def split: option.splits prod.splits if_splits)

lemma finInv_done:
  assumes "finInv s" "fin_step s (StepReport FinDone) t"
  shows "keyed t"
  using assms(2)
proof cases
  case (fin_ended a e)
  then show ?thesis using assms(1) by (cases e) (auto simp: finInv_def endFinalizeRun_def keyed_def finResult_def)
qed (use assms(1) in \<open>auto simp: finInv_def finResult_def\<close>)


text \<open>A background negotiation that fails: the session keeps refusing media.\<close>

definition exArmed :: armedDTLS where
  "exArmed = \<lparr>armedClient = True, armedAssoc = \<lparr>assocSetup = ''active'', localFingerprints = [], remoteFingerprints = [],
     assocRemoteTLSID = [], assocLocalTLSID = [], assocLaddr = zeroUDPAddr, assocRaddr = zeroUDPAddr\<rparr>, armedFingerprints = []\<rparr>"

definition exHandshake :: "go_error option \<Rightarrow> handshake" where
  "exHandshake e = \<lparr>hsConnect = Inl EOF, hsResult = e, hsClose = None, hsState = True, hsProfile = Aes128CmHmacSha1_80,
     hsExport = (\<lambda>n. Inr (map of_nat [0..<n]))\<rparr>"

lemma exHandshake_fails: "negotiation exEnv (exHandshake (Some EOF)) exArmed (startFinalizeRun exArmed exOfferer)
    = (Some EOF, startFinalizeRun exArmed exOfferer)"
  by (simp add: negotiation_def iceEnabled_def startFinalizeRun_def exOfferer_def zeroSession_def exHandshake_def)


section \<open>Both ends\<close>

lemma keySRTP_ctx:
  assumes "keySRTP E h a s = (None, s')"
  obtains k n km lk ls rk rs lc rc where "keyLen E (hsProfile h) = Inr k" "saltLen E (hsProfile h) = Inr n"
    "hsExport h (2 * (k + n)) = Inr km" "srtpKeys (armedClient a) k n km = ((lk, ls), (rk, rs))"
    "createContext E lk ls (hsProfile h) = Inr lc" "createContext E rk rs (hsProfile h) = Inr rc"
    "localCtxSRTP s' = Some lc" "remoteCtxSRTP s' = Some rc"
  using assms by (auto simp: keySRTP_def Let_def split: sum.splits prod.splits)

lemma negotiation_keySRTP:
  assumes "negotiation E h a s = (None, s')"
  shows "\<exists>s1. keySRTP E h a s1 = (None, s')"
proof -
  obtain x s1 where 1: "(if iceEnabled s then (case startICE h s of (Some e, s') \<Rightarrow> (Some e, s') | (None, s') \<Rightarrow> (dialDTLS E, s'))
      else (None, s)) = (x, s1)" by fastforce
  then show ?thesis
    using assms unfolding negotiation_def 1 by (cases x; cases "hsResult h"; cases "hsClose h") (auto split: if_splits)
qed

lemma armed_role:
  "armDTLSHandshake E fps tlsID s = (None, s') \<Longrightarrow> onFinalize s' = Some a \<Longrightarrow> armedClient a = dtlsActsAsClient s"
  by (auto simp: armDTLSHandshake_def Let_def split: if_splits option.splits)

text \<open>The role an answerer takes and the role its peer takes on reading it are opposite.\<close>

lemma roles_opposite:
  assumes "SDPSetupRole (DTLSConf A) = None" "SDPSetupRole (DTLSConf B) = None"
    and "ToLower (TrimSpace (dtlsRemoteSetup B)) \<in> {dtlsSetupActive, dtlsSetupPassive, dtlsSetupActPass}"
    and "dtlsRemoteSetup A = localDTLSSetup B"
  shows "dtlsActsAsClient A \<longleftrightarrow> \<not> dtlsActsAsClient B"
proof -
  have id: "ToLower (TrimSpace ''active'') = ''active''" "ToLower (TrimSpace ''passive'') = ''passive''" by code_simp+
  have "localDTLSSetup B = ''active'' \<or> localDTLSSetup B = ''passive''"
    using assms(2,3) by (auto simp: localDTLSSetup_def Let_def dtlsSetupActive_def dtlsSetupPassive_def dtlsSetupActPass_def)
  then show ?thesis
    using assms(1,4) id
    by (auto simp: dtlsActsAsClient_def localDTLSSetup_def [of A] Let_def dtlsSetupActive_def dtlsSetupPassive_def dtlsSetupActPass_def)
qed

text \<open>
  C4. DTLS-SRTP between two sessions: the answerer takes a role from the offer's \<open>a=setup\<close>, the offerer
  the role that follows from the answer's. When both handshakes complete with the same keying
  material, each side protects its media with the context the other side reads it with.
\<close>

theorem dtls_keys_agree:
  fixes A B :: "'ctx MediaSession"
  assumes roles: "SDPSetupRole (DTLSConf A) = None" "SDPSetupRole (DTLSConf B) = None"
      "ToLower (TrimSpace (dtlsRemoteSetup B)) \<in> {dtlsSetupActive, dtlsSetupPassive, dtlsSetupActPass}"
      "dtlsRemoteSetup A = localDTLSSetup B"
    and armed: "armDTLSHandshake E fpsA idA A = (None, A1)" "onFinalize A1 = Some a"
      "armDTLSHandshake E fpsB idB B = (None, B1)" "onFinalize B1 = Some b"
    and run: "negotiation E h a A1 = (None, A2)" "negotiation E h' b B1 = (None, B2)"
    and same: "hsProfile h = hsProfile h'" "hsExport h = hsExport h'"
  shows "localCtxSRTP A2 = remoteCtxSRTP B2 \<and> localCtxSRTP B2 = remoteCtxSRTP A2 \<and> localCtxSRTP A2 \<noteq> None \<and> localCtxSRTP B2 \<noteq> None"
proof -
  have opp: "armedClient a \<longleftrightarrow> \<not> armedClient b"
    using armed_role [OF armed(1,2)] armed_role [OF armed(3,4)] roles_opposite [OF roles] by simp
  obtain s1 s2 where "keySRTP E h a s1 = (None, A2)" "keySRTP E h' b s2 = (None, B2)"
    using negotiation_keySRTP [OF run(1)] negotiation_keySRTP [OF run(2)] by blast
  then show ?thesis
    using opp same by (elim keySRTP_ctx) (auto simp: srtpKeys_def Let_def split: if_splits)
qed

text \<open>An offer with \<open>a=setup:actpass\<close> answered with \<open>a=setup:active\<close>.\<close>

definition exDTLSOfferer :: "(bytes \<times> bytes) MediaSession" where
  "exDTLSOfferer = exOfferer\<lparr>dtlsRemoteSetup := ''active''\<rparr>"

definition exDTLSAnswerer :: "(bytes \<times> bytes) MediaSession" where
  "exDTLSAnswerer = exAnswerer\<lparr>dtlsRemoteSetup := ''actpass''\<rparr>"

definition exArm :: "(bytes \<times> bytes) MediaSession \<Rightarrow> (bytes \<times> bytes) MediaSession" where
  "exArm s = snd (armDTLSHandshake exEnv [] [] s)"

definition exKeyed :: "(bytes \<times> bytes) MediaSession \<Rightarrow> (bytes \<times> bytes) MediaSession" where
  "exKeyed s = snd (negotiation exEnv (exHandshake None) (the (onFinalize (exArm s))) (exArm s))"

lemma exArm_ok:
  assumes "s \<in> {exDTLSOfferer, exDTLSAnswerer}"
  shows "armDTLSHandshake exEnv [] [] s = (None, exArm s)" "onFinalize (exArm s) = Some (the (onFinalize (exArm s)))"
    "negotiation exEnv (exHandshake None) (the (onFinalize (exArm s))) (exArm s) = (None, exKeyed s)"
proof -
  have "fst (armDTLSHandshake exEnv [] [] exDTLSOfferer) = None" "fst (armDTLSHandshake exEnv [] [] exDTLSAnswerer) = None" by code_simp+
  then show "armDTLSHandshake exEnv [] [] s = (None, exArm s)" using assms by (auto simp: exArm_def prod_eq_iff)
  have "onFinalize (exArm exDTLSOfferer) \<noteq> None" "onFinalize (exArm exDTLSAnswerer) \<noteq> None" by code_simp+
  then show "onFinalize (exArm s) = Some (the (onFinalize (exArm s)))" using assms by auto
  have "fst (negotiation exEnv (exHandshake None) (the (onFinalize (exArm exDTLSOfferer))) (exArm exDTLSOfferer)) = None"
    "fst (negotiation exEnv (exHandshake None) (the (onFinalize (exArm exDTLSAnswerer))) (exArm exDTLSAnswerer)) = None" by code_simp+
  then show "negotiation exEnv (exHandshake None) (the (onFinalize (exArm s))) (exArm s) = (None, exKeyed s)"
    using assms by (auto simp: exKeyed_def prod_eq_iff)
qed

theorem dtls_keys_agree_witness:
  "localCtxSRTP (exKeyed exDTLSOfferer) = remoteCtxSRTP (exKeyed exDTLSAnswerer)
    \<and> localCtxSRTP (exKeyed exDTLSAnswerer) = remoteCtxSRTP (exKeyed exDTLSOfferer)
    \<and> localCtxSRTP (exKeyed exDTLSOfferer) \<noteq> None \<and> localCtxSRTP (exKeyed exDTLSAnswerer) \<noteq> None"
proof (rule dtls_keys_agree [where E = exEnv and A = exDTLSOfferer and B = exDTLSAnswerer])
  show "SDPSetupRole (DTLSConf exDTLSOfferer) = None" "SDPSetupRole (DTLSConf exDTLSAnswerer) = None" by code_simp+
  show "ToLower (TrimSpace (dtlsRemoteSetup exDTLSAnswerer)) \<in> {dtlsSetupActive, dtlsSetupPassive, dtlsSetupActPass}" by code_simp
  show "dtlsRemoteSetup exDTLSOfferer = localDTLSSetup exDTLSAnswerer" by code_simp
qed (rule exArm_ok refl | simp)+

end
