(* ===== verification/Media_IO.thy ===== *)
theory Media_IO
  imports Media_Sdp Rtp_Packet
begin

text \<open>
  Reading and writing media on a session of \<open>media/media_session.go\<close>: \<open>ReadRTP\<close>, \<open>ReadRTCP\<close>, their raw
  forms, and the writers. What arrives at a socket is a list of results of \<open>ReadFrom\<close>; a read that
  uses all of it is still waiting. A writer returns what it hands to the socket, with the address.
  The RTP, RTCP and SRTP libraries are the fields of \<open>media_lib\<close>; an SRTP context is a value they map
  to its successor.
\<close>

section \<open>The libraries\<close>

record ('ctx, 'p) media_lib =
  unmarshalRTP :: "bytes \<Rightarrow> go_error + rtp_packet"
  marshalRTP :: "rtp_packet \<Rightarrow> nat \<Rightarrow> go_error + bytes"
  headerSize :: "rtp_header \<Rightarrow> nat"
  decryptRTP :: "'ctx \<Rightarrow> bytes \<Rightarrow> (go_error + bytes \<times> rtp_header) \<times> 'ctx"
  encryptRTP :: "'ctx \<Rightarrow> bytes \<Rightarrow> rtp_header \<Rightarrow> (go_error + bytes) \<times> 'ctx"
  rtcpHeader :: "bytes \<Rightarrow> go_error + u16 \<times> u8"
  rtcpTyped :: "u8 \<Rightarrow> bytes \<Rightarrow> go_error + 'p"
  decryptRTCP :: "'ctx \<Rightarrow> bytes \<Rightarrow> (go_error + bytes) \<times> 'ctx"
  encryptRTCP :: "'ctx \<Rightarrow> bytes \<Rightarrow> (go_error + bytes) \<times> 'ctx"
  marshalRTCP :: "'p list \<Rightarrow> go_error + bytes"
  sendTo :: "bytes \<Rightarrow> UDPAddr \<Rightarrow> nat \<times> go_error option"

datatype recv = Datagram bytes Addr | RecvErr go_error

datatype io_error = IoErr go_error | IoShortBuffer | IoPayload parse_error | IoRtcp rtcp_error
  | ErrDTLSNotKeyed | ErrShortWrite | ErrNoConnection

datatype 'a io_result = IoWait | IoFail nat io_error | IoOk nat 'a

section \<open>RTP\<close>

text \<open>The learning of the peer's address behind a NAT: only the first change is kept.\<close>

definition learnRTP :: "Addr \<Rightarrow> rtp_packet \<Rightarrow> 'ctx MediaSession \<Rightarrow> 'ctx MediaSession" where
  "learnRTP from pkt s =
    (if RTPNAT s = 1 \<and> addrString from \<noteq> udpString (Raddr s) \<and> Version (Header pkt) = 2 then
       (case from of
          UDP a \<Rightarrow> if learnedRTPFrom s = None then s\<lparr>learnedRTPFrom := Some a\<rparr> else s
        | OtherAddr _ \<Rightarrow> s)
     else s)"

definition deliverRTP :: "Addr \<Rightarrow> nat \<Rightarrow> rtp_packet \<Rightarrow> 'ctx MediaSession \<Rightarrow> rtp_packet io_result \<times> 'ctx MediaSession" where
  "deliverRTP from n pkt s =
    (let s' = learnRTP from pkt (s\<lparr>ReadRTPFromAddr := Some from\<rparr>) in
     (IoOk (if negMode s' = ModeSendonly then 0 else n) pkt, s'))"

fun msReadLoop ::
  "('ctx, 'p) media_lib \<Rightarrow> nat \<Rightarrow> recv list \<Rightarrow> 'ctx MediaSession \<Rightarrow> rtp_packet io_result \<times> recv list \<times> 'ctx MediaSession" where
  "msReadLoop L bufLen [] s = (IoWait, [], s)"
| "msReadLoop L bufLen (RecvErr e # evs) s = (IoFail 0 (IoErr e), evs, s)"
| "msReadLoop L bufLen (Datagram d from # evs) s =
    (let buf = take bufLen d in
     if dtlsSRTP s \<and> \<not> dtlsKeyed s then msReadLoop L bufLen evs s
     else case remoteCtxSRTP s of
         None \<Rightarrow> (case unmarshalRTP L buf of
             Inl e \<Rightarrow> (IoFail (length buf) (IoErr e), evs, s)
           | Inr pkt \<Rightarrow> (case deliverRTP from (length buf) pkt s of (r, s') \<Rightarrow> (r, evs, s')))
       | Some c \<Rightarrow> (case decryptRTP L c buf of
             (Inl e, c') \<Rightarrow> msReadLoop L bufLen evs (s\<lparr>remoteCtxSRTP := Some c', srtpAuthFailures := srtpAuthFailures s + 1\<rparr>)
           | (Inr (dec, hdr), c') \<Rightarrow>
               (case rtpUnmarshalPayload (headerSize L) dec \<lparr>Header = hdr, Payload = [], PaddingSize = 0\<rparr> of
                  (Some e, _) \<Rightarrow> (IoFail (length dec) (IoPayload e), evs, s\<lparr>remoteCtxSRTP := Some c'\<rparr>)
                | (None, pkt) \<Rightarrow>
                    (case deliverRTP from (length dec) pkt (s\<lparr>remoteCtxSRTP := Some c'\<rparr>) of (r, s') \<Rightarrow> (r, evs, s')))))"

definition msReadRTP ::
  "('ctx, 'p) media_lib \<Rightarrow> nat \<Rightarrow> recv list \<Rightarrow> 'ctx MediaSession \<Rightarrow> rtp_packet io_result \<times> recv list \<times> 'ctx MediaSession" where
  "msReadRTP L bufLen evs s = (if bufLen < RTPBufSize then (IoFail 0 IoShortBuffer, evs, s) else msReadLoop L bufLen evs s)"

definition udpOf :: "Addr \<Rightarrow> UDPAddr option" where
  "udpOf from = (case from of UDP a \<Rightarrow> Some a | OtherAddr _ \<Rightarrow> None)"

fun msReadRTPRaw :: "nat \<Rightarrow> recv list \<Rightarrow> 'ctx MediaSession \<Rightarrow> bytes io_result \<times> recv list \<times> 'ctx MediaSession" where
  "msReadRTPRaw bufLen [] s = (IoWait, [], s)"
| "msReadRTPRaw bufLen (RecvErr e # evs) s =
    (IoFail 0 (IoErr e), evs, if RTPNAT s = 1 then s\<lparr>learnedRTPFrom := None\<rparr> else s)"
| "msReadRTPRaw bufLen (Datagram d from # evs) s =
    (IoOk (length (take bufLen d)) (take bufLen d), evs, if RTPNAT s = 1 then s\<lparr>learnedRTPFrom := udpOf from\<rparr> else s)"

section \<open>RTCP\<close>

definition learnRTCP :: "Addr \<Rightarrow> 'ctx MediaSession \<Rightarrow> 'ctx MediaSession" where
  "learnRTCP from s =
    (if RTPNAT s = 1 \<and> addrString from \<noteq> udpString (rtcpRaddr s) \<and> learnedRTCPFrom s = None \<and> learnedRTPFrom s \<noteq> None
     then (case from of UDP a \<Rightarrow> s\<lparr>learnedRTCPFrom := Some a\<rparr> | OtherAddr _ \<Rightarrow> s) else s)"

definition deliverRTCP ::
  "('ctx, 'p) media_lib \<Rightarrow> nat \<Rightarrow> Addr \<Rightarrow> bytes \<Rightarrow> 'ctx MediaSession \<Rightarrow> 'p list io_result \<times> 'ctx MediaSession" where
  "deliverRTCP L places from data s = (case RTCPUnmarshal (rtcpHeader L) (rtcpTyped L) data places of
     Inl e \<Rightarrow> (IoFail 0 (IoRtcp e), s)
   | Inr pkts \<Rightarrow> (IoOk (length pkts) pkts, learnRTCP from s))"

fun msReadRTCPLoop ::
  "('ctx, 'p) media_lib \<Rightarrow> nat \<Rightarrow> nat \<Rightarrow> recv list \<Rightarrow> 'ctx MediaSession \<Rightarrow> 'p list io_result \<times> recv list \<times> 'ctx MediaSession" where
  "msReadRTCPLoop L bufLen places [] s = (IoWait, [], s)"
| "msReadRTCPLoop L bufLen places (RecvErr e # evs) s = (IoFail 0 (IoErr e), evs, s)"
| "msReadRTCPLoop L bufLen places (Datagram d from # evs) s =
    (let buf = take bufLen d in
     if dtlsSRTP s \<and> \<not> dtlsKeyed s then msReadRTCPLoop L bufLen places evs s
     else case remoteCtxSRTP s of
         None \<Rightarrow> (case deliverRTCP L places from buf s of (r, s') \<Rightarrow> (r, evs, s'))
       | Some c \<Rightarrow> (case decryptRTCP L c buf of
             (Inl e, c') \<Rightarrow> msReadRTCPLoop L bufLen places evs (s\<lparr>remoteCtxSRTP := Some c'\<rparr>)
           | (Inr dec, c') \<Rightarrow> (case deliverRTCP L places from dec (s\<lparr>remoteCtxSRTP := Some c'\<rparr>) of (r, s') \<Rightarrow> (r, evs, s'))))"

definition msReadRTCP ::
  "('ctx, 'p) media_lib \<Rightarrow> nat \<Rightarrow> nat \<Rightarrow> recv list \<Rightarrow> 'ctx MediaSession \<Rightarrow> 'p list io_result \<times> recv list \<times> 'ctx MediaSession" where
  "msReadRTCP L bufLen places evs s = (if rtcpConn s = None then (IoFail 0 ErrNoConnection, evs, s)
     else msReadRTCPLoop L bufLen places evs s)"

section \<open>Writing\<close>

type_synonym sent = "(bytes \<times> UDPAddr) list"

definition rtpTarget :: "'ctx MediaSession \<Rightarrow> UDPAddr" where
  "rtpTarget s = (if RTPNAT s = 1 then (case learnedRTPFrom s of Some a \<Rightarrow> a | None \<Rightarrow> Raddr s) else Raddr s)"

definition rtcpTarget :: "'ctx MediaSession \<Rightarrow> UDPAddr" where
  "rtcpTarget s = (if RTPNAT s = 1 then (case learnedRTCPFrom s of Some a \<Rightarrow> a | None \<Rightarrow> rtcpRaddr s) else rtcpRaddr s)"

definition msWriteRTPRaw :: "('ctx, 'p) media_lib \<Rightarrow> bytes \<Rightarrow> 'ctx MediaSession \<Rightarrow> (nat \<times> go_error option) \<times> sent" where
  "msWriteRTPRaw L data s = (sendTo L data (rtpTarget s), [(data, rtpTarget s)])"

definition msWriteRTCPRaw :: "('ctx, 'p) media_lib \<Rightarrow> bytes \<Rightarrow> 'ctx MediaSession \<Rightarrow> (nat \<times> go_error option) \<times> sent" where
  "msWriteRTCPRaw L data s = (sendTo L data (rtcpTarget s), [(data, rtcpTarget s)])"

text \<open>The outcome of a raw write: an error of the socket, or a write that took only part of the data.\<close>

definition writeOutcome :: "bytes \<Rightarrow> (nat \<times> go_error option) \<times> sent \<Rightarrow> io_error option \<times> sent" where
  "writeOutcome data w = (case w of ((n, e), out) \<Rightarrow>
     (case e of Some e \<Rightarrow> (Some (IoErr e), out) | None \<Rightarrow> (if n \<noteq> length data then Some ErrShortWrite else None, out)))"

definition msWriteRTP ::
  "('ctx, 'p) media_lib \<Rightarrow> rtp_packet \<Rightarrow> 'ctx MediaSession \<Rightarrow> io_error option \<times> sent \<times> 'ctx MediaSession" where
  "msWriteRTP L p s =
    (if dtlsUnkeyed s then (Some ErrDTLSNotKeyed, [], s)
     else if negMode s = ModeRecvonly then (None, [], s)
     else case marshalRTP L p RTPBufSize of
         Inl e \<Rightarrow> (Some (IoErr e), [], s)
       | Inr data \<Rightarrow>
           (case localCtxSRTP s of
              None \<Rightarrow> (case writeOutcome data (msWriteRTPRaw L data s) of (e, out) \<Rightarrow> (e, out, s))
            | Some c \<Rightarrow> (case encryptRTP L c data (Header p) of
                  (Inl e, c') \<Rightarrow> (Some (IoErr e), [], s\<lparr>localCtxSRTP := Some c'\<rparr>)
                | (Inr enc, c') \<Rightarrow> (case writeOutcome enc (msWriteRTPRaw L enc s) of
                      (e, out) \<Rightarrow> (e, out, s\<lparr>localCtxSRTP := Some c'\<rparr>)))))"

definition writeRTCPData ::
  "('ctx, 'p) media_lib \<Rightarrow> bytes \<Rightarrow> 'ctx MediaSession \<Rightarrow> io_error option \<times> sent \<times> 'ctx MediaSession" where
  "writeRTCPData L data s = (case localCtxSRTP s of
     None \<Rightarrow> (case writeOutcome data (msWriteRTCPRaw L data s) of (e, out) \<Rightarrow> (e, out, s))
   | Some c \<Rightarrow> (case encryptRTCP L c data of
         (Inl e, c') \<Rightarrow> (Some (IoErr e), [], s\<lparr>localCtxSRTP := Some c'\<rparr>)
       | (Inr enc, c') \<Rightarrow> (case writeOutcome enc (msWriteRTCPRaw L enc s) of
             (e, out) \<Rightarrow> (e, out, s\<lparr>localCtxSRTP := Some c'\<rparr>))))"

definition msWriteRTCPs ::
  "('ctx, 'p) media_lib \<Rightarrow> 'p list \<Rightarrow> 'ctx MediaSession \<Rightarrow> io_error option \<times> sent \<times> 'ctx MediaSession" where
  "msWriteRTCPs L pkts s =
    (if dtlsUnkeyed s then (Some ErrDTLSNotKeyed, [], s)
     else case marshalRTCP L pkts of Inl e \<Rightarrow> (Some (IoErr e), [], s) | Inr data \<Rightarrow> writeRTCPData L data s)"

definition msWriteRTCP ::
  "('ctx, 'p) media_lib \<Rightarrow> 'p \<Rightarrow> 'ctx MediaSession \<Rightarrow> io_error option \<times> sent \<times> 'ctx MediaSession" where
  "msWriteRTCP L pkt s =
    (if dtlsUnkeyed s then (Some ErrDTLSNotKeyed, [], s)
     else case marshalRTCP L [pkt] of Inl e \<Rightarrow> (Some (IoErr e), [], s) | Inr data \<Rightarrow> writeRTCPData L data s)"

section \<open>Examples\<close>

text \<open>Libraries that compute: a datagram is authentic when it starts with the byte 7, a header has one byte.\<close>

definition exHeader :: rtp_header where
  "exHeader = \<lparr>Version = 2, Padding = False, Extension = False, Marker = False, PayloadType = 0, SequenceNumber = 1,
     Timestamp = 0, SSRC = 9, HeaderPaddingSize = 0\<rparr>"

definition exLib :: "(bytes \<times> bytes, bytes) media_lib" where
  "exLib = \<lparr>unmarshalRTP = (\<lambda>b. Inr \<lparr>Header = exHeader, Payload = drop 1 b, PaddingSize = 0\<rparr>),
     marshalRTP = (\<lambda>p n. Inr (2 # Payload p)), headerSize = (\<lambda>h. 1),
     decryptRTP = (\<lambda>c b. (if take 1 b = [7] then Inr (drop 1 b, exHeader) else Inl EOF, c)),
     encryptRTP = (\<lambda>c b h. (Inr (7 # b), c)), rtcpHeader = (\<lambda>b. Inl EOF), rtcpTyped = (\<lambda>t b. Inr b),
     decryptRTCP = (\<lambda>c b. (Inl EOF, c)), encryptRTCP = (\<lambda>c b. (Inr (7 # b), c)), marshalRTCP = (\<lambda>ps. Inr (concat ps)),
     sendTo = (\<lambda>d a. (length d, None))\<rparr>"

definition exMedia :: "bytes \<Rightarrow> rtp_packet" where
  "exMedia b = \<lparr>Header = exHeader, Payload = b, PaddingSize = 0\<rparr>"

definition exPeer :: UDPAddr where
  "exPeer = \<lparr>IP = [10, 0, 0, 9], Port = 40, Zone = []\<rparr>"

definition exSecure :: "(bytes \<times> bytes) MediaSession" where
  "exSecure = exAnswerer\<lparr>localCtxSRTP := Some ([], []), remoteCtxSRTP := Some ([], []), negMode := ModeSendrecv, RTPNAT := 1\<rparr>"

definition exArrivals :: "recv list" where
  "exArrivals = [Datagram [1, 2] (UDP exPeer), Datagram [] (UDP exPeer), Datagram [7, 2, 5, 6] (UDP exPeer), Datagram [7, 2] (UDP exPeer)]"

lemma exRead: "fst (msReadRTP exLib RTPBufSize exArrivals exSecure) = IoOk 3 (exMedia [5, 6])"
  by code_simp

section \<open>What a read delivers\<close>

text \<open>The datagrams of a list that all fail to decrypt, and the context after them.\<close>

fun allFail :: "('ctx, 'p) media_lib \<Rightarrow> nat \<Rightarrow> 'ctx \<Rightarrow> bytes list \<Rightarrow> 'ctx option" where
  "allFail L bufLen c [] = Some c"
| "allFail L bufLen c (d # ds) = (case decryptRTP L c (take bufLen d) of
     (Inl e, c') \<Rightarrow> allFail L bufLen c' ds | (Inr x, c') \<Rightarrow> None)"

abbreviation datagrams :: "(bytes \<times> Addr) list \<Rightarrow> recv list" where
  "datagrams ps \<equiv> map (\<lambda>(d, a). Datagram d a) ps"

definition openedAs :: "('ctx, 'p) media_lib \<Rightarrow> nat \<Rightarrow> 'ctx \<Rightarrow> bytes \<Rightarrow> nat \<Rightarrow> rtp_packet \<Rightarrow> 'ctx \<Rightarrow> bool" where
  "openedAs L bufLen c d n pkt c' \<longleftrightarrow> (\<exists>dec hdr. decryptRTP L c (take bufLen d) = (Inr (dec, hdr), c') \<and> n = length dec
     \<and> rtpUnmarshalPayload (headerSize L) dec \<lparr>Header = hdr, Payload = [], PaddingSize = 0\<rparr> = (None, pkt))"

lemma deliverRTP_ok:
  assumes "deliverRTP from n pkt s = (IoOk m pkt', s')"
  shows "pkt' = pkt" "m = (if negMode s = ModeSendonly then 0 else n)" "ReadRTPFromAddr s' = Some from"
    "remoteCtxSRTP s' = remoteCtxSRTP s" "srtpAuthFailures s' = srtpAuthFailures s"
  using assms by (auto simp: deliverRTP_def learnRTP_def Let_def split: Addr.splits if_splits)

lemma msReadLoop_unkeyed:
  "dtlsSRTP s \<Longrightarrow> \<not> dtlsKeyed s \<Longrightarrow> msReadLoop L bufLen evs s = (r, rest, s') \<Longrightarrow> (\<forall>n pkt. r \<noteq> IoOk n pkt) \<and> s' = s"
  by (induction L bufLen evs s rule: msReadLoop.induct) auto

lemma msReadLoop_srtp:
  assumes "msReadLoop L bufLen evs s = (IoOk n pkt, rest, s')" "remoteCtxSRTP s = Some c" "dtlsSRTP s \<longrightarrow> dtlsKeyed s"
  shows "\<exists>pre d from c1 c2 k. evs = datagrams pre @ Datagram d from # rest \<and> allFail L bufLen c (map fst pre) = Some c1
    \<and> openedAs L bufLen c1 d k pkt c2 \<and> n = (if negMode s = ModeSendonly then 0 else k)
    \<and> srtpAuthFailures s' = srtpAuthFailures s + of_nat (length pre) \<and> remoteCtxSRTP s' = Some c2 \<and> ReadRTPFromAddr s' = Some from"
  using assms
proof (induction L bufLen evs s arbitrary: c rule: msReadLoop.induct)
  case (3 L bufLen d src evs s)
  obtain r c' where dec: "decryptRTP L c (take bufLen d) = (r, c')" by fastforce
  show ?case
  proof (cases r)
    case (Inl e)
    let ?s = "s\<lparr>remoteCtxSRTP := Some c', srtpAuthFailures := srtpAuthFailures s + 1\<rparr>"
    have k: "\<not> (dtlsSRTP s \<and> \<not> dtlsKeyed s)" using 3(5) by blast
    have "dtlsSRTP ?s \<longrightarrow> dtlsKeyed ?s" using 3(5) by (simp add: dtlsSRTP_def)
    moreover have "msReadLoop L bufLen evs ?s = (IoOk n pkt, rest, s')" using 3(3,4) k dec Inl by simp
    ultimately obtain pre d' from' c1 c2 k' where IH: "evs = datagrams pre @ Datagram d' from' # rest"
        "allFail L bufLen c' (map fst pre) = Some c1" "openedAs L bufLen c1 d' k' pkt c2" "n = (if negMode s = ModeSendonly then 0 else k')"
        "srtpAuthFailures s' = srtpAuthFailures s + 1 + of_nat (length pre)" "remoteCtxSRTP s' = Some c2" "ReadRTPFromAddr s' = Some from'"
      using "3.IH"(2) [OF refl k 3(4) dec [symmetric] Inl, of c'] by auto
    show ?thesis
      using IH dec Inl by (intro exI [of _ "(d, src) # pre"] exI [of _ d'] exI [of _ from']) (auto simp: algebra_simps)
  next
    case (Inr x)
    obtain dc hdr where x: "x = (dc, hdr)" by fastforce
    obtain pe pk where up: "rtpUnmarshalPayload (headerSize L) dc \<lparr>Header = hdr, Payload = [], PaddingSize = 0\<rparr> = (pe, pk)" by fastforce
    have "pe = None" and dl: "deliverRTP src (length dc) pk (s\<lparr>remoteCtxSRTP := Some c'\<rparr>) = (IoOk n pkt, s')" and r: "rest = evs"
      using 3(3-5) dec Inr x up by (auto split: option.splits prod.splits)
    then show ?thesis
      using dec Inr x up deliverRTP_ok [OF dl] by (intro exI [of _ "[]"] exI [of _ d] exI [of _ src]) (auto simp: openedAs_def)
  qed
qed simp_all

text \<open>
  C9. A session with SRTP keys delivers only authenticated media: a packet \<open>ReadRTP\<close> returns is the
  decryption of a datagram that arrived, every datagram before it was discarded because it did not
  decrypt, and the counter of discarded packets grows by exactly their number. A session that keys
  SRTP by DTLS delivers nothing before it is keyed.
\<close>

theorem srtp_read_authenticated:
  assumes "msReadRTP L bufLen evs s = (IoOk n pkt, rest, s')" "remoteCtxSRTP s = Some c \<or> dtlsSRTP s \<and> \<not> dtlsKeyed s"
  shows "(dtlsSRTP s \<longrightarrow> dtlsKeyed s) \<and> (\<exists>c pre d from c1 c2 k. remoteCtxSRTP s = Some c
    \<and> evs = datagrams pre @ Datagram d from # rest \<and> allFail L bufLen c (map fst pre) = Some c1
    \<and> openedAs L bufLen c1 d k pkt c2 \<and> n = (if negMode s = ModeSendonly then 0 else k)
    \<and> srtpAuthFailures s' = srtpAuthFailures s + of_nat (length pre) \<and> remoteCtxSRTP s' = Some c2 \<and> ReadRTPFromAddr s' = Some from)"
proof -
  have l: "msReadLoop L bufLen evs s = (IoOk n pkt, rest, s')" using assms(1) by (simp add: msReadRTP_def split: if_splits)
  then have k: "dtlsSRTP s \<longrightarrow> dtlsKeyed s" using msReadLoop_unkeyed [of s L bufLen evs] by blast
  then obtain c where "remoteCtxSRTP s = Some c" using assms(2) by blast
  then show ?thesis using msReadLoop_srtp [OF l _ k] k by blast
qed

theorem srtp_read_authenticated_witness:
  "\<exists>rest s'. msReadRTP exLib RTPBufSize exArrivals exSecure = (IoOk 3 (exMedia [5, 6]), rest, s')
    \<and> (\<exists>pre d from c1 c2 k. exArrivals = datagrams pre @ Datagram d from # rest \<and> allFail exLib RTPBufSize ([], []) (map fst pre) = Some c1
        \<and> openedAs exLib RTPBufSize c1 d k (exMedia [5, 6]) c2 \<and> srtpAuthFailures s' = srtpAuthFailures exSecure + of_nat (length pre))"
proof -
  obtain r rest s' where m: "msReadRTP exLib RTPBufSize exArrivals exSecure = (r, rest, s')" by (metis prod_cases3)
  then have m': "msReadRTP exLib RTPBufSize exArrivals exSecure = (IoOk 3 (exMedia [5, 6]), rest, s')" using exRead by simp
  have c: "remoteCtxSRTP exSecure = Some ([], [])" by (simp add: exSecure_def)
  show ?thesis using srtp_read_authenticated [OF m'] m' c by fastforce
qed

text \<open>
  C14. Packets that do not authenticate never end the media: whatever number of them arrives first, the
  read returns the first datagram that decrypts to a well-formed packet.
\<close>

theorem srtp_read_survives:
  assumes "RTPBufSize \<le> bufLen" "remoteCtxSRTP s = Some c" "dtlsSRTP s \<longrightarrow> dtlsKeyed s"
    and "allFail L bufLen c (map fst pre) = Some c1" "openedAs L bufLen c1 d k pkt c2"
  shows "\<exists>s'. msReadRTP L bufLen (datagrams pre @ Datagram d from # rest) s
    = (IoOk (if negMode s = ModeSendonly then 0 else k) pkt, rest, s') \<and> remoteCtxSRTP s' = Some c2"
proof -
  have "\<exists>s'. msReadLoop L bufLen (datagrams pre @ Datagram d from # rest) s
      = (IoOk (if negMode s = ModeSendonly then 0 else k) pkt, rest, s') \<and> remoteCtxSRTP s' = Some c2"
    using assms(2-4)
  proof (induction pre arbitrary: s c)
    case Nil
    obtain dec hdr where opened: "decryptRTP L c (take bufLen d) = (Inr (dec, hdr), c2)" "k = length dec"
        "rtpUnmarshalPayload (headerSize L) dec \<lparr>Header = hdr, Payload = [], PaddingSize = 0\<rparr> = (None, pkt)"
      using assms(5) Nil by (auto simp: openedAs_def)
    obtain m s' where dl: "deliverRTP from (length dec) pkt (s\<lparr>remoteCtxSRTP := Some c2\<rparr>) = (IoOk m pkt, s')"
      by (auto simp: deliverRTP_def Let_def)
    show ?case using Nil opened dl deliverRTP_ok [OF dl] by auto
  next
    case (Cons p pre)
    obtain b a where p: "p = (b, a)" by fastforce
    obtain e c' where dec: "decryptRTP L c (take bufLen b) = (Inl e, c')" "allFail L bufLen c' (map fst pre) = Some c1"
      using Cons.prems(3) p by (auto split: prod.splits sum.splits)
    let ?s = "s\<lparr>remoteCtxSRTP := Some c', srtpAuthFailures := srtpAuthFailures s + 1\<rparr>"
    have "dtlsSRTP ?s \<longrightarrow> dtlsKeyed ?s" using Cons.prems(2) by (simp add: dtlsSRTP_def)
    then show ?case using Cons.IH [of ?s c'] Cons.prems p dec by auto
  qed
  then show ?thesis using assms(1) by (simp add: msReadRTP_def)
qed

theorem srtp_read_survives_witness:
  "\<exists>s'. msReadRTP exLib RTPBufSize (datagrams [([1, 2], UDP exPeer), ([], UDP exPeer)] @ Datagram [7, 2, 5, 6] (UDP exPeer) # []) exSecure
     = (IoOk (if negMode exSecure = ModeSendonly then 0 else 3) (exMedia [5, 6]), [], s') \<and> remoteCtxSRTP s' = Some ([], [])"
proof (rule srtp_read_survives)
  show "remoteCtxSRTP exSecure = Some ([], [])" by (simp add: exSecure_def)
  show "dtlsSRTP exSecure \<longrightarrow> dtlsKeyed exSecure" by code_simp
  show "allFail exLib RTPBufSize ([], []) (map fst [([1, 2], UDP exPeer), ([], UDP exPeer)]) = Some ([], [])"
    by (simp add: exLib_def RTPBufSize_def)
  show "openedAs exLib RTPBufSize ([], []) [7, 2, 5, 6] 3 (exMedia [5, 6]) ([], [])"
    by (simp add: openedAs_def exLib_def RTPBufSize_def rtpUnmarshalPayload_def exMedia_def exHeader_def)
qed simp

section \<open>Where media goes\<close>

lemma learnRTP_target:
  "rtpTarget (learnRTP from pkt s) = (if RTPNAT s = 1 \<and> learnedRTPFrom s = None \<and> Version (Header pkt) = 2
     \<and> addrString from \<noteq> udpString (Raddr s) \<and> udpOf from \<noteq> None then the (udpOf from) else rtpTarget s)"
  by (auto simp: learnRTP_def rtpTarget_def udpOf_def split: Addr.splits)

definition natFields :: "'ctx MediaSession \<Rightarrow> _" where
  "natFields s = (RTPNAT s, learnedRTPFrom s, Raddr s)"

text \<open>A read either leaves what is learned alone or delivers a packet and learns from its sender.\<close>

lemma msReadLoop_learns:
  assumes "msReadLoop L bufLen evs s = (r, rest, s')"
  shows "(\<forall>n pkt. r \<noteq> IoOk n pkt) \<and> natFields s' = natFields s
    \<or> (\<exists>n pkt from t. r = IoOk n pkt \<and> natFields t = natFields s \<and> s' = learnRTP from pkt t \<and> ReadRTPFromAddr s' = Some from)"
  using assms
proof (induction L bufLen evs s rule: msReadLoop.induct)
  case (3 L bufLen d src evs s)
  have deliver: "\<exists>n pkt from t. r = IoOk n pkt \<and> natFields t = natFields s \<and> s' = learnRTP from pkt t \<and> ReadRTPFromAddr s' = Some from"
    if "deliverRTP src n pkt u = (r, s')" "natFields u = natFields s" for n pkt u
    using that deliverRTP_ok(3) [of src n pkt u] 
    by (intro exI [of _ "if negMode s' = ModeSendonly then 0 else n"] exI [of _ pkt] exI [of _ src] exI [of _ "u\<lparr>ReadRTPFromAddr := Some src\<rparr>"])
       (auto simp: deliverRTP_def Let_def natFields_def)
  consider (unkeyed) "dtlsSRTP s \<and> \<not> dtlsKeyed s" | (plain) "\<not> (dtlsSRTP s \<and> \<not> dtlsKeyed s)" "remoteCtxSRTP s = None"
    | (srtp) c where "\<not> (dtlsSRTP s \<and> \<not> dtlsKeyed s)" "remoteCtxSRTP s = Some c" by fastforce
  then show ?case
  proof cases
    case unkeyed
    then show ?thesis using 3 by auto
  next
    case plain
    then have "(\<forall>n pkt. r \<noteq> IoOk n pkt) \<and> s' = s \<or> (\<exists>n pkt. deliverRTP src n pkt s = (r, s'))"
      using 3(3) by (cases "unmarshalRTP L (take bufLen d)") (auto split: prod.splits)
    then show ?thesis using deliver by blast
  next
    case (srtp c)
    obtain x c' where dec: "decryptRTP L c (take bufLen d) = (x, c')" by fastforce
    show ?thesis
    proof (cases x)
      case (Inl e)
      have "natFields (s\<lparr>remoteCtxSRTP := Some c', srtpAuthFailures := srtpAuthFailures s + 1\<rparr>) = natFields s" by (simp add: natFields_def)
      moreover have "msReadLoop L bufLen evs (s\<lparr>remoteCtxSRTP := Some c', srtpAuthFailures := srtpAuthFailures s + 1\<rparr>) = (r, rest, s')"
        using 3(3) srtp dec Inl by simp
      ultimately show ?thesis using "3.IH"(2) [OF refl srtp dec [symmetric] Inl] by simp
    next
      case (Inr y)
      have "natFields (s\<lparr>remoteCtxSRTP := Some c'\<rparr>) = natFields s" by (simp add: natFields_def)
      moreover have "(\<forall>n pkt. r \<noteq> IoOk n pkt) \<and> s' = s\<lparr>remoteCtxSRTP := Some c'\<rparr>
          \<or> (\<exists>n pkt. deliverRTP src n pkt (s\<lparr>remoteCtxSRTP := Some c'\<rparr>) = (r, s'))"
        using 3(3) srtp dec Inr by (auto split: prod.splits option.splits)
      ultimately show ?thesis using deliver by metis
    qed
  qed
qed (auto simp: natFields_def)

text \<open>
  The peer's address behind a NAT is learned once: a read that delivers the first RTP packet from an
  address other than the negotiated one sends media there, every other read leaves the target of
  media as it is, and once an address is learned no read changes it, whoever sends.
\<close>

theorem read_target:
  assumes "msReadRTP L bufLen evs s = (r, rest, s')"
  shows "rtpTarget s' = (case (r, ReadRTPFromAddr s') of
       (IoOk n pkt, Some from) \<Rightarrow>
         if RTPNAT s = 1 \<and> learnedRTPFrom s = None \<and> Version (Header pkt) = 2 \<and> addrString from \<noteq> udpString (Raddr s) \<and> udpOf from \<noteq> None
         then the (udpOf from) else rtpTarget s
     | _ \<Rightarrow> rtpTarget s)
    \<and> (\<forall>a. learnedRTPFrom s = Some a \<longrightarrow> learnedRTPFrom s' = Some a)"
proof -
  have same: "rtpTarget t = rtpTarget s \<and> RTPNAT t = RTPNAT s \<and> learnedRTPFrom t = learnedRTPFrom s \<and> Raddr t = Raddr s"
    if "natFields t = natFields s" for t using that by (auto simp: natFields_def rtpTarget_def split: option.splits)
  have keep: "learnedRTPFrom t = Some a \<Longrightarrow> learnedRTPFrom (learnRTP src pkt t) = Some a" for src pkt a and t :: "'a MediaSession"
    by (auto simp: learnRTP_def split: Addr.splits)
  show ?thesis
  proof (cases "bufLen < RTPBufSize")
    case True
    then show ?thesis using assms by (auto simp: msReadRTP_def)
  next
    case False
    then have "msReadLoop L bufLen evs s = (r, rest, s')" using assms by (simp add: msReadRTP_def)
    from msReadLoop_learns [OF this] show ?thesis
    proof (elim disjE exE conjE)
      assume "\<forall>n pkt. r \<noteq> IoOk n pkt" "natFields s' = natFields s"
      then show ?thesis using same [of s'] by (cases r) auto
    next
      fix n pkt src t
      assume h: "r = IoOk n pkt" "natFields t = natFields s" "s' = learnRTP src pkt t" "ReadRTPFromAddr s' = Some src"
      then show ?thesis using same [OF h(2)] keep [of t] learnRTP_target [of src pkt t] by auto
    qed
  qed
qed

theorem read_target_witness:
  "\<exists>r rest s'. msReadRTP exLib RTPBufSize exArrivals exSecure = (r, rest, s') \<and> rtpTarget s' = exPeer"
proof -
  obtain r rest s' where m: "msReadRTP exLib RTPBufSize exArrivals exSecure = (r, rest, s')" by (metis prod_cases3)
  then have r: "r = IoOk 3 (exMedia [5, 6])" using exRead by simp
  have "ReadRTPFromAddr (snd (snd (msReadRTP exLib RTPBufSize exArrivals exSecure))) = Some (UDP exPeer)" by code_simp
  then have f: "ReadRTPFromAddr s' = Some (UDP exPeer)" using m by simp
  have c: "RTPNAT exSecure = 1 \<and> learnedRTPFrom exSecure = None \<and> addrString (UDP exPeer) \<noteq> udpString (Raddr exSecure)" by code_simp
  show ?thesis using read_target [OF m] m r f c by (auto simp: exMedia_def exHeader_def udpOf_def)
qed

text \<open>
  A raw read does not keep it: \<open>ReadRTPRaw\<close> replaces the learned address by the sender of every
  datagram, without looking at the packet, and forgets it when the socket reports an error.
\<close>

theorem raw_read_redirects:
  assumes "RTPNAT s = 1"
  shows "(\<exists>r s'. msReadRTPRaw bufLen (Datagram d (UDP a) # evs) s = (r, evs, s') \<and> rtpTarget s' = a)
    \<and> (\<exists>r s'. msReadRTPRaw bufLen (RecvErr e # evs) s = (r, evs, s') \<and> rtpTarget s' = Raddr s)"
  using assms by (simp_all add: rtpTarget_def udpOf_def)

theorem raw_read_redirects_witness:
  "\<exists>r s'. msReadRTPRaw 10 [Datagram [0] (UDP exPeer)] (exSecure\<lparr>learnedRTPFrom := Some zeroUDPAddr\<rparr>) = (r, [], s') \<and> rtpTarget s' = exPeer"
  using raw_read_redirects [of "exSecure\<lparr>learnedRTPFrom := Some zeroUDPAddr\<rparr>" 10 "[0]" exPeer "[]"] by (simp add: exSecure_def)

definition sentAs :: "('ctx, 'p) media_lib \<Rightarrow> rtp_packet \<Rightarrow> 'ctx MediaSession \<Rightarrow> bytes \<Rightarrow> bool" where
  "sentAs L p s d \<longleftrightarrow> (\<exists>data. marshalRTP L p RTPBufSize = Inr data \<and> (case localCtxSRTP s of
     None \<Rightarrow> d = data | Some c \<Rightarrow> fst (encryptRTP L c data (Header p)) = Inr d))"

lemma writeOutcome_out: "snd (writeOutcome data (msWriteRTPRaw L d s)) = [(d, rtpTarget s)]"
  by (auto simp: writeOutcome_def msWriteRTPRaw_def split: prod.splits option.splits)

lemma msWriteRTP_out:
  assumes "msWriteRTP L p s = (e, out, s')" "out \<noteq> []"
  shows "\<not> dtlsUnkeyed s \<and> negMode s \<noteq> ModeRecvonly \<and> (\<exists>d. out = [(d, rtpTarget s)] \<and> sentAs L p s d)"
proof -
  have w: "\<not> dtlsUnkeyed s" "negMode s \<noteq> ModeRecvonly" using assms by (auto simp: msWriteRTP_def split: if_splits)
  obtain data where m: "marshalRTP L p RTPBufSize = Inr data"
    using assms w by (cases "marshalRTP L p RTPBufSize") (auto simp: msWriteRTP_def)
  show ?thesis
  proof (cases "localCtxSRTP s")
    case None
    then have "out = snd (writeOutcome data (msWriteRTPRaw L data s))"
      using assms(1) w m by (simp add: msWriteRTP_def split: prod.splits)
    then show ?thesis using w m None by (simp add: writeOutcome_out sentAs_def)
  next
    case (Some c)
    obtain r c' where enc: "encryptRTP L c data (Header p) = (r, c')" by fastforce
    then obtain d where r: "r = Inr d" using assms w m Some by (cases r) (auto simp: msWriteRTP_def)
    then have "out = snd (writeOutcome d (msWriteRTPRaw L d s))"
      using assms(1) w m Some enc by (simp add: msWriteRTP_def split: prod.splits)
    then show ?thesis using w m Some enc r by (simp add: writeOutcome_out sentAs_def)
  qed
qed

text \<open>
  What \<open>WriteRTP\<close> puts on the wire: nothing while a background negotiation has not keyed the session
  or when the negotiated direction is \<open>recvonly\<close>; otherwise at most one datagram, to the learned or
  negotiated address, and with an SRTP context that datagram is the encryption of the marshalled
  packet under it.
\<close>

theorem write_protected:
  assumes "msWriteRTP L p s = (e, out, s')"
  shows "(dtlsUnkeyed s \<longrightarrow> out = [] \<and> e = Some ErrDTLSNotKeyed) \<and> (negMode s = ModeRecvonly \<longrightarrow> out = [])
    \<and> (out = [] \<or> (\<exists>d data. out = [(d, rtpTarget s)] \<and> marshalRTP L p RTPBufSize = Inr data
         \<and> (case localCtxSRTP s of None \<Rightarrow> d = data | Some c \<Rightarrow> fst (encryptRTP L c data (Header p)) = Inr d)))"
proof -
  have "dtlsUnkeyed s \<Longrightarrow> e = Some ErrDTLSNotKeyed" using assms by (simp add: msWriteRTP_def)
  then show ?thesis using msWriteRTP_out [OF assms] unfolding sentAs_def by blast
qed

theorem write_protected_witness:
  "\<exists>e s'. msWriteRTP exLib (exMedia [5]) exSecure = (e, [([7, 2, 5], Raddr exSecure)], s')
    \<and> fst (encryptRTP exLib ([], []) [2, 5] exHeader) = Inr [7, 2, 5]"
proof -
  obtain e s' where m: "msWriteRTP exLib (exMedia [5]) exSecure = (e, [([7, 2, 5], Raddr exSecure)], s')"
    by (simp add: msWriteRTP_def exSecure_def exLib_def exMedia_def exAnswerer_def zeroSession_def msWriteRTPRaw_def writeOutcome_def
      rtpTarget_def ModeSendrecv_def ModeRecvonly_def)
  show ?thesis using write_protected [OF m] m by (simp add: exLib_def exMedia_def exSecure_def)
qed

end
