(* ===== verification/Rtp_Session.thy ===== *)
theory Rtp_Session
  imports Media_IO Rtp_Sequencer Float64
begin

text \<open>
  The RTP session of \<open>media/rtp_session.go\<close>: reading with its validation and source lock, the
  statistics of both directions, and forking. \<open>time.Now()\<close> is an argument; the interceptors of RTCP
  are named by numbers, and what they are called with is returned. Conversions of a float64 to an
  unsigned integer that does not hold it are those of the amd64 compiler.
\<close>

section \<open>Times and conversions\<close>

text \<open>\<open>time.Time.Sub\<close> saturates; the zero time is further away than a duration can say.\<close>

definition timeSub :: "instant \<Rightarrow> instant option \<Rightarrow> duration" where
  "timeSub now t = (case t of
     None \<Rightarrow> 2 ^ 63 - 1 | Some t \<Rightarrow> max (- (2 ^ 63)) (min (2 ^ 63 - 1) (now - t)))"

definition toU32 :: "rat \<Rightarrow> u32" where
  "toU32 x = (let i = truncInt x in if - (2 ^ 63) \<le> i \<and> i < 2 ^ 63 then of_int i else 0)"

definition toU8 :: "rat \<Rightarrow> u8" where
  "toU8 x = (let i = truncInt x in if - (2 ^ 31) \<le> i \<and> i < 2 ^ 31 then of_int i else 0)"

section \<open>Statistics\<close>

record RTPReadStats =
  rSSRC :: u32
  FirstPktSequenceNumber :: u16
  LastSequenceNumber :: u16
  lastSeq :: RTPExtendedSequenceNumber
  IntervalFirstPktSeqNum :: u16
  IntervalPacketsCount :: u16
  rPacketsCount :: u64
  rOctetCount :: u64
  rSampleRate :: u32
  firstRTPTime :: "instant option"
  firstRTPTimestamp :: u32
  jitter :: rat
  transit :: int
  lastSenderReportNTP :: u64
  lastSenderReportRecvTime :: "instant option"
  lastReceptionReportSeqNum :: u32
  RTT :: duration
  clockReset :: bool

definition zeroReadStats :: RTPReadStats where
  "zeroReadStats = \<lparr>rSSRC = 0, FirstPktSequenceNumber = 0, LastSequenceNumber = 0, lastSeq = zeroSeq, IntervalFirstPktSeqNum = 0,
     IntervalPacketsCount = 0, rPacketsCount = 0, rOctetCount = 0, rSampleRate = 0, firstRTPTime = None, firstRTPTimestamp = 0,
     jitter = 0, transit = 0, lastSenderReportNTP = 0, lastSenderReportRecvTime = None, lastReceptionReportSeqNum = 0, RTT = 0,
     clockReset = False\<rparr>"

definition calcJitter :: "instant \<Rightarrow> u32 \<Rightarrow> RTPReadStats \<Rightarrow> RTPReadStats" where
  "calcJitter now readPktTimestamp st =
    (let sampleRate = ofInt64 (uint (rSampleRate st));
         rtpSampleArrival = firstRTPTimestamp st + toU32 (fmul (Seconds (timeSub now (firstRTPTime st))) sampleRate);
         tr = uint rtpSampleArrival - uint readPktTimestamp;
         D = \<bar>tr - transit st\<bar>;
         jit = fdiv (fsub (ofInt64 D) (jitter st)) 16
     in st\<lparr>transit := tr, jitter := fadd (jitter st) jit\<rparr>)"

record RTPWriteStats =
  wSSRC :: u32
  lastPacketTime :: "instant option"
  lastPacketTimestamp :: u32
  wSampleRate :: u32
  wPacketsCount :: u64
  wOctetCount :: u64

definition zeroWriteStats :: RTPWriteStats where
  "zeroWriteStats = \<lparr>wSSRC = 0, lastPacketTime = None, lastPacketTimestamp = 0, wSampleRate = 0, wPacketsCount = 0, wOctetCount = 0\<rparr>"

section \<open>The session\<close>

text \<open>\<open>monitorWG\<close> is the counter of the wait group; the channel \<open>rtcpClosed\<close> is closed exactly when \<open>closed\<close>.\<close>

record 'ctx RTPSession =
  Sess :: "'ctx MediaSession"
  monitorWG :: nat
  monitorRun :: bool
  readStats :: RTPReadStats
  writeStats :: RTPWriteStats
  onReadRTCP :: "nat option"
  onWriteRTCP :: "nat option"
  rsClosed :: bool
  sourceLock :: bool
  sourceLockPackets :: nat
  sourceLockSeq :: u16
  sourceLockAddr :: "UDPAddr option"

text \<open>\<open>DefaultOnReadRTCP\<close>, \<open>DefaultOnWriteRTCP\<close> and \<open>RTPSourceLock\<close> are variables of the package.\<close>

record rtp_defaults =
  DefaultOnReadRTCP :: "nat option"
  DefaultOnWriteRTCP :: "nat option"
  RTPSourceLock :: bool

definition NewRTPSession :: "rtp_defaults \<Rightarrow> 'ctx MediaSession \<Rightarrow> 'ctx RTPSession" where
  "NewRTPSession V sess = \<lparr>Sess = sess, monitorWG = 0, monitorRun = False, readStats = zeroReadStats, writeStats = zeroWriteStats,
     onReadRTCP = DefaultOnReadRTCP V, onWriteRTCP = DefaultOnWriteRTCP V, rsClosed = False, sourceLock = RTPSourceLock V,
     sourceLockPackets = 0, sourceLockSeq = 0, sourceLockAddr = None\<rparr>"

definition udpAddrEqual :: "UDPAddr \<Rightarrow> UDPAddr \<Rightarrow> bool" where
  "udpAddrEqual a b \<longleftrightarrow> ipEqual (IP a) (IP b) \<and> Port a = Port b \<and> Zone a = Zone b"

definition forkLock :: "'ctx RTPSession \<Rightarrow> 'ctx RTPSession \<Rightarrow> 'ctx RTPSession" where
  "forkLock s fork =
    (if udpAddrEqual (Laddr (Sess s)) (Laddr (Sess fork)) \<and> udpAddrEqual (Raddr (Sess s)) (Raddr (Sess fork))
     then fork\<lparr>sourceLockPackets := sourceLockPackets s, sourceLockSeq := sourceLockSeq s, sourceLockAddr := sourceLockAddr s\<rparr>
     else fork)"

definition forkClock :: "Codec \<Rightarrow> Codec \<Rightarrow> 'ctx RTPSession \<Rightarrow> 'ctx RTPSession" where
  "forkClock oldCodec newCodec fork =
    (if SampleRate oldCodec \<noteq> SampleRate newCodec
     then fork\<lparr>readStats := (readStats fork)\<lparr>rSampleRate := SampleRate newCodec, firstRTPTime := None, firstRTPTimestamp := 0,
                 jitter := 0, transit := 0, clockReset := True\<rparr>,
               writeStats := (writeStats fork)\<lparr>wSampleRate := SampleRate newCodec\<rparr>\<rparr>
     else fork)"

text \<open>Both codec lookups panic on a session without codecs.\<close>

definition rsFork :: "rtp_defaults \<Rightarrow> 'ctx RTPSession \<Rightarrow> 'ctx MediaSession \<Rightarrow> 'ctx RTPSession option" where
  "rsFork V s sess =
    (let fork = forkLock s ((NewRTPSession V sess)\<lparr>readStats := readStats s, writeStats := writeStats s,
           onReadRTCP := onReadRTCP s, onWriteRTCP := onWriteRTCP s, sourceLock := sourceLock s\<rparr>)
     in case (CodecAudioFromSession (filterCodecs (Sess s)) (Codecs (Sess s)), CodecAudioFromSession (filterCodecs sess) (Codecs sess)) of
          (Some oldCodec, Some newCodec) \<Rightarrow> Some (forkClock oldCodec newCodec fork)
        | _ \<Rightarrow> None)"

section \<open>The source lock\<close>

definition sourceLockProtection :: "rtp_packet \<Rightarrow> Addr option \<Rightarrow> 'ctx RTPSession \<Rightarrow> bool \<times> 'ctx RTPSession" where
  "sourceLockProtection pkt from s = (case from of
     Some (UDP fromAddr) \<Rightarrow>
       (case sourceLockAddr s of
          Some a \<Rightarrow> (ipEqual (IP a) (IP fromAddr) \<and> Port a = Port fromAddr \<and> Zone a = Zone fromAddr, s)
        | None \<Rightarrow>
            let seq = SequenceNumber (Header pkt);
                kept = (if 0 < sourceLockPackets s \<and> sourceLockSeq s + 1 \<noteq> seq then 0 else sourceLockPackets s);
                s' = s\<lparr>sourceLockSeq := seq, sourceLockPackets := kept + 1\<rparr>
            in if kept + 1 < 4 then (False, s') else (True, s'\<lparr>sourceLockAddr := Some fromAddr\<rparr>))
   | _ \<Rightarrow> (False, s))"

section \<open>Reading\<close>

text \<open>The statistics of a packet of a new source: \<open>None\<close> when its payload type is none of the codecs.\<close>

definition newSourceStats :: "instant \<Rightarrow> rtp_packet \<Rightarrow> Codec \<Rightarrow> RTPReadStats" where
  "newSourceStats now pkt codec = zeroReadStats\<lparr>rSSRC := SSRC (Header pkt), FirstPktSequenceNumber := SequenceNumber (Header pkt),
     rSampleRate := SampleRate codec, firstRTPTime := Some now, firstRTPTimestamp := Timestamp (Header pkt),
     lastSeq := InitSeq (SequenceNumber (Header pkt)) zeroSeq\<rparr>"

definition readCodec :: "Codec list \<Rightarrow> u8 \<Rightarrow> Codec option" where
  "readCodec codecs pt = (if CPayloadType (hd codecs) = pt then Some (hd codecs) else List.find (\<lambda>c. CPayloadType c = pt) codecs)"

definition sameSourceStats :: "instant \<Rightarrow> rtp_packet \<Rightarrow> RTPReadStats \<Rightarrow> RTPReadStats" where
  "sameSourceStats now pkt st0 =
    (let st = st0\<lparr>lastSeq := snd (UpdateSeq (SequenceNumber (Header pkt)) (lastSeq st0))\<rparr> in
     if clockReset st then st\<lparr>firstRTPTime := Some now, firstRTPTimestamp := Timestamp (Header pkt), transit := 0, clockReset := False\<rparr>
     else if Marker (Header pkt) then st\<lparr>firstRTPTime := Some now, firstRTPTimestamp := Timestamp (Header pkt)\<rparr>
     else calcJitter now (Timestamp (Header pkt)) st)"

definition countPacket :: "int \<Rightarrow> rtp_packet \<Rightarrow> RTPReadStats \<Rightarrow> RTPReadStats" where
  "countPacket payloadSize pkt st =
    (let st' = st\<lparr>IntervalPacketsCount := IntervalPacketsCount st + 1, rPacketsCount := rPacketsCount st + 1,
           rOctetCount := rOctetCount st + of_int payloadSize, LastSequenceNumber := SequenceNumber (Header pkt)\<rparr>
     in if IntervalFirstPktSeqNum st' = 0 then st'\<lparr>IntervalFirstPktSeqNum := SequenceNumber (Header pkt)\<rparr> else st')"

text \<open>
  The part of \<open>ReadRTP\<close> under the lock. The result is the number of bytes it returns; indexing the
  first of no codecs panics.
\<close>

definition readAccount ::
  "(rtp_header \<Rightarrow> nat) \<Rightarrow> instant \<Rightarrow> Codec list \<Rightarrow> nat \<Rightarrow> rtp_packet \<Rightarrow> RTPReadStats \<Rightarrow> (nat \<times> RTPReadStats) option" where
  "readAccount hsize now codecs n pkt st =
    (let payloadSize = int n - int (hsize (Header pkt)) - int (unat (PaddingSize pkt)) in
     if rSSRC st \<noteq> SSRC (Header pkt) then
       (if codecs = [] then None
        else case readCodec codecs (PayloadType (Header pkt)) of
            None \<Rightarrow> Some (0, st)
          | Some codec \<Rightarrow> Some (n, countPacket payloadSize pkt (newSourceStats now pkt codec)))
     else Some (n, countPacket payloadSize pkt (sameSourceStats now pkt st)))"

definition rsValid :: "rtp_packet \<Rightarrow> bool" where
  "rsValid pkt \<longleftrightarrow> Version (Header pkt) \<noteq> 0 \<and> Payload pkt \<noteq> []"

definition rsAccepts :: "rtp_packet \<Rightarrow> 'ctx RTPSession \<Rightarrow> bool \<times> 'ctx RTPSession" where
  "rsAccepts pkt s =
    (if \<not> rsValid pkt then (False, s)
     else if sourceLock s then sourceLockProtection pkt (ReadRTPFromAddr (Sess s)) s
     else (True, s))"

lemma msReadLoop_consumes: "msReadLoop L bufLen evs m = (IoOk n pkt, rest, m') \<Longrightarrow> length rest < length evs"
proof (induction L bufLen evs m rule: msReadLoop.induct)
  case (3 L bufLen d src evs s)
  then show ?case by (fastforce simp: Let_def split: if_splits option.splits sum.splits prod.splits)
qed simp_all

lemma msReadRTP_consumes: "msReadRTP L bufLen evs m = (IoOk n pkt, rest, m') \<Longrightarrow> length rest < length evs"
  by (auto simp: msReadRTP_def dest: msReadLoop_consumes split: if_splits)

function rsReadRTP ::
  "('ctx, 'p) media_lib \<Rightarrow> instant \<Rightarrow> nat \<Rightarrow> recv list \<Rightarrow> 'ctx RTPSession
    \<Rightarrow> (rtp_packet io_result \<times> recv list \<times> 'ctx RTPSession) option" where
  "rsReadRTP L now bufLen evs s = (case msReadRTP L bufLen evs (Sess s) of
     (IoOk n pkt, rest, m) \<Rightarrow>
       (case rsAccepts pkt (s\<lparr>Sess := m\<rparr>) of
          (False, s') \<Rightarrow> rsReadRTP L now bufLen rest s'
        | (True, s') \<Rightarrow>
            (case readAccount (headerSize L) now (activeCodecs m) n pkt (readStats s') of
               None \<Rightarrow> None
             | Some (n', st) \<Rightarrow> Some (IoOk n' pkt, rest, s'\<lparr>readStats := st\<rparr>)))
   | (r, rest, m) \<Rightarrow> Some (r, rest, s\<lparr>Sess := m\<rparr>))"
  by pat_completeness auto
termination
  by (relation "measure (\<lambda>(L, now, bufLen, evs, s). length evs)") (auto dest: msReadRTP_consumes sym)

declare rsReadRTP.simps [simp del]

definition rsReadRTPRaw :: "nat \<Rightarrow> recv list \<Rightarrow> 'ctx RTPSession \<Rightarrow> bytes io_result \<times> recv list \<times> 'ctx RTPSession" where
  "rsReadRTPRaw bufLen evs s = (case msReadRTPRaw bufLen evs (Sess s) of (r, rest, m) \<Rightarrow> (r, rest, s\<lparr>Sess := m\<rparr>))"

section \<open>Writing\<close>

datatype rs_write_error = RsIo io_error | RsUnknownCodec u8

definition writeAccount :: "instant \<Rightarrow> Codec list \<Rightarrow> rtp_packet \<Rightarrow> RTPWriteStats \<Rightarrow> rs_write_error + RTPWriteStats" where
  "writeAccount now codecs pkt st0 =
    (let start = (if wSSRC st0 = SSRC (Header pkt) then Inr st0
         else case List.find (\<lambda>c. CPayloadType c = PayloadType (Header pkt)) codecs of
             None \<Rightarrow> Inl (RsUnknownCodec (PayloadType (Header pkt)))
           | Some c \<Rightarrow> Inr (zeroWriteStats\<lparr>wSSRC := SSRC (Header pkt), wSampleRate := SampleRate c\<rparr>))
     in case start of Inl e \<Rightarrow> Inl e
        | Inr st \<Rightarrow> Inr (st\<lparr>wPacketsCount := wPacketsCount st + 1, wOctetCount := wOctetCount st + of_nat (length (Payload pkt)),
            lastPacketTime := Some now, lastPacketTimestamp := Timestamp (Header pkt)\<rparr>))"

definition rsWriteRTP ::
  "('ctx, 'p) media_lib \<Rightarrow> instant \<Rightarrow> rtp_packet \<Rightarrow> 'ctx RTPSession \<Rightarrow> rs_write_error option \<times> sent \<times> 'ctx RTPSession" where
  "rsWriteRTP L now pkt s = (case msWriteRTP L pkt (Sess s) of
     (Some e, out, m) \<Rightarrow> (Some (RsIo e), out, s\<lparr>Sess := m\<rparr>)
   | (None, out, m) \<Rightarrow>
       (case writeAccount now (activeCodecs m) pkt (writeStats s) of
          Inl e \<Rightarrow> (Some e, out, s\<lparr>Sess := m\<rparr>)
        | Inr st \<Rightarrow> (None, out, s\<lparr>Sess := m, writeStats := st\<rparr>)))"

section \<open>What the source lock lets through\<close>

lemma sourceLockProtection_True:
  assumes "sourceLockProtection pkt from s = (True, s')"
  obtains b where "from = Some (UDP b)" "sourceLockAddr s' = Some (case sourceLockAddr s of Some a \<Rightarrow> a | None \<Rightarrow> b)"
    "\<And>a. sourceLockAddr s = Some a \<Longrightarrow> udpAddrEqual a b" "Sess s' = Sess s" "sourceLock s' = sourceLock s"
  using assms that
  by (auto simp: sourceLockProtection_def udpAddrEqual_def Let_def split: option.splits Addr.splits if_splits)

lemma sourceLockProtection_frame:
  "sourceLockProtection pkt from s = (ok, s') \<Longrightarrow> sourceLock s' = sourceLock s \<and> Sess s' = Sess s \<and>
     (sourceLockAddr s \<noteq> None \<longrightarrow> sourceLockAddr s' = sourceLockAddr s) \<and> (\<not> ok \<longrightarrow> sourceLockAddr s' = sourceLockAddr s)"
  by (auto simp: sourceLockProtection_def Let_def split: option.splits Addr.splits if_splits)

lemma rsAccepts_frame:
  "rsAccepts pkt s = (False, s') \<Longrightarrow> sourceLock s' = sourceLock s \<and> Sess s' = Sess s \<and> sourceLockAddr s' = sourceLockAddr s"
  using sourceLockProtection_frame by (fastforce simp: rsAccepts_def split: if_splits)

text \<open>
  C15. With the source lock on, \<open>ReadRTP\<close> delivers a packet only when it is of a UDP source, and that source
  is the one the session is locked to: the address locked before, which no packet of another
  source ever changes, or the one this packet locks the session to.
\<close>

theorem source_lock_exclusive:
  assumes "rsReadRTP L now bufLen evs s = Some (IoOk n pkt, rest, s')" "sourceLock s"
  shows "\<exists>b. ReadRTPFromAddr (Sess s') = Some (UDP b) \<and> rsValid pkt \<and> sourceLock s'
    \<and> sourceLockAddr s' = Some (case sourceLockAddr s of Some a \<Rightarrow> a | None \<Rightarrow> b)
    \<and> (\<forall>a. sourceLockAddr s = Some a \<longrightarrow> udpAddrEqual a b)"
  using assms
proof (induction L now bufLen evs s rule: rsReadRTP.induct)
  case (1 L now bufLen evs s)
  obtain r rs m where read: "msReadRTP L bufLen evs (Sess s) = (r, rs, m)" by (metis prod_cases3)
  have r: "\<exists>k p. r = IoOk k p" using "1.prems"(1) read by (subst (asm) rsReadRTP.simps) (cases r; auto)
  then obtain k p where r: "r = IoOk k p" by blast
  obtain ok u where acc: "rsAccepts p (s\<lparr>Sess := m\<rparr>) = (ok, u)" by fastforce
  show ?case
  proof (cases ok)
    case False
    then have "rsReadRTP L now bufLen rs u = Some (IoOk n pkt, rest, s')"
      using "1.prems"(1) read r acc by (subst (asm) rsReadRTP.simps) simp
    then show ?thesis
      using "1.IH" [OF read [symmetric] r refl acc [symmetric]] False acc rsAccepts_frame [of p "s\<lparr>Sess := m\<rparr>" u] "1.prems"(2) by auto
  next
    case True
    then have x: "p = pkt" "\<exists>st. s' = u\<lparr>readStats := st\<rparr>"
      using "1.prems"(1) read r acc by (subst (asm) rsReadRTP.simps; auto split: option.splits prod.splits)+
    have "rsValid p" and p: "sourceLockProtection p (ReadRTPFromAddr m) (s\<lparr>Sess := m\<rparr>) = (True, u)"
      using acc True "1.prems"(2) by (auto simp: rsAccepts_def split: if_splits)
    from p show ?thesis
      by (rule sourceLockProtection_True) (use x \<open>rsValid p\<close> "1.prems"(2) in auto)
  qed
qed

text \<open>The run of consecutive sequence numbers that ends with the newest packet; newest first.\<close>

fun runLen :: "u16 list \<Rightarrow> nat" where
  "runLen [] = 0"
| "runLen [x] = 1"
| "runLen (x # y # ys) = (if x = y + 1 then runLen (y # ys) + 1 else 1)"

text \<open>The source of the first packet that completes a run of four.\<close>

fun lockSpec :: "u16 list \<Rightarrow> (rtp_packet \<times> UDPAddr) list \<Rightarrow> UDPAddr option" where
  "lockSpec seen [] = None"
| "lockSpec seen ((p, a) # ps) =
    (if runLen (SequenceNumber (Header p) # seen) = 4 then Some a else lockSpec (SequenceNumber (Header p) # seen) ps)"

fun lockRun :: "(rtp_packet \<times> UDPAddr) list \<Rightarrow> 'ctx RTPSession \<Rightarrow> 'ctx RTPSession" where
  "lockRun [] s = s"
| "lockRun ((p, a) # ps) s = lockRun ps (snd (sourceLockProtection p (Some (UDP a)) s))"

definition learning :: "u16 list \<Rightarrow> 'ctx RTPSession \<Rightarrow> bool" where
  "learning seen s \<longleftrightarrow> sourceLockAddr s = None \<and> sourceLockPackets s = runLen seen \<and> runLen seen < 4 \<and> (seen \<noteq> [] \<longrightarrow> sourceLockSeq s = hd seen)"

lemma lockRun_locked: "sourceLockAddr s = Some a \<Longrightarrow> sourceLockAddr (lockRun ps s) = Some a"
proof (induction ps arbitrary: s)
  case (Cons q ps)
  obtain p b where q: "q = (p, b)" by fastforce
  obtain ok t where t: "sourceLockProtection p (Some (UDP b)) s = (ok, t)" by fastforce
  then have "sourceLockAddr t = Some a" using sourceLockProtection_frame [OF t] Cons.prems by simp
  then show ?case using Cons.IH q t by simp
qed simp

lemma runLen_pos: "seen \<noteq> [] \<Longrightarrow> 0 < runLen seen"
  by (induction seen rule: runLen.induct) auto

lemma learning_step:
  fixes p a
  assumes "learning seen s"
  defines "seen' \<equiv> SequenceNumber (Header p) # seen" and "s' \<equiv> snd (sourceLockProtection p (Some (UDP a)) s)"
  shows "if runLen seen' = 4 then sourceLockAddr s' = Some a else learning seen' s'"
proof -
  let ?kept = "if 0 < sourceLockPackets s \<and> sourceLockSeq s + 1 \<noteq> SequenceNumber (Header p) then 0 else sourceLockPackets s"
  have run: "runLen seen' = ?kept + 1"
    using assms(1) runLen_pos [of seen] unfolding seen'_def learning_def by (cases seen) auto
  have none: "sourceLockAddr s = None" and k: "?kept < 4" using assms(1) by (auto simp: learning_def)
  have s': "s' = (let t = s\<lparr>sourceLockSeq := SequenceNumber (Header p), sourceLockPackets := ?kept + 1\<rparr>
      in if ?kept + 1 < 4 then t else t\<lparr>sourceLockAddr := Some a\<rparr>)"
    by (simp add: s'_def sourceLockProtection_def none Let_def)
  show ?thesis
  proof (cases "?kept + 1 < 4")
    case True
    then show ?thesis using run none by (simp add: s' learning_def seen'_def)
  next
    case False
    then show ?thesis using run k by (simp add: s')
  qed
qed

text \<open>
  The source lock learns exactly this: a session locks to the source of the first packet that completes
  a run of four packets with consecutive sequence numbers. The sources of the three packets before it
  play no part, so one packet is enough to take over the stream of another source.
\<close>

theorem source_lock_learns:
  assumes "sourceLockAddr s = None" "sourceLockPackets s = 0"
  shows "sourceLockAddr (lockRun ps s) = lockSpec [] ps"
proof -
  have "sourceLockAddr (lockRun ps s) = lockSpec seen ps" if "learning seen s" for seen and s :: "'a RTPSession"
    using that
  proof (induction ps arbitrary: seen s)
    case (Cons q ps)
    then show ?case
      using learning_step [of seen s "fst q" "snd q"] by (cases q) (auto simp: lockRun_locked split: if_splits)
  qed (simp add: learning_def)
  then show ?thesis using assms by (simp add: learning_def)
qed

definition exSeq :: "u16 \<Rightarrow> rtp_packet" where
  "exSeq n = (exMedia [5])\<lparr>Header := exHeader\<lparr>SequenceNumber := n\<rparr>\<rparr>"

definition exHost :: "u8 \<Rightarrow> UDPAddr" where
  "exHost b = \<lparr>IP = [10, 0, 0, b], Port = 40, Zone = []\<rparr>"

definition exRTPSession :: "(bytes \<times> bytes) RTPSession" where
  "exRTPSession = NewRTPSession \<lparr>DefaultOnReadRTCP = None, DefaultOnWriteRTCP = None, RTPSourceLock = True\<rparr> exSecure"

theorem source_lock_learns_witness:
  "sourceLockAddr (lockRun [(exSeq 7, exHost 1), (exSeq 8, exHost 1), (exSeq 9, exHost 1), (exSeq 10, exHost 66)] exRTPSession) = Some (exHost 66)"
proof -
  have "sourceLockAddr exRTPSession = None" "sourceLockPackets exRTPSession = 0" by (simp_all add: exRTPSession_def NewRTPSession_def)
  note source_lock_learns [OF this, of "[(exSeq 7, exHost 1), (exSeq 8, exHost 1), (exSeq 9, exHost 1), (exSeq 10, exHost 66)]"]
  moreover have "lockSpec [] [(exSeq 7, exHost 1), (exSeq 8, exHost 1), (exSeq 9, exHost 1), (exSeq 10, exHost 66)] = Some (exHost 66)"
    by (simp add: exSeq_def)
  ultimately show ?thesis by simp
qed

theorem source_lock_exclusive_witness:
  "\<exists>n pkt rest s'. rsReadRTP exLib 0 RTPBufSize exArrivals (exRTPSession\<lparr>sourceLockAddr := Some exPeer\<rparr>) = Some (IoOk n pkt, rest, s')
    \<and> ReadRTPFromAddr (Sess s') = Some (UDP exPeer) \<and> sourceLockAddr s' = Some exPeer"
proof -
  let ?s = "exRTPSession\<lparr>sourceLockAddr := Some exPeer\<rparr>"
  have r: "map_option fst (rsReadRTP exLib 0 RTPBufSize exArrivals ?s) = Some (IoOk 3 (exMedia [5, 6]))"
    and f: "map_option (\<lambda>x. ReadRTPFromAddr (Sess (snd (snd x)))) (rsReadRTP exLib 0 RTPBufSize exArrivals ?s) = Some (Some (UDP exPeer))"
    by code_simp+
  from r obtain rest s' where m: "rsReadRTP exLib 0 RTPBufSize exArrivals ?s = Some (IoOk 3 (exMedia [5, 6]), rest, s')" by auto
  have "sourceLock ?s" by (simp add: exRTPSession_def NewRTPSession_def)
  from source_lock_exclusive [OF m this] show ?thesis using m f by auto
qed

end
