(* ===== verification/Rtp_Report.thy ===== *)
theory Rtp_Report
  imports Rtp_Session
begin

unbundle bit_operations_syntax

text \<open>
  RTCP of \<open>media/rtp_session.go\<close>: NTP timestamps, the sender and receiver reports the session writes,
  and what it takes from the reports it reads. An instant counts the nanoseconds from the Unix epoch.
\<close>

section \<open>NTP timestamps\<close>

definition ntpEpochOffset :: int where "ntpEpochOffset = 2208988800"

definition NTPTimestamp :: "instant \<Rightarrow> u64" where
  "NTPTimestamp t =
    (let seconds = t div second + ntpEpochOffset; nanos = t mod second;
         frac = fmul (fdiv (ofInt64 nanos) 1000000000) (2 ^ 32)
     in push_bit 32 (of_int seconds) OR of_int (truncInt frac))"

definition NTPToTime :: "u64 \<Rightarrow> instant" where
  "NTPToTime ntp =
    (let seconds = uint (drop_bit 32 ntp);
         frac = fdiv (ofInt64 (uint (ntp AND 0xFFFFFFFF))) (2 ^ 32);
         unixSeconds = seconds - ntpEpochOffset; nsec = truncInt (fmul frac 1000000000)
     in unixSeconds * second + nsec)"

section \<open>Reports\<close>

record ReceptionReport =
  rrSSRC :: u32
  FractionLost :: u8
  TotalLost :: u32
  rrLastSequenceNumber :: u32
  Jitter :: u32
  LastSenderReport :: u32
  Delay :: u32

record SenderReport =
  srSSRC :: u32
  NTPTime :: u64
  RTPTime :: u32
  PacketCount :: u32
  OctetCount :: u32
  srReports :: "ReceptionReport list"

datatype rtcp_packet = SR SenderReport | RR u32 "ReceptionReport list" | OtherRTCP

text \<open>
  No packet expected in the interval makes the fraction 0/0, which is not a number; the compiler
  converts it to 0.
\<close>

definition fractionLost :: "int \<Rightarrow> int \<Rightarrow> u8" where
  "fractionLost lost expected =
    (if expected = 0 then 0 else toU8 (max (fmul (fdiv (ofInt64 lost) (ofInt64 expected)) 256) 0))"

definition parseReceptionReport :: "instant \<Rightarrow> RTPReadStats \<Rightarrow> ReceptionReport" where
  "parseReceptionReport now st =
    (let sequenceCycles = 0 :: u16;
         receivedLastSeq = sint (ReadExtendedSeq (lastSeq st));
         readIntervalExpectedPkts = receivedLastSeq - uint (IntervalFirstPktSeqNum st);
         readIntervalLost = max (readIntervalExpectedPkts - uint (IntervalPacketsCount st)) 0;
         expectedPkts = (of_int receivedLastSeq :: u64) - ucast (FirstPktSequenceNumber st);
         delay = (if lastSenderReportRecvTime st = None then 0 else timeSub now (lastSenderReportRecvTime st))
     in \<lparr>rrSSRC = rSSRC st, FractionLost = fractionLost readIntervalLost readIntervalExpectedPkts,
         TotalLost = ucast (min (expectedPkts - rPacketsCount st) (2 ^ 32)),
         rrLastSequenceNumber = push_bit 16 (ucast sequenceCycles) + ucast (LastSequenceNumber st),
         Jitter = toU32 (jitter st), LastSenderReport = ucast (drop_bit 16 (lastSenderReportNTP st)),
         Delay = toU32 (fmul (Seconds delay) 65356)\<rparr>)"

definition parseSenderReport :: "instant \<Rightarrow> RTPReadStats \<Rightarrow> RTPWriteStats \<Rightarrow> SenderReport" where
  "parseSenderReport now rst wst =
    (let rtpTimestampOffset = fmul (Seconds (timeSub now (lastPacketTime wst))) (ofInt64 (uint (wSampleRate wst)))
     in \<lparr>srSSRC = wSSRC wst, NTPTime = NTPTimestamp now, RTPTime = lastPacketTimestamp wst + toU32 rtpTimestampOffset,
         PacketCount = ucast (min (wPacketsCount wst) (2 ^ 32)), OctetCount = ucast (min (wOctetCount wst) (2 ^ 32)),
         srReports = (if 0 < rSSRC rst then [parseReceptionReport now rst] else [])\<rparr>)"

definition parseReceiverReport :: "instant \<Rightarrow> RTPReadStats \<Rightarrow> rtcp_packet" where
  "parseReceiverReport now rst = RR (rSSRC rst) [parseReceptionReport now rst]"

text \<open>The packet of one interval; there is none before a source is known.\<close>

definition reportPacket :: "instant \<Rightarrow> 'ctx RTPSession \<Rightarrow> rtcp_packet option" where
  "reportPacket now s =
    (if Mode (Sess s) = ModeRecvonly
     then (if rSSRC (readStats s) = 0 then None else Some (parseReceiverReport now (readStats s)))
     else (if wSSRC (writeStats s) = 0 then None else Some (SR (parseSenderReport now (readStats s) (writeStats s)))))"

definition resetInterval :: "'ctx RTPSession \<Rightarrow> 'ctx RTPSession" where
  "resetInterval s = s\<lparr>readStats := (readStats s)\<lparr>IntervalFirstPktSeqNum := 0, IntervalPacketsCount := 0\<rparr>\<rparr>"

text \<open>The third component is the call of the interceptor.\<close>

definition writeRTCP ::
  "('ctx, rtcp_packet) media_lib \<Rightarrow> instant \<Rightarrow> 'ctx RTPSession
    \<Rightarrow> io_error option \<times> sent \<times> (nat \<times> rtcp_packet \<times> RTPWriteStats) option \<times> 'ctx RTPSession" where
  "writeRTCP L now s = (case reportPacket now s of
     None \<Rightarrow> (None, [], None, s)
   | Some pkt \<Rightarrow>
       let s' = resetInterval s; call = map_option (\<lambda>f. (f, pkt, writeStats s')) (onWriteRTCP s') in
       case msWriteRTCP L pkt (Sess s') of (e, out, m) \<Rightarrow> (e, out, call, s'\<lparr>Sess := m\<rparr>))"

section \<open>Reading reports\<close>

definition now32 :: "instant \<Rightarrow> u32" where
  "now32 now = ucast (drop_bit 16 (NTPTimestamp now))"

definition rtt32 :: "instant \<Rightarrow> u32 \<Rightarrow> u32 \<Rightarrow> u32" where
  "rtt32 now lastSenderReport delaySenderReport = now32 now - lastSenderReport - delaySenderReport"

definition calcRTT :: "instant \<Rightarrow> u32 \<Rightarrow> u32 \<Rightarrow> duration \<times> bool" where
  "calcRTT now lastSenderReport delaySenderReport =
    (let rtt = rtt32 now lastSenderReport delaySenderReport;
         skewed = now32 now - delaySenderReport < lastSenderReport;
         secs = drop_bit 16 (rtt AND 0xFFFF0000);
         fracs = fdiv (ofInt64 (uint (rtt AND 0x0000FFFF))) 65356
     in (uint secs * second + truncInt (fmul fracs (ofInt64 second)), skewed))"

definition readReceptionReport :: "ReceptionReport \<Rightarrow> instant \<Rightarrow> 'ctx RTPSession \<Rightarrow> 'ctx RTPSession" where
  "readReceptionReport rr now s =
    (if rrSSRC rr \<noteq> wSSRC (writeStats s) then s
     else let st = readStats s;
              st' = (if LastSenderReport rr \<noteq> 0 then st\<lparr>RTT := fst (calcRTT now (LastSenderReport rr) (Delay rr))\<rparr> else st)
          in s\<lparr>readStats := st'\<lparr>lastReceptionReportSeqNum := rrLastSequenceNumber rr\<rparr>\<rparr>)"

definition readReports :: "ReceptionReport list \<Rightarrow> instant \<Rightarrow> 'ctx RTPSession \<Rightarrow> 'ctx RTPSession" where
  "readReports rrs now s = fold (\<lambda>rr. readReceptionReport rr now) rrs s"

definition senderSeen :: "SenderReport \<Rightarrow> instant \<Rightarrow> RTPReadStats \<Rightarrow> RTPReadStats" where
  "senderSeen p now st = (if rSSRC st = 0 then st\<lparr>rSSRC := srSSRC p\<rparr> else st)\<lparr>lastSenderReportNTP := NTPTime p, lastSenderReportRecvTime := Some now\<rparr>"

definition readRTCPPacket ::
  "rtcp_packet \<Rightarrow> instant \<Rightarrow> 'ctx RTPSession \<Rightarrow> (nat \<times> rtcp_packet \<times> RTPReadStats) option \<times> 'ctx RTPSession" where
  "readRTCPPacket pkt now s =
    (map_option (\<lambda>f. (f, pkt, readStats s)) (onReadRTCP s),
     case pkt of
       SR p \<Rightarrow> readReports (srReports p) now (s\<lparr>readStats := senderSeen p now (readStats s)\<rparr>)
     | RR ssrc rrs \<Rightarrow> readReports rrs now s
     | OtherRTCP \<Rightarrow> s)"

text \<open>\<open>clk i\<close> is the clock at the \<open>i\<close>-th packet of a datagram.\<close>

fun readRTCPPackets :: "(nat \<Rightarrow> instant) \<Rightarrow> rtcp_packet list \<Rightarrow> 'ctx RTPSession \<Rightarrow> 'ctx RTPSession" where
  "readRTCPPackets clk [] s = s"
| "readRTCPPackets clk (p # ps) s = readRTCPPackets (\<lambda>i. clk (Suc i)) ps (snd (readRTCPPacket p (clk 0) s))"

lemma msReadRTCPLoop_consumes:
  "msReadRTCPLoop L bufLen places evs m = (r, rest, m') \<Longrightarrow> r \<noteq> IoWait \<Longrightarrow> length rest < length evs"
proof (induction L bufLen places evs m rule: msReadRTCPLoop.induct)
  case (3 L bufLen places d src evs s)
  have dl: "rest = evs" if "(case deliverRTCP L places src x u of (r, s') \<Rightarrow> (r, evs, s')) = (r, rest, m')" for x u
    using that by (auto split: prod.splits)
  show ?case
  proof (cases "dtlsSRTP s \<and> \<not> dtlsKeyed s")
    case True
    then show ?thesis using 3 by auto
  next
    case False
    show ?thesis
    proof (cases "remoteCtxSRTP s")
      case None
      then show ?thesis using 3 False dl by auto
    next
      case (Some c)
      obtain x c' where dec: "decryptRTCP L c (take bufLen d) = (x, c')" by fastforce
      show ?thesis
      proof (cases x)
        case (Inl e)
        then have "msReadRTCPLoop L bufLen places evs (s\<lparr>remoteCtxSRTP := Some c'\<rparr>) = (r, rest, m')" using "3.prems" False Some dec by simp
        then show ?thesis using "3.IH"(2) [OF refl False Some dec [symmetric] Inl] "3.prems" by simp
      next
        case (Inr y)
        then have "rest = evs" using "3.prems" False Some dec dl by simp
        then show ?thesis by simp
      qed
    qed
  qed
qed simp_all

lemma msReadRTCP_consumes:
  "msReadRTCP L bufLen places evs m = (r, rest, m') \<Longrightarrow> r \<noteq> IoWait \<Longrightarrow> r \<noteq> IoFail 0 ErrNoConnection \<Longrightarrow> length rest < length evs"
  by (auto simp: msReadRTCP_def dest: msReadRTCPLoop_consumes split: if_splits)

text \<open>
  The loop of \<open>readRTCP\<close>; \<open>clk k\<close> is the clock after the datagram that leaves \<open>k\<close> events unread. The result
  is the error it returns with, or nothing while it waits.
\<close>

function readRTCP ::
  "('ctx, rtcp_packet) media_lib \<Rightarrow> (nat \<Rightarrow> nat \<Rightarrow> instant) \<Rightarrow> recv list \<Rightarrow> 'ctx RTPSession \<Rightarrow> io_error option \<times> recv list \<times> 'ctx RTPSession" where
  "readRTCP L clk evs s = (case msReadRTCP L 1600 5 evs (Sess s) of
     (IoWait, rest, m) \<Rightarrow> (None, rest, s\<lparr>Sess := m\<rparr>)
   | (IoFail n e, rest, m) \<Rightarrow>
       (case e of
          IoRtcp re \<Rightarrow> if isFailedToUnmarshal re then readRTCP L clk rest (s\<lparr>Sess := m\<rparr>) else (Some e, rest, s\<lparr>Sess := m\<rparr>)
        | _ \<Rightarrow> (Some e, rest, s\<lparr>Sess := m\<rparr>))
   | (IoOk n pkts, rest, m) \<Rightarrow> readRTCP L clk rest (readRTCPPackets (clk (length rest)) pkts (s\<lparr>Sess := m\<rparr>)))"
  by pat_completeness auto
termination
  by (relation "measure (\<lambda>(L, clk, evs, s). length evs)") (auto dest!: msReadRTCP_consumes [OF sym])

declare readRTCP.simps [simp del]

section \<open>NTP round trip\<close>

lemma round64_within:
  assumes "0 \<le> x"
  shows "x * (1 - 1 / 2 ^ 53) \<le> round64 x" "round64 x \<le> x * (1 + 1 / 2 ^ 53)"
proof -
  have "\<bar>round64 x - x\<bar> \<le> x / 2 ^ 53" using round64_error [of x] assms by simp
  then have "x - x / 2 ^ 53 \<le> round64 x" "round64 x \<le> x + x / 2 ^ 53" by linarith+
  then show "x * (1 - 1 / 2 ^ 53) \<le> round64 x" "round64 x \<le> x * (1 + 1 / 2 ^ 53)" by (simp_all add: algebra_simps)
qed

text \<open>A product of two factors, each rounded: both roundings together.\<close>

lemma round64_twice:
  assumes "0 \<le> x" "0 \<le> c"
  shows "x * c * (1 - 1 / 2 ^ 51) \<le> round64 (round64 x * c)" "round64 (round64 x * c) \<le> x * c * (1 + 1 / 2 ^ 51)"
proof -
  let ?e = "1 / 2 ^ 53 :: rat"
  have xc: "0 \<le> x * c" using assms by simp
  have r: "0 \<le> round64 x * c" using assms round64_nonneg by simp
  have "x * c * (1 - 1 / 2 ^ 51) \<le> x * c * ((1 - ?e) * (1 - ?e))" using xc by (intro mult_left_mono) simp_all
  also have "\<dots> = x * (1 - ?e) * c * (1 - ?e)" by (simp add: mult.assoc mult.left_commute)
  also have "\<dots> \<le> round64 x * c * (1 - ?e)" using round64_within(1) [OF assms(1)] assms(2) by (intro mult_right_mono) simp_all
  also have "\<dots> \<le> round64 (round64 x * c)" using round64_within(1) [OF r] .
  finally show "x * c * (1 - 1 / 2 ^ 51) \<le> round64 (round64 x * c)" .
  have "round64 (round64 x * c) \<le> round64 x * c * (1 + ?e)" using round64_within(2) [OF r] .
  also have "\<dots> \<le> x * (1 + ?e) * c * (1 + ?e)" using round64_within(2) [OF assms(1)] assms(2) by (intro mult_right_mono) simp_all
  also have "\<dots> = x * c * ((1 + ?e) * (1 + ?e))" by (simp add: mult.assoc mult.left_commute)
  also have "\<dots> \<le> x * c * (1 + 1 / 2 ^ 51)" using xc by (intro mult_left_mono) simp_all
  finally show "round64 (round64 x * c) \<le> x * c * (1 + 1 / 2 ^ 51)" .
qed

definition ntpFrac :: "int \<Rightarrow> int" where
  "ntpFrac n = truncInt (fmul (fdiv (ofInt64 n) 1000000000) (2 ^ 32))"

definition fracNanos :: "int \<Rightarrow> int" where
  "fracNanos f = truncInt (fmul (fdiv (ofInt64 f) (2 ^ 32)) 1000000000)"

lemma ntpFrac_bounds:
  assumes "0 \<le> n" "n < 1000000000"
  shows "of_int n / 1000000000 * 2 ^ 32 * (1 - 1 / 2 ^ 51) - 1 < (of_int (ntpFrac n) :: rat)"
    "(of_int (ntpFrac n) :: rat) \<le> of_int n / 1000000000 * 2 ^ 32 * (1 + 1 / 2 ^ 51)" "0 \<le> ntpFrac n"
proof -
  define q :: rat where "q = of_int n / 1000000000"
  define v where "v = round64 (round64 q * 2 ^ 32)"
  have q: "0 \<le> q" using assms by (simp add: q_def)
  then have v: "q * 2 ^ 32 * (1 - 1 / 2 ^ 51) \<le> v" "v \<le> q * 2 ^ 32 * (1 + 1 / 2 ^ 51)" "0 \<le> v"
    using round64_twice [OF q, of "2 ^ 32"] round64_nonneg by (simp_all add: v_def)
  have "fmul (fdiv (ofInt64 n) 1000000000) (2 ^ 32) = v"
    using assms by (simp add: fmul_def fdiv_def ofInt64_exact v_def q_def)
  then have "ntpFrac n = \<lfloor>v\<rfloor>" using v(3) by (simp add: ntpFrac_def truncInt_nonneg)
  then have "of_int (ntpFrac n) \<le> v" "v < of_int (ntpFrac n) + 1" "0 \<le> ntpFrac n" using v(3) by (simp, linarith, simp)
  then show "of_int n / 1000000000 * 2 ^ 32 * (1 - 1 / 2 ^ 51) - 1 < (of_int (ntpFrac n) :: rat)"
    "(of_int (ntpFrac n) :: rat) \<le> of_int n / 1000000000 * 2 ^ 32 * (1 + 1 / 2 ^ 51)" "0 \<le> ntpFrac n"
    unfolding q_def [symmetric] using v by linarith+
qed

lemma ntpFrac_less:
  assumes "0 \<le> n" "n < 1000000000"
  shows "ntpFrac n < 2 ^ 32"
proof -
  have "(of_int n :: rat) \<le> 999999999" using assms by linarith
  then have "of_int n / 1000000000 * 2 ^ 32 * (1 + 1 / 2 ^ 51) < (2 ^ 32 :: rat)" by (simp add: field_simps)
  then have "(of_int (ntpFrac n) :: rat) < of_int (2 ^ 32)" using ntpFrac_bounds(2) [OF assms] by simp
  then show ?thesis by (simp only: of_int_less_iff)
qed

lemma fracNanos_ntpFrac:
  assumes "0 \<le> n" "n < 1000000000"
  shows "fracNanos (ntpFrac n) = n \<or> fracNanos (ntpFrac n) = n - 1"
proof -
  let ?f = "ntpFrac n" and ?q = "of_int (ntpFrac n) / 2 ^ 32 :: rat" and ?n = "of_int n :: rat"
  note b = ntpFrac_bounds [OF assms] and l = ntpFrac_less [OF assms]
  have n: "0 \<le> ?n" "?n \<le> 999999999" using assms by linarith+
  have q: "0 \<le> ?q" using b(3) by simp
  have "fmul (fdiv (ofInt64 ?f) (2 ^ 32)) 1000000000 = round64 (round64 ?q * 1000000000)"
    using b(3) l by (simp add: fmul_def fdiv_def ofInt64_exact)
  moreover have "0 \<le> round64 (round64 ?q * 1000000000)" using q round64_nonneg by simp
  ultimately have g: "fracNanos ?f = \<lfloor>round64 (round64 ?q * 1000000000)\<rfloor>" by (simp add: fracNanos_def truncInt_nonneg)
  have "round64 (round64 ?q * 1000000000) \<le> ?q * 1000000000 * (1 + 1 / 2 ^ 51)" by (rule round64_twice(2) [OF q]) simp
  also have "\<dots> \<le> ?n * ((1 + 1 / 2 ^ 51) * (1 + 1 / 2 ^ 51))" using b(2) by (simp add: field_simps)
  also have "\<dots> < ?n + 1" using n by (simp add: field_simps)
  finally have hi: "round64 (round64 ?q * 1000000000) < ?n + 1" .
  have "?n - 1 \<le> ((?n / 1000000000 * 2 ^ 32 * (1 - 1 / 2 ^ 51) - 1) / 2 ^ 32) * 1000000000 * (1 - 1 / 2 ^ 51)"
    using n by (simp add: field_simps)
  also have "\<dots> \<le> ?q * 1000000000 * (1 - 1 / 2 ^ 51)" using b(1) by (intro mult_right_mono divide_right_mono) simp_all
  also have "\<dots> \<le> round64 (round64 ?q * 1000000000)" by (rule round64_twice(1) [OF q]) simp
  finally have lo: "?n - 1 \<le> round64 (round64 ?q * 1000000000)" .
  have "n - 1 \<le> fracNanos ?f" "fracNanos ?f < n + 1"
    using hi lo unfolding g by (simp add: le_floor_iff, subst floor_less_iff, simp)
  then show ?thesis by linarith
qed

lemma NTPTimestamp_parts:
  assumes "0 \<le> t div second + ntpEpochOffset" "t div second + ntpEpochOffset < 2 ^ 32"
  shows "uint (drop_bit 32 (NTPTimestamp t)) = t div second + ntpEpochOffset" "uint (NTPTimestamp t AND 0xFFFFFFFF) = ntpFrac (t mod second)"
proof -
  define sec f where "sec = t div second + ntpEpochOffset" and "f = ntpFrac (t mod second)"
  have f: "0 \<le> f" "f < 2 ^ 32" using ntpFrac_bounds(3) [of "t mod second"] ntpFrac_less [of "t mod second"] by (simp_all add: f_def)
  have sec: "0 \<le> sec" "sec < 2 ^ 32" using assms by (simp_all add: sec_def)
  have uf: "uint (of_int f :: u64) = f" using f by (simp add: uint_word_of_int take_bit_eq_mod)
  have "(push_bit 32 (of_int sec) :: u64) = of_int (sec * 2 ^ 32)" by (simp add: push_bit_eq_mult)
  moreover have "uint (of_int (sec * 2 ^ 32) :: u64) = sec * 2 ^ 32"
    unfolding uint_word_of_int using sec by (simp add: take_bit_eq_mod del: of_int_mult of_int_power)
  ultimately have us: "uint (push_bit 32 (of_int sec) :: u64) = push_bit 32 sec" by (simp add: push_bit_eq_mult)
  have n: "NTPTimestamp t = push_bit 32 (of_int sec) OR of_int f"
    by (simp add: NTPTimestamp_def ntpFrac_def Let_def sec_def f_def)
  have u: "uint (NTPTimestamp t) = push_bit 32 sec OR f" unfolding n unsigned_or_eq uf us ..
  have z: "drop_bit 32 f = 0" using f by (simp add: drop_bit_eq_div)
  have "take_bit 64 (uint (NTPTimestamp t)) = uint (NTPTimestamp t)"
    using unsigned_less [of "NTPTimestamp t"] by (simp add: take_bit_int_eq_self_iff)
  then have "uint (drop_bit 32 (NTPTimestamp t)) = drop_bit 32 (uint (NTPTimestamp t))" by (simp add: unsigned_drop_bit_eq)
  then have "uint (drop_bit 32 (NTPTimestamp t)) = sec" unfolding u
    by (simp add: drop_bit_or z) (simp add: drop_bit_eq_div push_bit_eq_mult)
  then show "uint (drop_bit 32 (NTPTimestamp t)) = t div second + ntpEpochOffset" by (simp add: sec_def)
  have m: "uint (0xFFFFFFFF :: u64) = mask 32" by (simp add: mask_eq_exp_minus_1)
  have "uint (NTPTimestamp t AND 0xFFFFFFFF) = take_bit 32 (push_bit 32 sec OR f)"
    unfolding unsigned_and_eq u m take_bit_eq_mask ..
  also have "\<dots> = take_bit 32 f" by (simp add: take_bit_or take_bit_push_bit)
  also have "\<dots> = f" using f by (simp add: take_bit_eq_mod)
  finally show "uint (NTPTimestamp t AND 0xFFFFFFFF) = ntpFrac (t mod second)" by (simp add: f_def)
qed

text \<open>
  C31. NTP timestamps round trip: from 1900 to 2036 an instant written as an NTP timestamp and read back is
  the same instant or one nanosecond earlier, through all the roundings of float64.
\<close>

theorem ntp_roundtrip:
  assumes "0 \<le> t div second + ntpEpochOffset" "t div second + ntpEpochOffset < 2 ^ 32"
  shows "NTPToTime (NTPTimestamp t) \<in> {t - 1, t}"
proof -
  have "NTPToTime (NTPTimestamp t) = (t div second) * second + fracNanos (ntpFrac (t mod second))"
    using NTPTimestamp_parts [OF assms] by (simp add: NTPToTime_def fracNanos_def Let_def)
  moreover have "t = (t div second) * second + t mod second" by simp
  ultimately show ?thesis using fracNanos_ntpFrac [of "t mod second"] by auto
qed

theorem ntp_roundtrip_witness: "NTPToTime (NTPTimestamp 1700000000123456789) \<in> {1700000000123456788, 1700000000123456789}"
  using ntp_roundtrip [of 1700000000123456789] by (simp add: ntpEpochOffset_def)

section \<open>What the reports say\<close>

lemma sint_ReadExtendedSeq:
  "sint (ReadExtendedSeq e) = uint (seqNum e) + 65536 * uint (wrapArroundCount e)"
proof -
  have b: "uint (seqNum e) < 65536" "uint (wrapArroundCount e) < 65536"
    using unsigned_less [of "seqNum e"] unsigned_less [of "wrapArroundCount e"] by simp_all
  define v where "v = uint (seqNum e) + 65536 * uint (wrapArroundCount e)"
  have r: "ReadExtendedSeq e = of_int v" by (simp add: ReadExtendedSeq_def maxSeqNum_def v_def)
  have "0 \<le> v" "v < 2 ^ 63" using b by (simp_all add: v_def)
  then have "sint (of_int v :: u64) = v" by (simp add: signed_of_int signed_take_bit_int_eq_self)
  then show ?thesis unfolding r by (simp add: v_def)
qed

text \<open>
  The cumulative loss a reception report carries is one packet short: with \<open>e\<close> packets expected from the
  first to the last of the stream and \<open>r\<close> of them received it says \<open>e - r - 1\<close>, or 0 when none was lost.
\<close>

theorem total_lost_one_short:
  assumes "uint (seqNum (lastSeq st)) + 65536 * uint (wrapArroundCount (lastSeq st)) = uint (FirstPktSequenceNumber st) + e - 1"
    and "rPacketsCount st = of_int r" "0 \<le> r" "r \<le> e" "1 \<le> e" "e < 2 ^ 32"
  shows "uint (TotalLost (parseReceptionReport now st)) = max 0 (e - r - 1)"
proof -
  define x :: u64 where "x = of_int (sint (ReadExtendedSeq (lastSeq st))) - ucast (FirstPktSequenceNumber st) - rPacketsCount st"
  have "x = of_int (e - r - 1)"
    unfolding x_def sint_ReadExtendedSeq assms(1,2) by (simp add: algebra_simps)
  then have ux: "uint x = (e - r - 1) mod 2 ^ 64" by (simp only: uint_word_of_int take_bit_eq_mod) simp
  have t: "TotalLost (parseReceptionReport now st) = ucast (min x (2 ^ 32))" by (simp add: parseReceptionReport_def Let_def x_def)
  show ?thesis
  proof (cases "r = e")
    case True
    then have "uint x = 2 ^ 64 - 1" using ux by simp
    then have "min x (2 ^ 32) = 2 ^ 32" by (simp add: min_def word_le_def)
    then show ?thesis using True by (simp add: t)
  next
    case False
    then have u: "uint x = e - r - 1" using ux assms by simp
    then have "min x (2 ^ 32) = x" using assms by (simp add: min_def word_le_def)
    then show ?thesis using False u assms by (simp add: t unsigned_ucast_eq take_bit_eq_mod)
  qed
qed

definition exReadStats :: "u16 \<Rightarrow> u16 \<Rightarrow> u16 \<Rightarrow> u16 \<Rightarrow> u64 \<Rightarrow> RTPReadStats" where
  "exReadStats first lst wraps interval cnt = zeroReadStats\<lparr>rSSRC := 9, FirstPktSequenceNumber := first, LastSequenceNumber := lst,
     lastSeq := \<lparr>seqNum = lst, wrapArroundCount = wraps, badSeq = maxSeqNum\<rparr>, IntervalFirstPktSeqNum := interval,
     IntervalPacketsCount := lst - interval + 1, rPacketsCount := cnt\<rparr>"

theorem total_lost_one_short_witness: "uint (TotalLost (parseReceptionReport 0 (exReadStats 10 19 0 10 7))) = 2"
  using total_lost_one_short [of "exReadStats 10 19 0 10 7" 10 7 0] by (simp add: exReadStats_def zeroReadStats_def)

lemma fractionLost_high:
  assumes "255 * E \<le> 256 * l - 1" "l < E" "E < 2 ^ 40" "0 < l"
  shows "fractionLost l E = 255"
proof -
  define q :: rat where "q = of_int l / of_int E"
  have E: "(0 :: rat) < of_int E" using assms by linarith
  have q: "0 \<le> q" using assms E by (simp add: q_def)
  have "l < 2 ^ 53" "E < 2 ^ 53" using assms by simp_all
  then have x: "fmul (fdiv (ofInt64 l) (ofInt64 E)) 256 = round64 (round64 q * 256)"
    using assms by (simp add: fmul_def fdiv_def ofInt64_exact q_def)
  have "E * 256 < 2 ^ 51" using assms by simp
  then have "(of_int (E * 256) :: rat) < of_int (2 ^ 51)" by (simp only: of_int_less_iff)
  then have eps: "(of_int E :: rat) * 256 < 2 ^ 51" by simp
  have c: "255 * (of_int E :: rat) + 1 \<le> 256 * of_int l" "(of_int l :: rat) + 1 \<le> of_int E" using assms by linarith+
  have "255 \<le> q * 256 * (1 - 1 / 2 ^ 51)" using c eps E by (simp add: q_def field_simps)
  then have lo: "255 \<le> round64 (round64 q * 256)" using round64_twice(1) [OF q, of 256] by linarith
  have "q * 256 * (1 + 1 / 2 ^ 51) < 256" using c eps E by (simp add: q_def field_simps)
  then have hi: "round64 (round64 q * 256) < 256" using round64_twice(2) [OF q, of 256] by linarith
  have "\<lfloor>round64 (round64 q * 256)\<rfloor> = 255" using lo hi by (simp add: floor_eq_iff)
  then show ?thesis using lo assms by (simp add: fractionLost_def x toU8_def truncInt_nonneg)
qed

text \<open>
  Once the sequence numbers have wrapped around, the reception report claims that almost every packet
  was lost: an interval of up to 250 packets, five seconds of audio, of which every one arrived, is
  reported with the fraction 255/256.
\<close>

theorem fraction_lost_after_wrap:
  assumes "0 < wrapArroundCount (lastSeq st)" "IntervalFirstPktSeqNum st \<le> seqNum (lastSeq st)"
    and "uint (IntervalPacketsCount st) = uint (seqNum (lastSeq st)) - uint (IntervalFirstPktSeqNum st) + 1"
    and "IntervalPacketsCount st \<le> 250"
  shows "FractionLost (parseReceptionReport now st) = 255"
proof -
  let ?n = "uint (IntervalPacketsCount st)" and ?w = "uint (wrapArroundCount (lastSeq st))"
  have w: "1 \<le> ?w" "?w < 65536" using assms(1) unsigned_less [of "wrapArroundCount (lastSeq st)"] by (simp_all add: word_less_def)
  have n: "1 \<le> ?n" "?n \<le> 250" using assms(2-4) by (simp_all add: word_le_def)
  have e: "uint (seqNum (lastSeq st)) + 65536 * ?w - uint (IntervalFirstPktSeqNum st) = 65536 * ?w + ?n - 1" using assms(3) by linarith
  then have l: "max (uint (seqNum (lastSeq st)) + 65536 * ?w - uint (IntervalFirstPktSeqNum st) - ?n) 0 = 65536 * ?w - 1" using w by linarith
  have "FractionLost (parseReceptionReport now st) = fractionLost (65536 * ?w - 1) (65536 * ?w + ?n - 1)"
    unfolding parseReceptionReport_def Let_def sint_ReadExtendedSeq l e using w by (simp add: max_def)
  also have "\<dots> = 255" using w n by (intro fractionLost_high) simp_all
  finally show ?thesis .
qed

theorem fraction_lost_after_wrap_witness: "FractionLost (parseReceptionReport 0 (exReadStats 65500 120 1 21 157)) = 255"
  using fraction_lost_after_wrap [of "exReadStats 65500 120 1 21 157"] by (simp add: exReadStats_def zeroReadStats_def)

text \<open>
  The sender report counts packets exactly up to 32 bits and then says 0: the comparison keeps the value
  2 ^ 32, which the conversion cuts off.
\<close>

theorem sender_counts_saturate_to_zero:
  "uint (PacketCount (parseSenderReport now rst wst)) = (if wPacketsCount wst < 2 ^ 32 then uint (wPacketsCount wst) else 0)
   \<and> uint (OctetCount (parseSenderReport now rst wst)) = (if wOctetCount wst < 2 ^ 32 then uint (wOctetCount wst) else 0)"
proof -
  have "uint (ucast (min x (2 ^ 32)) :: u32) = (if x < 2 ^ 32 then uint x else 0)" for x :: u64
    by (auto simp: min_def word_le_def word_less_def unsigned_ucast_eq take_bit_eq_mod)
  then show ?thesis by (simp add: parseSenderReport_def Let_def)
qed

text \<open>
  A sender report that arrives before the first packet of its stream spoils the statistics: the session
  takes the stream for known, and its first packet leaves the first sequence number and the sample
  rate at 0.
\<close>

theorem early_report_skips_start:
  assumes "SSRC (Header pkt) = srSSRC p" "rSSRC st = 0" "FirstPktSequenceNumber st = 0" "rSampleRate st = 0"
  shows "\<exists>st'. readAccount hsize now codecs n pkt (senderSeen p now0 st) = Some (n, st') \<and> FirstPktSequenceNumber st' = 0 \<and> rSampleRate st' = 0
    \<and> rPacketsCount st' = rPacketsCount st + 1"
  using assms by (simp add: readAccount_def senderSeen_def countPacket_def sameSourceStats_def calcJitter_def Let_def)

definition exReport :: SenderReport where
  "exReport = \<lparr>srSSRC = 9, NTPTime = 0, RTPTime = 0, PacketCount = 0, OctetCount = 0, srReports = []\<rparr>"

theorem early_report_skips_start_witness:
  "\<exists>st'. readAccount (\<lambda>h. 1) 5 [CodecAudioUlaw] 3 (exSeq 700) (senderSeen exReport 4 zeroReadStats) = Some (3, st')
    \<and> FirstPktSequenceNumber st' = 0 \<and> rSampleRate st' = 0 \<and> rPacketsCount st' = 1"
  using early_report_skips_start [of "exSeq 700" exReport zeroReadStats]
  by (simp add: exSeq_def exReport_def exHeader_def zeroReadStats_def)

section \<open>The round trip time\<close>

lemma half_words:
  fixes x :: u32
  shows "uint (drop_bit 16 (x AND 0xFFFF0000)) = uint x div 65536" "uint (x AND 0x0000FFFF) = uint x mod 65536"
proof -
  have m: "uint (0xFFFF :: u32) = mask 16" by (simp add: mask_eq_exp_minus_1)
  have low: "uint (y AND 0xFFFF) = take_bit 16 (uint y)" for y :: u32 unfolding unsigned_and_eq m take_bit_eq_mask ..
  then show "uint (x AND 0x0000FFFF) = uint x mod 65536" by (simp add: take_bit_eq_mod)
  have b: "0 \<le> uint x" "uint x < 4294967296" using unsigned_less [of x] by simp_all
  have d: "uint (drop_bit 16 y) = uint y div 65536" for y :: u32
    by (simp add: drop_bit_eq_div uint_div_distrib)
  have "drop_bit 16 (0xFFFF0000 :: u32) = 0xFFFF" by (rule word_uint_eqI) (simp add: d)
  then have "drop_bit 16 (x AND 0xFFFF0000) = drop_bit 16 x AND 0xFFFF" by (simp add: drop_bit_and)
  then have "uint (drop_bit 16 (x AND 0xFFFF0000)) = take_bit 16 (uint (drop_bit 16 x))" by (simp only: low)
  also have "\<dots> = uint x div 65536"
  proof -
    have "uint x = uint x div 65536 * 65536 + uint x mod 65536" "0 \<le> uint x mod 65536" "0 \<le> uint x div 65536" using b by (simp_all add: pos_imp_zdiv_nonneg_iff)
    with b have "uint x div 65536 < 65536" "0 \<le> uint x div 65536" by linarith+
    then show ?thesis unfolding d by (simp add: take_bit_eq_mod)
  qed
  finally show "uint (drop_bit 16 (x AND 0xFFFF0000)) = uint x div 65536" .
qed

text \<open>
  The round trip time is what the 32 bits of the difference say, within 2.755 milliseconds: the
  fraction is divided by 65356 instead of 65536, so it is never shorter, and longer by up to that.
\<close>

theorem calcRTT_bounds:
  "of_int (uint (rtt32 now lsr delay)) * 1000000000 / 65536 - 1 \<le> (of_int (fst (calcRTT now lsr delay)) :: rat)
    \<and> (of_int (fst (calcRTT now lsr delay)) :: rat) \<le> of_int (uint (rtt32 now lsr delay)) * 1000000000 / 65536 + 2755000"
proof -
  define x where "x = rtt32 now lsr delay"
  define f where "f = uint x mod 65536"
  define q :: rat where "q = of_int f / 65356"
  define v where "v = round64 (round64 q * 1000000000)"
  have f: "0 \<le> f" "f \<le> 65535" by (simp_all add: f_def)
  then have F: "(0 :: rat) \<le> of_int f" "(of_int f :: rat) \<le> 65535" by linarith+
  have q: "0 \<le> q" using F by (simp add: q_def)
  have b: "q * 1000000000 * (1 - 1 / 2 ^ 51) \<le> v" "v \<le> q * 1000000000 * (1 + 1 / 2 ^ 51)" "0 \<le> v"
    using round64_twice [OF q, of 1000000000] q round64_nonneg by (simp_all add: v_def)
  have "fst (calcRTT now lsr delay) = uint x div 65536 * second + truncInt (fmul (fdiv (ofInt64 f) 65356) (ofInt64 second))"
    unfolding calcRTT_def Let_def x_def [symmetric] half_words f_def by simp
  also have "fmul (fdiv (ofInt64 f) 65356) (ofInt64 second) = v"
    using f ofInt64_exact [of second] by (simp add: fmul_def fdiv_def ofInt64_exact v_def q_def)
  finally have c: "fst (calcRTT now lsr delay) = uint x div 65536 * second + \<lfloor>v\<rfloor>" using b(3) by (simp add: truncInt_nonneg)
  have u: "uint x = 65536 * (uint x div 65536) + f" by (simp add: f_def)
  have X: "(of_int (uint x) :: rat) = 65536 * of_int (uint x div 65536) + of_int f" by (subst u) simp
  have lo: "of_int f * 1000000000 / 65536 \<le> q * 1000000000 * (1 - 1 / 2 ^ 51)" using F by (simp add: q_def field_simps)
  have hi: "q * 1000000000 * (1 + 1 / 2 ^ 51) \<le> of_int f * 1000000000 / 65536 + 2755000" using F by (simp add: q_def field_simps)
  have fl: "v - 1 < of_int \<lfloor>v\<rfloor>" "of_int \<lfloor>v\<rfloor> \<le> v" by linarith+
  have "of_int f * 1000000000 / 65536 - 1 \<le> (of_int \<lfloor>v\<rfloor> :: rat)" "(of_int \<lfloor>v\<rfloor> :: rat) \<le> of_int f * 1000000000 / 65536 + 2755000"
    using lo hi b fl by linarith+
  moreover have d: "(65536 * of_int d + of_int f) * 1000000000 / 65536 = of_int d * 1000000000 + (of_int f * 1000000000 / 65536 :: rat)" for d
    by (simp add: field_simps)
  ultimately show ?thesis unfolding x_def [symmetric] c X d by simp
qed

end
