(* ===== verification/Rtp_Monitor.thy ===== *)
theory Rtp_Monitor
  imports Rtp_Report
begin

text \<open>
  The monitor of an RTP session, \<open>media/rtp_session.go\<close>: \<open>Monitor\<close> and \<open>MonitorBackground\<close> start a
  reader and a writer of RTCP, and \<open>Close\<close> and \<open>MonitorClose\<close> stop them. The goroutines are the
  program counters of a step relation; each rule is a critical section under \<open>rtcpMU\<close> or one
  operation on a channel or a socket.
\<close>

section \<open>State\<close>

text \<open>
  The reader: not there, before it clears its deadline, reading, offering its error on the channel
  of \<open>Monitor\<close>, and done. The writer runs in the caller of \<open>Monitor\<close> or in its own goroutine; after
  a failed write the caller of \<open>Monitor\<close> waits for the error of the reader.
\<close>

datatype reader_pc = RNone | RStart | RLoop | ROffer | RDone
datatype writer_pc = WNone | WLoop | WAwait | WDone
datatype closer_pc = CNone | CMarked | CWaiting | CReturned

text \<open>\<open>expired\<close>: the deadline of the RTCP connection has passed. \<open>foreground\<close>: started by \<open>Monitor\<close>.\<close>

record 'ctx mon_sys =
  mon :: "'ctx RTPSession"
  expired :: bool
  foreground :: bool
  reader :: reader_pc
  writer :: writer_pc
  closer :: closer_pc

datatype monitor_error = MonitorStarted | SessionClosed | NoRemote

section \<open>Operations\<close>

definition hasRemote :: "'ctx RTPSession \<Rightarrow> bool" where
  "hasRemote s \<longleftrightarrow> IP (Raddr (Sess s)) \<noteq> [] \<and> IP (rtcpRaddr (Sess s)) \<noteq> []"

definition startMonitor :: "nat \<Rightarrow> 'ctx RTPSession \<Rightarrow> monitor_error + 'ctx RTPSession" where
  "startMonitor goroutines s =
    (if monitorRun s then Inl MonitorStarted
     else if rsClosed s then Inl SessionClosed
     else Inr (s\<lparr>monitorRun := True, monitorWG := monitorWG s + goroutines\<rparr>))"

definition Monitor :: "'ctx RTPSession \<Rightarrow> monitor_error + 'ctx RTPSession" where
  "Monitor s = (if \<not> hasRemote s then Inl NoRemote else startMonitor 1 s)"

definition MonitorBackground :: "'ctx RTPSession \<Rightarrow> monitor_error + 'ctx RTPSession" where
  "MonitorBackground s = (if \<not> hasRemote s then Inl NoRemote else startMonitor 2 s)"

definition monitorDone :: "'ctx RTPSession \<Rightarrow> 'ctx RTPSession" where
  "monitorDone s = s\<lparr>monitorWG := monitorWG s - 1\<rparr>"

definition markClosed :: "'ctx RTPSession \<Rightarrow> 'ctx RTPSession" where
  "markClosed s = s\<lparr>rsClosed := True\<rparr>"

definition OnReadRTCP :: "nat option \<Rightarrow> 'ctx RTPSession \<Rightarrow> 'ctx RTPSession" where
  "OnReadRTCP f s = s\<lparr>onReadRTCP := f\<rparr>"

definition OnWriteRTCP :: "nat option \<Rightarrow> 'ctx RTPSession \<Rightarrow> 'ctx RTPSession" where
  "OnWriteRTCP f s = s\<lparr>onWriteRTCP := f\<rparr>"

section \<open>Steps\<close>

text \<open>
  \<open>MRead\<close> and \<open>MWrite\<close> are the reports read and written; \<open>MReturn\<close> is \<open>MonitorClose\<close> returning. The socket
  may fail the reader at any time, and a passed deadline lets no packet through.
\<close>

datatype mon_label = MStart bool | MReaderStart | MRead | MReaderFail | MWrite | MWriterFail | MWriterClosed | MHandOver
  | MClose | MDeadline | MReturn

inductive mon_step :: "'ctx mon_sys \<Rightarrow> mon_label \<Rightarrow> 'ctx mon_sys \<Rightarrow> bool" where
  mon_foreground: "Monitor (mon s) = Inr m \<Longrightarrow>
    mon_step s (MStart True) (s\<lparr>mon := m, expired := False, foreground := True, reader := RStart, writer := WLoop\<rparr>)"
| mon_background: "MonitorBackground (mon s) = Inr m \<Longrightarrow>
    mon_step s (MStart False) (s\<lparr>mon := m, expired := False, foreground := False, reader := RStart, writer := WLoop\<rparr>)"
| mon_reader_start: "reader s = RStart \<Longrightarrow>
    mon_step s MReaderStart (s\<lparr>reader := RLoop, expired := (if rsClosed (mon s) then expired s else False)\<rparr>)"
| mon_read: "reader s = RLoop \<Longrightarrow> \<not> expired s \<Longrightarrow>
    mon_step s MRead (s\<lparr>mon := readRTCPPackets clk pkts (mon s)\<rparr>)"
| mon_reader_fail_bg: "reader s = RLoop \<Longrightarrow> \<not> foreground s \<Longrightarrow>
    mon_step s MReaderFail (s\<lparr>reader := RDone, mon := monitorDone (mon s)\<rparr>)"
| mon_reader_fail_fg: "reader s = RLoop \<Longrightarrow> foreground s \<Longrightarrow> mon_step s MReaderFail (s\<lparr>reader := ROffer\<rparr>)"
| mon_write: "writer s = WLoop \<Longrightarrow> writeRTCP L now (mon s) = (None, out, call, m) \<Longrightarrow>
    mon_step s MWrite (s\<lparr>mon := m\<rparr>)"
| mon_writer_fail_bg: "writer s = WLoop \<Longrightarrow> \<not> foreground s \<Longrightarrow> writeRTCP L now (mon s) = (Some e, out, call, m) \<Longrightarrow>
    mon_step s MWriterFail (s\<lparr>mon := monitorDone m, writer := WDone\<rparr>)"
| mon_writer_fail_fg: "writer s = WLoop \<Longrightarrow> foreground s \<Longrightarrow> writeRTCP L now (mon s) = (Some e, out, call, m) \<Longrightarrow>
    mon_step s MWriterFail (s\<lparr>mon := m, writer := WAwait\<rparr>)"
| mon_writer_closed_bg: "writer s = WLoop \<Longrightarrow> rsClosed (mon s) \<Longrightarrow> \<not> foreground s \<Longrightarrow>
    mon_step s MWriterClosed (s\<lparr>writer := WDone, mon := monitorDone (mon s)\<rparr>)"
| mon_writer_closed_fg: "writer s = WLoop \<Longrightarrow> rsClosed (mon s) \<Longrightarrow> foreground s \<Longrightarrow>
    mon_step s MWriterClosed (s\<lparr>writer := WDone\<rparr>)"
| mon_hand_over: "reader s = ROffer \<Longrightarrow> writer s = WAwait \<Longrightarrow>
    mon_step s MHandOver (s\<lparr>reader := RDone, writer := WDone, mon := monitorDone (mon s)\<rparr>)"
| mon_close: "closer s = CNone \<Longrightarrow> mon_step s MClose (s\<lparr>mon := markClosed (mon s), closer := CMarked\<rparr>)"
| mon_deadline: "closer s = CMarked \<Longrightarrow> mon_step s MDeadline (s\<lparr>expired := True, closer := CWaiting\<rparr>)"
| mon_return: "closer s = CWaiting \<Longrightarrow> monitorWG (mon s) = 0 \<Longrightarrow> mon_step s MReturn (s\<lparr>closer := CReturned\<rparr>)"

inductive_cases mon_stepE: "mon_step s l t"

section \<open>Invariant\<close>

text \<open>What no step of the reports touches.\<close>

definition lifecycle :: "'ctx RTPSession \<Rightarrow> _" where
  "lifecycle s = (monitorWG s, monitorRun s, rsClosed s)"

lemma lifecycle_readReceptionReport: "lifecycle (readReceptionReport rr now s) = lifecycle s"
  by (simp add: readReceptionReport_def lifecycle_def Let_def)

lemma lifecycle_readReports: "lifecycle (readReports rrs now s) = lifecycle s"
  unfolding readReports_def by (rule fold_keeps) (rule lifecycle_readReceptionReport)

lemma lifecycle_readRTCPPacket: "lifecycle (snd (readRTCPPacket p now s)) = lifecycle s"
  by (cases p) (simp_all add: readRTCPPacket_def lifecycle_readReports, simp add: lifecycle_def)

lemma lifecycle_readRTCPPackets: "lifecycle (readRTCPPackets clk ps s) = lifecycle s"
  by (induction clk ps s rule: readRTCPPackets.induct) (simp_all add: lifecycle_readRTCPPacket)

lemma lifecycle_writeRTCP: "writeRTCP L now s = (e, out, call, m) \<Longrightarrow> lifecycle m = lifecycle s"
  by (auto simp: writeRTCP_def resetInterval_def lifecycle_def Let_def split: option.splits prod.splits)

definition live :: "'ctx mon_sys \<Rightarrow> nat" where
  "live s = (if reader s \<in> {RStart, RLoop, ROffer} then 1 else 0) + (if \<not> foreground s \<and> writer s = WLoop then 1 else 0)"

text \<open>
  The wait group counts the goroutines that run; once a closed session's deadline has passed it stays
  so; and the offer on the channel is made only by the reader of \<open>Monitor\<close>.
\<close>

definition monInv :: "'ctx mon_sys \<Rightarrow> bool" where
  "monInv s \<longleftrightarrow> monitorWG (mon s) = live s
     \<and> (\<not> monitorRun (mon s) \<longrightarrow> reader s = RNone \<and> writer s = WNone)
     \<and> (closer s \<noteq> CNone \<longrightarrow> rsClosed (mon s))
     \<and> (closer s \<in> {CWaiting, CReturned} \<longrightarrow> expired s)
     \<and> (reader s = ROffer \<or> writer s = WAwait \<longrightarrow> foreground s)
     \<and> (closer s = CReturned \<longrightarrow> live s = 0)"

definition monInit :: "'ctx mon_sys \<Rightarrow> bool" where
  "monInit s \<longleftrightarrow> monitorWG (mon s) = 0 \<and> \<not> monitorRun (mon s) \<and> \<not> rsClosed (mon s)
     \<and> reader s = RNone \<and> writer s = WNone \<and> closer s = CNone"

lemma monInv_step:
  assumes "monInv s" "mon_step s l t"
  shows "monInv t"
  using assms(2)
proof cases
  case (mon_read clk pkts)
  have "lifecycle (readRTCPPackets clk pkts (mon s)) = lifecycle (mon s)" by (rule lifecycle_readRTCPPackets)
  then show ?thesis using assms(1) mon_read by (auto simp: monInv_def live_def lifecycle_def)
next
  case (mon_write L now out call m)
  have "lifecycle m = lifecycle (mon s)" using mon_write by (intro lifecycle_writeRTCP) simp
  then show ?thesis using assms(1) mon_write by (auto simp: monInv_def live_def lifecycle_def)
next
  case (mon_writer_fail_bg L now e out call m)
  have "lifecycle m = lifecycle (mon s)" using mon_writer_fail_bg by (intro lifecycle_writeRTCP) simp
  then show ?thesis using assms(1) mon_writer_fail_bg by (auto simp: monInv_def live_def lifecycle_def monitorDone_def)
next
  case (mon_writer_fail_fg L now e out call m)
  have "lifecycle m = lifecycle (mon s)" using mon_writer_fail_fg by (intro lifecycle_writeRTCP) simp
  then show ?thesis using assms(1) mon_writer_fail_fg by (auto simp: monInv_def live_def lifecycle_def)
qed (use assms(1) in \<open>auto simp: monInv_def live_def Monitor_def MonitorBackground_def startMonitor_def monitorDone_def markClosed_def
       split: if_splits\<close>)

interpretation monitor: transition_system monInit mon_step monInv
proof
  show "monInv s" if "monInit s" for s :: "'a mon_sys"
    using that by (auto simp: monInit_def monInv_def live_def)
qed (fact monInv_step)

section \<open>Stopping the monitor\<close>

lemma returned_stays:
  assumes "exec mon_step s ls t" "monInv s" "closer s = CReturned" "\<not> foreground s"
  shows "set ls \<inter> {MRead, MWrite} = {}"
  using assms
proof (induction rule: exec.induct)
  case (exec_cons s l t ls u)
  have "l \<noteq> MRead \<and> l \<noteq> MWrite \<and> closer t = CReturned \<and> \<not> foreground t"
    using exec_cons.hyps(1) exec_cons.prems
    by cases (auto simp: monInv_def live_def Monitor_def MonitorBackground_def startMonitor_def split: if_splits)
  then show ?case using exec_cons monInv_step by auto
qed simp

lemma reader_stops:
  assumes "reader s \<in> {RStart, RLoop}" "\<not> foreground s" "rsClosed (mon s)"
  shows "\<exists>ls t. exec mon_step s ls t \<and> t = s\<lparr>reader := RDone, mon := monitorDone (mon s)\<rparr>"
proof -
  have loop: "exec mon_step s [MReaderFail] (s\<lparr>reader := RDone, mon := monitorDone (mon s)\<rparr>)" if "reader s = RLoop" "\<not> foreground s" for s :: "'a mon_sys"
    using that by (blast intro: exec.intros mon_reader_fail_bg)
  show ?thesis
  proof (cases "reader s = RLoop")
    case True
    then show ?thesis using loop assms(2) by blast
  next
    case False
    then have "mon_step s MReaderStart (s\<lparr>reader := RLoop\<rparr>)" using mon_reader_start [of s] assms by simp
    then have "exec mon_step s [MReaderStart, MReaderFail] (s\<lparr>reader := RDone, mon := monitorDone (mon s)\<rparr>)"
      using loop [of "s\<lparr>reader := RLoop\<rparr>"] assms(2) by (auto intro: exec_cons)
    then show ?thesis by blast
  qed
qed

lemma writer_stops:
  assumes "writer s = WLoop" "\<not> foreground s" "rsClosed (mon s)"
  shows "exec mon_step s [MWriterClosed] (s\<lparr>writer := WDone, mon := monitorDone (mon s)\<rparr>)"
  using assms by (blast intro: exec.intros mon_writer_closed_bg)


text \<open>
  \<open>MonitorClose\<close> never returns when it stops a session whose \<open>Monitor\<close> has left through the closed
  channel while its reader still runs: nobody receives the error the reader offers, so the reader
  never ends and the wait group stays positive in every continuation.
\<close>

theorem foreground_close_hangs:
  assumes "monInit s" "exec mon_step s ls t" "foreground t" "writer t = WDone" "reader t \<in> {RStart, RLoop, ROffer}"
    and "closer t \<noteq> CNone" "exec mon_step t ms u"
  shows "MReturn \<notin> set ms \<and> closer u \<noteq> CReturned \<and> 0 < monitorWG (mon u)"
proof -
  define stuck where "stuck v \<longleftrightarrow> monInv v \<and> foreground v \<and> writer v = WDone \<and> reader v \<in> {RStart, RLoop, ROffer} \<and> closer v \<noteq> CNone"
    for v :: "'a mon_sys"
  have step: "stuck w \<and> l \<noteq> MReturn" if "stuck v" "mon_step v l w" for v w :: "'a mon_sys" and l
  proof -
    have v: "foreground v" "writer v = WDone" "reader v \<in> {RStart, RLoop, ROffer}" "closer v \<noteq> CNone" "monInv v"
      using that(1) by (simp_all add: stuck_def)
    then have f: "monitorWG (mon v) = 1" "rsClosed (mon v)" by (simp_all add: monInv_def live_def)
    from that(2) have "foreground w \<and> writer w = WDone \<and> reader w \<in> {RStart, RLoop, ROffer} \<and> closer w \<noteq> CNone \<and> l \<noteq> MReturn"
      using v(1-4) f by cases (auto simp: Monitor_def MonitorBackground_def startMonitor_def split: if_splits)
    moreover have "monInv w" using monInv_step [OF v(5) that(2)] .
    ultimately show ?thesis by (simp add: stuck_def)
  qed
  have "stuck t" using assms monitor.inv_reachable [OF assms(1,2)] by (simp add: stuck_def)
  with assms(7) have "MReturn \<notin> set ms \<and> stuck u"
    by (induction rule: exec.induct) (use step in auto)
  then show ?thesis by (auto simp: stuck_def monInv_def live_def)
qed

text \<open>A session with a peer, and the run in which \<open>Monitor\<close> sees the closed channel first.\<close>

definition exMonitor :: "(bytes \<times> bytes) mon_sys" where
  "exMonitor = \<lparr>mon = exRTPSession\<lparr>Sess := exSecure\<lparr>Raddr := exPeer, rtcpRaddr := exPeer\<rparr>\<rparr>, expired = False, foreground = False,
     reader = RNone, writer = WNone, closer = CNone\<rparr>"

definition exStarted :: "bool \<Rightarrow> (bytes \<times> bytes) mon_sys" where
  "exStarted fg = exMonitor\<lparr>mon := (mon exMonitor)\<lparr>monitorRun := True, monitorWG := (if fg then 1 else 2)\<rparr>, foreground := fg, reader := RStart, writer := WLoop\<rparr>"

lemmas exMonitor_simps = exMonitor_def exStarted_def exRTPSession_def NewRTPSession_def exPeer_def

lemma exMonitor_start: "monInit exMonitor" "mon_step exMonitor (MStart fg) (exStarted fg)"
proof -
  show "monInit exMonitor" by (simp add: monInit_def exMonitor_simps)
  have "Monitor (mon exMonitor) = Inr (mon (exStarted True))" "MonitorBackground (mon exMonitor) = Inr (mon (exStarted False))"
    by (simp_all add: exMonitor_simps Monitor_def MonitorBackground_def hasRemote_def startMonitor_def)
  then show "mon_step exMonitor (MStart fg) (exStarted fg)"
    using mon_foreground [of exMonitor] mon_background [of exMonitor] by (cases fg) (auto simp: exMonitor_simps)
qed

definition exClosed :: "bool \<Rightarrow> (bytes \<times> bytes) mon_sys" where
  "exClosed fg = (exStarted fg)\<lparr>mon := markClosed (mon (exStarted fg)), closer := CMarked\<rparr>"

lemma exMonitor_close: "exec mon_step exMonitor [MStart fg, MClose] (exClosed fg)"
  using exMonitor_start(2) [of fg] mon_close [of "exStarted fg"] by (auto simp: exClosed_def exMonitor_simps intro: exec_two)

theorem foreground_close_hangs_witness:
  "\<exists>t. exec mon_step exMonitor [MStart True, MClose, MWriterClosed] t \<and> closer t = CMarked
    \<and> (\<forall>ms u. exec mon_step t ms u \<longrightarrow> closer u \<noteq> CReturned)"
proof -
  let ?t = "(exClosed True)\<lparr>writer := WDone\<rparr>"
  have "mon_step (exClosed True) MWriterClosed ?t"
    using mon_writer_closed_fg [of "exClosed True"] by (simp add: exClosed_def exMonitor_simps markClosed_def)
  then have e: "exec mon_step exMonitor [MStart True, MClose, MWriterClosed] ?t" using exec_snoc [OF exMonitor_close] by simp
  show ?thesis
    using foreground_close_hangs [OF exMonitor_start(1) e] e by (intro exI [of _ ?t]) (auto simp: exClosed_def exMonitor_simps)
qed


end
