(* ===== verification/Packet_IO.thy ===== *)
theory Packet_IO
  imports Rtp_Session
begin

text \<open>
  Payloads to packets and back: \<open>media/rtp_packet_writer.go\<close> and \<open>media/rtp_packet_reader.go\<close>. The session
  behind them is the function that takes a packet (\<open>RTPWriter\<close>) or the results of the reads
  (\<open>RTPReader\<close>). The pacing of \<open>Write\<close> by a ticker is the time it ends at, an argument.
\<close>

section \<open>The packet writer\<close>

text \<open>\<open>clockOn\<close>: there is a ticker.\<close>

record RTPPacketWriter =
  pwHeader :: rtp_header
  pwSSRC :: u32
  pwCodec :: Codec
  sampleRateTimestamp :: u32
  lastSampleTime :: "instant option"
  seqWriter :: RTPExtendedSequenceNumber
  nextTimestamp :: u32
  initTimestamp :: u32
  clockOn :: bool

definition pwClockReset :: "RTPPacketWriter \<Rightarrow> RTPPacketWriter" where
  "pwClockReset w = w\<lparr>sampleRateTimestamp := SampleTimestamp (pwCodec w)\<rparr>"

definition clockStart :: "RTPPacketWriter \<Rightarrow> RTPPacketWriter" where
  "clockStart w = (pwClockReset w)\<lparr>clockOn := True\<rparr>"

definition ClockDisable :: "RTPPacketWriter \<Rightarrow> RTPPacketWriter" where
  "ClockDisable w = w\<lparr>clockOn := False\<rparr>"

definition ClockEnable :: "RTPPacketWriter \<Rightarrow> RTPPacketWriter" where
  "ClockEnable w = clockStart w"

text \<open>The random numbers of the sequencer and of the source identifier are arguments.\<close>

definition NewRTPPacketWriter :: "u32 \<Rightarrow> u32 \<Rightarrow> Codec \<Rightarrow> RTPPacketWriter" where
  "NewRTPPacketWriter r ssrc codec = clockStart \<lparr>pwHeader = zeroHeader, pwSSRC = ssrc, pwCodec = codec, sampleRateTimestamp = 0,
     lastSampleTime = None, seqWriter = NewRTPSequencer r, nextTimestamp = 0, initTimestamp = 0, clockOn = False\<rparr>"

definition ResetTimestamp :: "instant \<Rightarrow> RTPPacketWriter \<Rightarrow> RTPPacketWriter" where
  "ResetTimestamp now p = (case lastSampleTime p of
     None \<Rightarrow> p
   | Some t \<Rightarrow>
       let diffTimestamp = toU32 (fmul (Seconds (timeSub now (Some t))) (ofInt64 (uint (SampleRate (pwCodec p)))));
           nts = nextTimestamp p + diffTimestamp
       in p\<lparr>nextTimestamp := nts, initTimestamp := nts\<rparr>)"

definition DelayTimestamp :: "u32 \<Rightarrow> RTPPacketWriter \<Rightarrow> RTPPacketWriter" where
  "DelayTimestamp offset p = p\<lparr>nextTimestamp := nextTimestamp p + offset\<rparr>"

definition writeSamplesUnsafe ::
  "(rtp_packet \<Rightarrow> 'w \<Rightarrow> 'e option \<times> 'w) \<Rightarrow> bytes \<Rightarrow> u32 \<Rightarrow> bool \<Rightarrow> u8 \<Rightarrow> RTPPacketWriter \<Rightarrow> 'w
    \<Rightarrow> (nat \<times> 'e option) \<times> RTPPacketWriter \<times> 'w" where
  "writeSamplesUnsafe W payload step marker payloadType p w =
    (case NextSeqNumber (seqWriter p) of (seq, sw) \<Rightarrow>
       let hdr = zeroHeader\<lparr>Version := 2, Marker := marker, PayloadType := payloadType, Timestamp := nextTimestamp p,
             SequenceNumber := seq, SSRC := pwSSRC p\<rparr>
       in case W \<lparr>Header = hdr, Payload = payload, PaddingSize = 0\<rparr> w of (e, w') \<Rightarrow>
            ((length payload, e), p\<lparr>seqWriter := sw, nextTimestamp := nextTimestamp p + step, pwHeader := hdr\<rparr>, w'))"

definition pwWrite ::
  "(rtp_packet \<Rightarrow> 'w \<Rightarrow> 'e option \<times> 'w) \<Rightarrow> instant \<Rightarrow> bytes \<Rightarrow> RTPPacketWriter \<Rightarrow> 'w \<Rightarrow> (nat \<times> 'e option) \<times> RTPPacketWriter \<times> 'w" where
  "pwWrite W sampleTime b p w =
    (case writeSamplesUnsafe W b (sampleRateTimestamp p) (nextTimestamp p = initTimestamp p) (CPayloadType (pwCodec p)) p w of
       (r, p', w') \<Rightarrow> (r, p'\<lparr>lastSampleTime := Some sampleTime\<rparr>, w'))"

definition WriteSamples ::
  "(rtp_packet \<Rightarrow> 'w \<Rightarrow> 'e option \<times> 'w) \<Rightarrow> bytes \<Rightarrow> u32 \<Rightarrow> bool \<Rightarrow> u8 \<Rightarrow> RTPPacketWriter \<Rightarrow> 'w
    \<Rightarrow> (nat \<times> 'e option) \<times> RTPPacketWriter \<times> 'w" where
  "WriteSamples W payload step marker payloadType p w = writeSamplesUnsafe W payload step marker payloadType p w"

text \<open>\<open>UpdateRTPSession\<close> panics, as \<open>CodecAudioFromSession\<close> does, for a session without codecs.\<close>

definition UpdateRTPSession_pw :: "'ctx MediaSession \<Rightarrow> RTPPacketWriter \<Rightarrow> RTPPacketWriter option" where
  "UpdateRTPSession_pw sess w =
    map_option (\<lambda>codec. pwClockReset (w\<lparr>pwCodec := codec\<rparr>)) (CodecAudioFromSession (filterCodecs sess) (Codecs sess))"

section \<open>The packet reader\<close>

text \<open>
  \<open>unreadPayload\<close> is the buffer of short reads; its first \<open>unread\<close> bytes are still to be read. What is
  in it behind them is never read.
\<close>

record RTPPacketReader =
  prHeader :: rtp_header
  seqReader :: RTPExtendedSequenceNumber
  unreadPayload :: "bytes option"
  unread :: nat
  lastSSRC :: u32
  prReader :: nat

definition NewRTPPacketReader :: "nat \<Rightarrow> RTPPacketReader" where
  "NewRTPPacketReader reader = \<lparr>prHeader = zeroHeader, seqReader = zeroSeq, unreadPayload = None, unread = 0, lastSSRC = 0, prReader = reader\<rparr>"

definition readPayload :: "nat \<Rightarrow> bytes \<Rightarrow> RTPPacketReader \<Rightarrow> bytes \<times> RTPPacketReader" where
  "readPayload k payload r =
    (let n = min k (length payload); rest = drop n payload; buf = (case unreadPayload r of Some b \<Rightarrow> b | None \<Rightarrow> []);
         written = min (length buf) (length rest)
     in (take n payload,
         if n < length payload then r\<lparr>unreadPayload := Some (take written rest @ drop written buf), unread := written\<rparr>
         else r\<lparr>unread := 0\<rparr>))"

text \<open>
  What the readers give: an attempt on a reader, with the reader in place when it failed. A read that
  failed on a reader replaced meanwhile is repeated on the new one.
\<close>

type_synonym attempt = "go_error + nat \<times> rtp_packet"

fun readAttempts :: "nat \<Rightarrow> attempt \<Rightarrow> (nat \<times> attempt) list \<Rightarrow> attempt \<times> nat" where
  "readAttempts reader (Inr x) later = (Inr x, reader)"
| "readAttempts reader (Inl e) [] = (Inl e, reader)"
| "readAttempts reader (Inl e) ((newReader, x) # later) =
    (if newReader = reader then (Inl e, reader) else readAttempts newReader x later)"

datatype pr_result = PrData bytes | PrShort bytes | PrEOF | PrError go_error | PrWait

definition trackSeq :: "rtp_packet \<Rightarrow> RTPPacketReader \<Rightarrow> RTPPacketReader" where
  "trackSeq pkt r = r\<lparr>seqReader := (if lastSSRC r = SSRC (Header pkt) then snd (UpdateSeq (SequenceNumber (Header pkt)) (seqReader r))
       else InitSeq (SequenceNumber (Header pkt)) (seqReader r)),
     lastSSRC := SSRC (Header pkt), prHeader := Header pkt\<rparr>"

text \<open>The read of a buffer of \<open>k\<close> bytes; \<open>None\<close> is the panic of the double check.\<close>

definition prRead ::
  "(rtp_header \<Rightarrow> nat) \<Rightarrow> nat \<Rightarrow> attempt \<Rightarrow> (nat \<times> attempt) list \<Rightarrow> RTPPacketReader \<Rightarrow> (pr_result \<times> RTPPacketReader) option" where
  "prRead hsize k first later r =
    (if 0 < unread r then
       (case readPayload k (take (unread r) (case unreadPayload r of Some b \<Rightarrow> b | None \<Rightarrow> [])) r of (d, r') \<Rightarrow> Some (PrData d, r'))
     else
       let small = k < RTPBufSize;
           r1 = (if small \<and> unreadPayload r = None then r\<lparr>unreadPayload := Some (replicate RTPBufSize 0)\<rparr> else r)
       in case readAttempts (prReader r) first later of
            (Inl e, reader) \<Rightarrow> Some (if e = ErrNetClosed then PrEOF else PrError e, r1\<lparr>prReader := reader\<rparr>)
          | (Inr (rtpN, pkt), reader) \<Rightarrow>
              let r2 = r1\<lparr>prReader := reader\<rparr>; payloadSize = length (Payload pkt) in
              if rtpN = 0 then Some (PrData [], r2)
              else if int rtpN - int (hsize (Header pkt)) - int (unat (PaddingSize pkt)) \<noteq> int payloadSize then None
              else if payloadSize = 0 then Some (PrData [], r2)
              else let r3 = trackSeq pkt r2 in
                if small then (case readPayload k (Payload pkt) r3 of (d, r4) \<Rightarrow> Some (PrData d, r4))
                else if k < payloadSize then Some (PrShort (take k (Payload pkt)), r3)
                else Some (PrData (Payload pkt), r3))"

definition UpdateReader :: "nat \<Rightarrow> RTPPacketReader \<Rightarrow> RTPPacketReader" where
  "UpdateReader reader r = r\<lparr>prReader := reader\<rparr>"

section \<open>What a writer puts on the wire\<close>

text \<open>A series of writes on a session that records the packets.\<close>

definition recordRTP :: "rtp_packet \<Rightarrow> rtp_packet list \<Rightarrow> unit option \<times> rtp_packet list" where
  "recordRTP pkt sent = (None, sent @ [pkt])"

fun writeSeries :: "bytes list \<Rightarrow> RTPPacketWriter \<Rightarrow> rtp_packet list \<Rightarrow> RTPPacketWriter \<times> rtp_packet list" where
  "writeSeries [] p w = (p, w)"
| "writeSeries (b # bs) p w = (case pwWrite recordRTP 0 b p w of (r, p', w') \<Rightarrow> writeSeries bs p' w')"

definition packetAt :: "RTPPacketWriter \<Rightarrow> nat \<Rightarrow> bytes \<Rightarrow> rtp_packet" where
  "packetAt p i b = \<lparr>Header = zeroHeader\<lparr>Version := 2, Marker := (nextTimestamp p + of_nat i * sampleRateTimestamp p = initTimestamp p),
       PayloadType := CPayloadType (pwCodec p), Timestamp := nextTimestamp p + of_nat i * sampleRateTimestamp p,
       SequenceNumber := seqNum (seqWriter p) + of_nat (Suc i), SSRC := pwSSRC p\<rparr>, Payload = b, PaddingSize = 0\<rparr>"

lemma NextSeqNumber_seq: "fst (NextSeqNumber s) = seqNum s + 1" "seqNum (snd (NextSeqNumber s)) = seqNum s + 1"
  by (simp_all add: NextSeqNumber_def Let_def)

lemma writeSeries_packets:
  "snd (writeSeries bs p w) = w @ map (\<lambda>(i, b). packetAt p i b) (zip [0..<length bs] bs)"
proof (induction bs arbitrary: p w)
  case (Cons b bs)
  obtain seq sw where n: "NextSeqNumber (seqWriter p) = (seq, sw)" by fastforce
  then have seq: "seq = seqNum (seqWriter p) + 1" "seqNum sw = seqNum (seqWriter p) + 1"
    using NextSeqNumber_seq [of "seqWriter p"] by simp_all
  obtain r p' w' where w: "pwWrite recordRTP 0 b p w = (r, p', w')" by (metis prod_cases3)
  have w': "w' = w @ [packetAt p 0 b]" and p': "seqNum (seqWriter p') = seqNum (seqWriter p) + 1"
      "nextTimestamp p' = nextTimestamp p + sampleRateTimestamp p" "initTimestamp p' = initTimestamp p" "pwSSRC p' = pwSSRC p"
      "sampleRateTimestamp p' = sampleRateTimestamp p" "pwCodec p' = pwCodec p"
    using w n seq by (auto simp: pwWrite_def writeSamplesUnsafe_def recordRTP_def packetAt_def Let_def)
  have "packetAt p' i x = packetAt p (Suc i) x" for i x by (simp add: packetAt_def p' algebra_simps)
  then have "map (\<lambda>(i, x). packetAt p' i x) (zip [0..<length bs] bs) = map (\<lambda>(i, x). packetAt p i x) (zip [1..<Suc (length bs)] bs)"
    by (simp add: map_Suc_upt [symmetric] zip_map1 split_beta del: upt_Suc)
  then show ?case using Cons.IH [of p' w'] w w' by (simp add: upt_conv_Cons del: upt_Suc)
qed simp

text \<open>
  C17. The packets of a new writer form one RTP stream: the \<open>i\<close>-th write goes out with the \<open>i\<close>-th sequence
  number after the random start, modulo 65536, with a timestamp of \<open>i\<close> frames, with the same source
  identifier, and its payload unchanged; the marker is set on the first packet and, while the
  timestamps have not wrapped around, on no other.
\<close>

theorem packet_writer_stream:
  assumes "unat (SampleTimestamp codec) * length bs < 2 ^ 32" "0 < SampleTimestamp codec" "i < length bs"
  shows "let pkts = snd (writeSeries bs (NewRTPPacketWriter r ssrc codec) []) in
      length pkts = length bs \<and> Payload (pkts ! i) = bs ! i \<and> SequenceNumber (Header (pkts ! i)) = ucast r + of_nat (Suc i)
    \<and> unat (Timestamp (Header (pkts ! i))) = i * unat (SampleTimestamp codec) \<and> SSRC (Header (pkts ! i)) = ssrc
    \<and> (Marker (Header (pkts ! i)) \<longleftrightarrow> i = 0)"
proof -
  let ?p = "NewRTPPacketWriter r ssrc codec" and ?d = "SampleTimestamp codec"
  have p: "nextTimestamp ?p = 0" "initTimestamp ?p = 0" "sampleRateTimestamp ?p = ?d" "pwSSRC ?p = ssrc" "seqNum (seqWriter ?p) = ucast r"
    by (simp_all add: NewRTPPacketWriter_def clockStart_def pwClockReset_def NewRTPSequencer_def InitSeq_def)
  define pkts where "pkts = snd (writeSeries bs ?p [])"
  have pkts: "pkts = map (\<lambda>(i, b). packetAt ?p i b) (zip [0..<length bs] bs)" by (simp add: pkts_def writeSeries_packets)
  then have at: "pkts ! i = packetAt ?p i (bs ! i)" and len: "length pkts = length bs" using assms(3) by simp_all
  have "i * unat ?d \<le> unat ?d * length bs" using assms(3) by (metis less_imp_le mult.commute mult_le_mono2)
  then have lt: "i * unat ?d < 2 ^ 32" using assms(1) by (rule le_less_trans)
  have "(of_nat i :: u32) * ?d = of_nat (i * unat ?d)" by simp
  then have ts: "unat ((of_nat i :: u32) * ?d) = i * unat ?d" using lt by (simp only: unat_of_nat) simp
  have d: "0 < unat ?d" using assms(2) by (simp add: word_less_nat_alt)
  have "((of_nat i :: u32) * ?d = 0) \<longleftrightarrow> i = 0" using ts d by (metis mult_is_0 not_gr0 unat_eq_zero)
  then show ?thesis unfolding pkts_def [symmetric] Let_def using ts by (simp add: at len packetAt_def p)
qed

theorem packet_writer_stream_witness:
  "let pkts = snd (writeSeries [[1], [2], [3]] (NewRTPPacketWriter 65534 77 CodecAudioUlaw) []) in
    Payload (pkts ! 2) = [3] \<and> SequenceNumber (Header (pkts ! 2)) = 1 \<and> unat (Timestamp (Header (pkts ! 2))) = 320"
proof -
  have d: "SampleTimestamp CodecAudioUlaw = 160" by code_simp
  show ?thesis
    using packet_writer_stream [of CodecAudioUlaw "[[1], [2], [3]]" 2 65534 77] unfolding d Let_def by simp
qed

section \<open>Reading in pieces\<close>

text \<open>Reads with the buffers of the given sizes, as long as bytes of the packet are unread.\<close>

fun readPieces :: "(rtp_header \<Rightarrow> nat) \<Rightarrow> nat list \<Rightarrow> RTPPacketReader \<Rightarrow> bytes list \<times> RTPPacketReader" where
  "readPieces hsize [] r = ([], r)"
| "readPieces hsize (k # ks) r = (if unread r = 0 then ([], r)
     else case prRead hsize k (Inl EOF) [] r of
         Some (PrData d, r') \<Rightarrow> (case readPieces hsize ks r' of (ds, r'') \<Rightarrow> (d # ds, r''))
       | _ \<Rightarrow> ([], r))"

definition pending :: "RTPPacketReader \<Rightarrow> bytes" where
  "pending r = take (unread r) (case unreadPayload r of Some b \<Rightarrow> b | None \<Rightarrow> [])"

definition prWf :: "RTPPacketReader \<Rightarrow> bool" where
  "prWf r \<longleftrightarrow> (case unreadPayload r of Some b \<Rightarrow> length b = RTPBufSize \<and> unread r \<le> RTPBufSize | None \<Rightarrow> unread r = 0)"

lemma readPayload_pending:
  assumes "readPayload k payload r = (d, r')" "unreadPayload r = Some b" "length b = RTPBufSize" "length payload \<le> RTPBufSize"
  shows "d = take k payload" "pending r' = drop k payload" "prWf r'" "unread r' = length payload - k"
  using assms by (auto simp: readPayload_def pending_def prWf_def Let_def min_def split: if_splits)

lemma prRead_pending:
  assumes "prWf r" "0 < unread r"
  obtains r' where "prRead hsize k first later r = Some (PrData (take k (pending r)), r')" "pending r' = drop k (pending r)" "prWf r'"
    "unread r' = unread r - k"
proof -
  obtain b where b: "unreadPayload r = Some b" "length b = RTPBufSize" "unread r \<le> RTPBufSize"
    using assms by (auto simp: prWf_def split: option.splits)
  obtain d r' where d: "readPayload k (pending r) r = (d, r')" by fastforce
  have l: "length (pending r) = unread r" using b by (simp add: pending_def)
  note f = readPayload_pending [OF d b(1,2)]
  have "prRead hsize k first later r = Some (PrData d, r')" using d assms(2) by (simp add: prRead_def pending_def)
  then show ?thesis using that f l b(3) by auto
qed

lemma readPieces_pending:
  assumes "prWf r" "\<forall>k \<in> set ks. 0 < k"
  shows "concat (fst (readPieces hsize ks r)) = take (sum_list ks) (pending r)"
  using assms
proof (induction ks arbitrary: r)
  case (Cons k ks)
  show ?case
  proof (cases "unread r = 0")
    case True
    then show ?thesis by (simp add: pending_def)
  next
    case False
    then obtain r' where r': "prRead hsize k (Inl EOF) [] r = Some (PrData (take k (pending r)), r')" "pending r' = drop k (pending r)" "prWf r'"
      using prRead_pending [OF Cons.prems(1)] by blast
    have "concat (fst (readPieces hsize ks r')) = take (sum_list ks) (drop k (pending r))"
      using Cons.IH [OF r'(3)] Cons.prems(2) r'(2) by simp
    then show ?thesis using False r'(1) by (cases "readPieces hsize ks r'") (simp add: take_add)
  qed
qed simp



end
