(* ===== verification/Dtmf.thy ===== *)
theory Dtmf
  imports Packet_IO
begin

unbundle bit_operations_syntax

text \<open>
  DTMF over RTP: \<open>media/rtp_dtmf.go\<close>, \<open>media/rtp_dtmf_writer.go\<close> and \<open>media/rtp_dtmf_reader.go\<close>. A digit
  is a series of seven packets of the telephone-event codec; the reader takes it from any part of the
  series that has its beginning and an end.
\<close>

section \<open>Events\<close>

definition dtmfEventMapping :: "(char \<times> u8) list" where
  "dtmfEventMapping = [(CHR ''0'', 0), (CHR ''1'', 1), (CHR ''2'', 2), (CHR ''3'', 3), (CHR ''4'', 4), (CHR ''5'', 5),
     (CHR ''6'', 6), (CHR ''7'', 7), (CHR ''8'', 8), (CHR ''9'', 9), (CHR ''*'', 10), (CHR ''#'', 11), (CHR ''A'', 12),
     (CHR ''B'', 13), (CHR ''C'', 14), (CHR ''D'', 15)]"

definition dtmfEventMappingRev :: "(u8 \<times> char) list" where
  "dtmfEventMappingRev = [(0, CHR ''0''), (1, CHR ''1''), (2, CHR ''2''), (3, CHR ''3''), (4, CHR ''4''), (5, CHR ''5''),
     (6, CHR ''6''), (7, CHR ''7''), (8, CHR ''8''), (9, CHR ''9''), (10, CHR ''*''), (11, CHR ''#''), (12, CHR ''A''),
     (13, CHR ''B''), (14, CHR ''C''), (15, CHR ''D'')]"

text \<open>A key that is not in a map reads as the zero value.\<close>

definition eventOf :: "char \<Rightarrow> u8" where
  "eventOf c = (case map_of dtmfEventMapping c of Some e \<Rightarrow> e | None \<Rightarrow> 0)"

definition DTMFToRune :: "u8 \<Rightarrow> char" where
  "DTMFToRune e = (case map_of dtmfEventMappingRev e of Some c \<Rightarrow> c | None \<Rightarrow> CHR 0x00)"

record DTMFEvent =
  Event :: u8
  EndOfEvent :: bool
  Volume :: u8
  Duration :: u16

definition zeroDTMF :: DTMFEvent where
  "zeroDTMF = \<lparr>Event = 0, EndOfEvent = False, Volume = 0, Duration = 0\<rparr>"

definition RTPDTMFEncode8000 :: "char \<Rightarrow> DTMFEvent list" where
  "RTPDTMFEncode8000 c =
     map (\<lambda>i. \<lparr>Event = eventOf c, EndOfEvent = False, Volume = 10, Duration = 160 * (of_nat i + 1)\<rparr>) [0..<4]
     @ map (\<lambda>i. \<lparr>Event = eventOf c, EndOfEvent = True, Volume = 10, Duration = 160 * 5\<rparr>) [4..<7]"

definition DTMFEncode :: "DTMFEvent \<Rightarrow> bytes" where
  "DTMFEncode d = [Event d, (if EndOfEvent d then 0x80 else 0) OR (Volume d AND 0x3F),
     ucast (drop_bit 8 (Duration d)), ucast (Duration d)]"

definition DTMFDecode :: "bytes \<Rightarrow> DTMFEvent option" where
  "DTMFDecode payload = (if length payload < 4 then None
     else Some \<lparr>Event = payload ! 0, EndOfEvent = (payload ! 1 AND 0x80 \<noteq> 0), Volume = payload ! 1 AND 0x7F,
       Duration = push_bit 8 (ucast (payload ! 2)) OR ucast (payload ! 3)\<rparr>)"

section \<open>The writer\<close>

datatype 'e dtmf_error = DtmfSampleRate | DtmfWrite 'e

fun writeEvents ::
  "(rtp_packet \<Rightarrow> 'w \<Rightarrow> 'e option \<times> 'w) \<Rightarrow> u8 \<Rightarrow> bool \<Rightarrow> DTMFEvent list \<Rightarrow> RTPPacketWriter \<Rightarrow> 'w
    \<Rightarrow> 'e dtmf_error option \<times> RTPPacketWriter \<times> 'w" where
  "writeEvents W pt marker [] p w = (None, p, w)"
| "writeEvents W pt marker (e # es) p w =
    (case WriteSamples W (DTMFEncode e) 0 marker pt p w of
       ((n, Some err), p', w') \<Rightarrow> (Some (DtmfWrite err), p', w')
     | ((n, None), p', w') \<Rightarrow> writeEvents W pt False es p' w')"

definition writeDTMF ::
  "(rtp_packet \<Rightarrow> 'w \<Rightarrow> 'e option \<times> 'w) \<Rightarrow> Codec \<Rightarrow> char \<Rightarrow> RTPPacketWriter \<Rightarrow> 'w \<Rightarrow> 'e dtmf_error option \<times> RTPPacketWriter \<times> 'w" where
  "writeDTMF W codec dtmf p w =
    (if SampleRate codec \<noteq> 8000 then (Some DtmfSampleRate, p, w)
     else writeEvents W (CPayloadType codec) True (RTPDTMFEncode8000 dtmf) p w)"

section \<open>The reader\<close>

record RTPDtmfReader =
  drCodec :: Codec
  lastTimestamp :: u32
  lastEv :: DTMFEvent
  dtmf :: char
  dtmfEnd :: bool

definition NewRTPDTMFReader :: "Codec \<Rightarrow> RTPDtmfReader" where
  "NewRTPDTMFReader codec = \<lparr>drCodec = codec, lastTimestamp = 0, lastEv = zeroDTMF, dtmf = CHR 0x00, dtmfEnd = False\<rparr>"

definition processDTMFEvent :: "DTMFEvent \<Rightarrow> bool \<Rightarrow> RTPDtmfReader \<Rightarrow> RTPDtmfReader" where
  "processDTMFEvent ev mbit w =
    (if EndOfEvent ev then
       (if Duration (lastEv w) = 0 then w
        else if Event (lastEv w) \<noteq> Event ev then w
        else w\<lparr>dtmf := DTMFToRune (Event ev), dtmfEnd := True, lastEv := zeroDTMF\<rparr>)
     else if \<not> mbit then w
     else w\<lparr>lastEv := ev\<rparr>)"

text \<open>
  \<open>Read\<close> after the reader below it has filled \<open>b\<close> without an error; \<open>hdr\<close> is the header of the packet.
  The whole buffer is decoded, not only the bytes that were read.
\<close>

definition dtmfRead :: "rtp_header \<Rightarrow> bytes \<Rightarrow> RTPDtmfReader \<Rightarrow> RTPDtmfReader" where
  "dtmfRead hdr b w =
    (if PayloadType hdr \<noteq> CPayloadType (drCodec w) then w
     else let ev = (case DTMFDecode b of Some ev \<Rightarrow> ev | None \<Rightarrow> zeroDTMF)
          in (processDTMFEvent ev (Marker hdr \<or> lastTimestamp w \<noteq> Timestamp hdr) w)\<lparr>lastTimestamp := Timestamp hdr\<rparr>)"

definition UpdateCodec :: "Codec \<Rightarrow> RTPDtmfReader \<Rightarrow> RTPDtmfReader" where
  "UpdateCodec codec w = w\<lparr>drCodec := codec\<rparr>"

definition ReadDTMF :: "RTPDtmfReader \<Rightarrow> (char \<times> bool) \<times> RTPDtmfReader" where
  "ReadDTMF w = ((dtmf w, dtmfEnd w), w\<lparr>dtmfEnd := False\<rparr>)"

section \<open>Coding an event\<close>

lemma duration_bytes: "push_bit 8 (ucast (ucast (drop_bit 8 d) :: u8)) OR ucast (ucast d :: u8) = (d :: u16)"
  by (rule bit_word_eqI) (auto simp: bit_or_iff bit_push_bit_iff bit_ucast_iff bit_drop_bit_eq exp_eq_zero_iff dest: bit_imp_le_length)

lemma volume_byte:
  fixes v :: u8
  shows "(0x80 OR (v AND 0x3F)) AND 0x7F = v AND 0x3F" "(v AND 0x3F) AND 0x7F = v AND 0x3F"
    "(0x80 OR (v AND 0x3F)) AND 0x80 = 0x80" "(v AND 0x3F) AND 0x80 = 0"
  by (simp_all add: bit.conj_disj_distrib2 and.assoc)

lemma DTMFDecode_Encode: "DTMFDecode (DTMFEncode d @ rest) = Some (d\<lparr>Volume := Volume d AND 0x3F\<rparr>)"
  by (cases "EndOfEvent d") (simp_all only: DTMFDecode_def DTMFEncode_def, simp_all add: duration_bytes volume_byte)

text \<open>
  An event is read back as it was written, whatever follows it in the buffer, exactly when its volume
  has at most six bits: the writer drops a seventh, which the reader would take.
\<close>

theorem dtmf_event_roundtrip: "DTMFDecode (DTMFEncode d @ rest) = Some d \<longleftrightarrow> unat (Volume d) < 64"
proof -
  have "Volume d AND 0x3F = take_bit 6 (Volume d)" by (simp add: take_bit_eq_mask mask_eq_exp_minus_1)
  then have "Volume d AND 0x3F = Volume d \<longleftrightarrow> unat (Volume d) < 64"
    by (simp add: word_unat_eq_iff unsigned_take_bit_eq take_bit_nat_eq_self_iff)
  then show ?thesis by (simp add: DTMFDecode_Encode) (metis DTMFEvent.select_convs(3) DTMFEvent.surjective DTMFEvent.update_convs(3))
qed

section \<open>Digits over a lossy stream\<close>

text \<open>
  The packets of a series of digits that arrive: of the packets of a digit, those with the numbers of
  its set. The digits are written one after the other by one packet writer.
\<close>

fun overTheWire :: "Codec \<Rightarrow> (char \<times> nat set) list \<Rightarrow> RTPPacketWriter \<Rightarrow> rtp_packet list" where
  "overTheWire codec [] p = []"
| "overTheWire codec ((c, arrived) # xs) p = (case writeDTMF recordRTP codec c p [] of
     (e, p', pkts) \<Rightarrow> nths pkts arrived @ overTheWire codec xs p')"

text \<open>The digits a reader reports when it is asked after every packet; \<open>stale\<close> is the rest of the buffer.\<close>

fun hear :: "bytes \<Rightarrow> rtp_packet list \<Rightarrow> RTPDtmfReader \<Rightarrow> char list \<times> RTPDtmfReader" where
  "hear stale [] w = ([], w)"
| "hear stale (pkt # pkts) w =
    (case ReadDTMF (dtmfRead (Header pkt) (Payload pkt @ stale) w) of
       ((c, new), w') \<Rightarrow> (case hear stale pkts w' of (cs, w'') \<Rightarrow> (if new then c # cs else cs, w'')))"

lemma hear_append: "hear stale (xs @ ys) w = (case hear stale xs w of (cs, w') \<Rightarrow> case hear stale ys w' of (ds, w'') \<Rightarrow> (cs @ ds, w''))"
  by (induction stale xs w rule: hear.induct) (auto split: prod.splits)

definition eventPacket :: "u8 \<Rightarrow> u32 \<Rightarrow> bool \<Rightarrow> DTMFEvent \<Rightarrow> rtp_packet \<Rightarrow> bool" where
  "eventPacket pt ts marker ev pkt \<longleftrightarrow> Payload pkt = DTMFEncode ev \<and> PayloadType (Header pkt) = pt \<and> Timestamp (Header pkt) = ts
     \<and> Marker (Header pkt) = marker"

lemma length_DTMFEncode: "length (DTMFEncode d) = 4"
  by (simp add: DTMFEncode_def)

lemma writeEvents_packets:
  "\<exists>p' pkts. writeEvents recordRTP pt marker es p w = (None, p', w @ pkts) \<and> nextTimestamp p' = nextTimestamp p
    \<and> list_all2 (\<lambda>(i, e) pkt. eventPacket pt (nextTimestamp p) (marker \<and> i = 0) e pkt) (zip [0..<length es] es) pkts"
proof (induction es arbitrary: marker p w)
  case (Cons e es)
  obtain q pkt where q: "WriteSamples recordRTP (DTMFEncode e) 0 marker pt p w = ((4, None), q, w @ [pkt])"
      "nextTimestamp q = nextTimestamp p" "eventPacket pt (nextTimestamp p) marker e pkt"
    by (cases "NextSeqNumber (seqWriter p)")
       (auto simp: WriteSamples_def writeSamplesUnsafe_def recordRTP_def eventPacket_def Let_def length_DTMFEncode)
  obtain p' pkts where IH: "writeEvents recordRTP pt False es q (w @ [pkt]) = (None, p', (w @ [pkt]) @ pkts)" "nextTimestamp p' = nextTimestamp q"
      "list_all2 (\<lambda>(i, e) pkt. eventPacket pt (nextTimestamp q) (False \<and> i = 0) e pkt) (zip [0..<length es] es) pkts"
    using Cons.IH [of False q "w @ [pkt]"] by blast
  have "list_all2 (\<lambda>(i, e) pkt. eventPacket pt (nextTimestamp p) (marker \<and> i = 0) e pkt) (zip [1..<Suc (length es)] es) pkts"
    using IH(3) q(2) by (auto simp: list_all2_conv_all_nth simp del: upt_Suc)
  then show ?case
    using q IH by (intro exI [of _ p'] exI [of _ "pkt # pkts"]) (simp add: upt_conv_Cons del: upt_Suc)
qed simp

definition digits :: "char set" where
  "digits = fst ` set dtmfEventMapping"

lemma digits_roundtrip: "c \<in> digits \<Longrightarrow> DTMFToRune (eventOf c) = c"
proof -
  have "\<forall>c \<in> fst ` set dtmfEventMapping. DTMFToRune (eventOf c) = c" by code_simp
  then show "c \<in> digits \<Longrightarrow> DTMFToRune (eventOf c) = c" by (auto simp: digits_def)
qed

lemma writeDTMF_packets:
  assumes "SampleRate codec = 8000"
  obtains p' first mids ends where "writeDTMF recordRTP codec c p [] = (None, p', first # mids @ ends)"
    "length mids = 3" "length ends = 3" "nextTimestamp p' = nextTimestamp p"
    "\<exists>ev. Event ev = eventOf c \<and> \<not> EndOfEvent ev \<and> Duration ev \<noteq> 0 \<and> Volume ev = 10 \<and> eventPacket (CPayloadType codec) (nextTimestamp p) True ev first"
    "\<forall>pkt \<in> set mids. \<exists>ev. \<not> EndOfEvent ev \<and> eventPacket (CPayloadType codec) (nextTimestamp p) False ev pkt"
    "\<forall>pkt \<in> set ends. \<exists>ev. Event ev = eventOf c \<and> EndOfEvent ev \<and> eventPacket (CPayloadType codec) (nextTimestamp p) False ev pkt"
proof -
  let ?P = "eventPacket (CPayloadType codec) (nextTimestamp p)" and ?es = "RTPDTMFEncode8000 c"
  obtain p' pkts where w: "writeEvents recordRTP (CPayloadType codec) True ?es p [] = (None, p', pkts)" "nextTimestamp p' = nextTimestamp p"
      "list_all2 (\<lambda>(i, e) pkt. ?P (True \<and> i = 0) e pkt) (zip [0..<length ?es] ?es) pkts"
    using writeEvents_packets [of "CPayloadType codec" True ?es p "[]"] by auto
  define d where "d i = \<lparr>Event = eventOf c, EndOfEvent = False, Volume = 10, Duration = 160 * (of_nat i + 1)\<rparr>" for i
  define e where "e = \<lparr>Event = eventOf c, EndOfEvent = True, Volume = 10, Duration = 160 * 5\<rparr>"
  have es: "?es = [d 0, d 1, d 2, d 3, e, e, e]" by (simp add: RTPDTMFEncode8000_def d_def e_def upt_rec)
  have "zip [0..<length ?es] ?es = [(0, d 0), (1, d 1), (2, d 2), (3, d 3), (4, e), (5, e), (6, e)]" unfolding es by (simp add: upt_rec)
  with w(3) obtain k0 k1 k2 k3 k4 k5 k6 where k: "pkts = [k0, k1, k2, k3, k4, k5, k6]" "?P True (d 0) k0" "?P False (d 1) k1" "?P False (d 2) k2"
      "?P False (d 3) k3" "?P False e k4" "?P False e k5" "?P False e k6"
    by (auto simp: list_all2_Cons1)
  show ?thesis
  proof (rule that [of p' k0 "[k1, k2, k3]" "[k4, k5, k6]"])
    show "writeDTMF recordRTP codec c p [] = (None, p', k0 # [k1, k2, k3] @ [k4, k5, k6])" using w(1) k(1) assms by (simp add: writeDTMF_def)
    show "\<exists>ev. Event ev = eventOf c \<and> \<not> EndOfEvent ev \<and> Duration ev \<noteq> 0 \<and> Volume ev = 10 \<and> ?P True ev k0"
      using k(2) by (intro exI [of _ "d 0"]) (simp add: d_def)
    show "\<forall>pkt \<in> set [k1, k2, k3]. \<exists>ev. \<not> EndOfEvent ev \<and> ?P False ev pkt"
    proof -
      have "\<not> EndOfEvent (d i)" for i by (simp add: d_def)
      then show ?thesis using k(3-5) by (simp del: One_nat_def) blast
    qed
    show "\<forall>pkt \<in> set [k4, k5, k6]. \<exists>ev. Event ev = eventOf c \<and> EndOfEvent ev \<and> ?P False ev pkt"
      using k(6-8) by (intro ballI exI [of _ e]) (auto simp: e_def)
  qed (simp_all add: w(2))
qed

text \<open>Reading the packets of one digit, part by part.\<close>

lemma dtmfRead_event:
  assumes "eventPacket (CPayloadType (drCodec w)) ts marker ev pkt"
  shows "dtmfRead (Header pkt) (Payload pkt @ stale) w
    = (processDTMFEvent (ev\<lparr>Volume := Volume ev AND 0x3F\<rparr>) (marker \<or> lastTimestamp w \<noteq> ts) w)\<lparr>lastTimestamp := ts\<rparr>"
  using assms by (simp add: dtmfRead_def eventPacket_def DTMFDecode_Encode Let_def)

lemma ReadDTMF_none: "\<not> dtmfEnd w \<Longrightarrow> ReadDTMF w = ((dtmf w, False), w)"
  by (cases w) (simp add: ReadDTMF_def)

lemma hear_quiet:
  assumes "\<And>pkt. pkt \<in> set pkts \<Longrightarrow> \<exists>ev. eventPacket (CPayloadType (drCodec w)) (lastTimestamp w) False ev pkt
      \<and> (EndOfEvent ev \<longrightarrow> Duration (lastEv w) = 0)"
    and "\<not> dtmfEnd w"
  shows "hear stale pkts w = ([], w)"
  using assms
proof (induction pkts)
  case (Cons pkt pkts)
  obtain ev where ev: "eventPacket (CPayloadType (drCodec w)) (lastTimestamp w) False ev pkt" "EndOfEvent ev \<longrightarrow> Duration (lastEv w) = 0"
    using Cons.prems(1) [of pkt] by auto
  have "dtmfRead (Header pkt) (Payload pkt @ stale) w = w"
    unfolding dtmfRead_event [OF ev(1)] using ev(2) by (simp add: processDTMFEvent_def)
  moreover have "hear stale pkts w = ([], w)" using Cons by simp
  ultimately show ?case using Cons.prems(2) by (simp add: ReadDTMF_none)
qed simp

lemma hear_digit:
  assumes "SampleRate (drCodec w) = 8000" "c \<in> digits" "0 \<in> arrived" "arrived \<inter> {4, 5, 6} \<noteq> {}" "\<not> dtmfEnd w"
  obtains p' pkts w' where "writeDTMF recordRTP (drCodec w) c p [] = (None, p', pkts)" "hear stale (nths pkts arrived) w = ([c], w')"
    "\<not> dtmfEnd w'" "drCodec w' = drCodec w"
proof -
  let ?P = "eventPacket (CPayloadType (drCodec w)) (nextTimestamp p)"
  obtain p' first mids ends where k:
    "writeDTMF recordRTP (drCodec w) c p [] = (None, p', first # mids @ ends)" "length mids = 3" "length ends = 3"
    "\<exists>ev. Event ev = eventOf c \<and> \<not> EndOfEvent ev \<and> Duration ev \<noteq> 0 \<and> Volume ev = 10 \<and> ?P True ev first"
    "\<forall>pkt \<in> set mids. \<exists>ev. \<not> EndOfEvent ev \<and> ?P False ev pkt"
    "\<forall>pkt \<in> set ends. \<exists>ev. Event ev = eventOf c \<and> EndOfEvent ev \<and> ?P False ev pkt"
    by (rule writeDTMF_packets [OF assms(1), of c p]) blast
  define ms es where "ms = nths mids {j. Suc j \<in> arrived}" and "es = nths ends {j. Suc (j + 3) \<in> arrived}"
  have split: "nths (first # mids @ ends) arrived = first # ms @ es"
    using assms(3) k(2) by (simp add: nths_Cons nths_append ms_def es_def)
  obtain i where "i \<in> arrived" "i \<in> {4, 5, 6}" using assms(4) by blast
  then have "\<exists>j < length ends. Suc (j + 3) \<in> arrived" using k(3) by (intro exI [of _ "i - 4"]) auto
  then have "set es \<noteq> {}" by (auto simp: es_def set_nths)
  then obtain e0 es' where es: "es = e0 # es'" by (cases es) auto
  have sub: "set ms \<subseteq> set mids" "set es \<subseteq> set ends" by (simp_all add: ms_def es_def set_nths_subset)
  obtain ev where ev: "Event ev = eventOf c" "\<not> EndOfEvent ev" "Duration ev \<noteq> 0" "?P True ev first" using k(4) by blast
  define w1 where "w1 = w\<lparr>lastEv := ev\<lparr>Volume := Volume ev AND 0x3F\<rparr>, lastTimestamp := nextTimestamp p\<rparr>"
  have 1: "dtmfRead (Header first) (Payload first @ stale) w = w1"
    unfolding dtmfRead_event [OF ev(4)] using ev(2) by (simp add: processDTMFEvent_def w1_def)
  have 2: "hear stale ms w1 = ([], w1)"
    using k(5) sub(1) assms(5) by (intro hear_quiet) (fastforce simp: w1_def)+
  obtain ev' where ev': "Event ev' = eventOf c" "EndOfEvent ev'" "?P False ev' e0" using k(6) sub(2) es by auto
  define w3 where "w3 = w1\<lparr>dtmf := c, lastEv := zeroDTMF\<rparr>"
  have "eventPacket (CPayloadType (drCodec w1)) (nextTimestamp p) False ev' e0" using ev'(3) by (simp add: w1_def)
  then have 3: "dtmfRead (Header e0) (Payload e0 @ stale) w1 = w3\<lparr>dtmfEnd := True\<rparr>"
    using ev ev' digits_roundtrip [OF assms(2)] by (simp add: dtmfRead_event processDTMFEvent_def w1_def w3_def)
  have 4: "hear stale es' w3 = ([], w3)"
    using k(6) sub(2) es assms(5) by (intro hear_quiet) (fastforce simp: w1_def w3_def zeroDTMF_def)+
  have n: "\<not> dtmfEnd w1" "\<not> dtmfEnd w3" "ReadDTMF (w3\<lparr>dtmfEnd := True\<rparr>) = ((c, True), w3)"
    using assms(5) by (cases w, simp_all add: ReadDTMF_def w1_def w3_def)
  have "hear stale (first # ms @ es) w = ([c], w3)"
    using 1 2 3 4 n by (simp add: es hear_append ReadDTMF_none)
  then show ?thesis using that [OF k(1)] split assms(5) by (simp add: w1_def w3_def)
qed

text \<open>
  C13. Digits survive loss: every series of digits is heard, each digit once and in order, as long as of the
  seven packets of each digit the first and one of the three last arrive.
\<close>

theorem dtmf_heard:
  assumes "SampleRate codec = 8000"
    and "\<forall>(c, arrived) \<in> set xs. c \<in> digits \<and> 0 \<in> arrived \<and> arrived \<inter> {4, 5, 6} \<noteq> {}"
  shows "fst (hear stale (overTheWire codec xs p) (NewRTPDTMFReader codec)) = map fst xs"
proof -
  have "fst (hear stale (overTheWire codec xs p) w) = map fst xs" if "drCodec w = codec" "\<not> dtmfEnd w" for w
    using assms(2) that
  proof (induction xs arbitrary: p w)
    case (Cons x xs)
    obtain c arrived where x: "x = (c, arrived)" by fastforce
    obtain p' pkts w' where h: "writeDTMF recordRTP codec c p [] = (None, p', pkts)"
        "hear stale (nths pkts arrived) w = ([c], w')" "\<not> dtmfEnd w'" "drCodec w' = codec"
      by (rule hear_digit [of w c arrived p stale]) (use Cons.prems x assms(1) in auto)
    have "fst (hear stale (overTheWire codec xs p') w') = map fst xs" using Cons.IH [of w' p'] Cons.prems h by simp
    then show ?case using h(1,2) x by (cases "hear stale (overTheWire codec xs p') w'") (simp add: hear_append)
  qed simp
  then show ?thesis by (simp add: NewRTPDTMFReader_def)
qed

theorem dtmf_heard_witness:
  "fst (hear [] (overTheWire CodecTelephoneEvent8000 [(CHR ''5'', {0, 2, 6}), (CHR ''5'', {0, 1, 4, 5, 6}), (CHR ''#'', {0, 5})]
     (NewRTPPacketWriter 7 9 CodecAudioUlaw)) (NewRTPDTMFReader CodecTelephoneEvent8000)) = ''55#''"
proof -
  let ?xs = "[(CHR ''5'', {0, 2, 6}), (CHR ''5'', {0, 1, 4, 5, 6}), (CHR ''#'', {0, 5})] :: (char \<times> nat set) list"
  have "CHR ''5'' \<in> digits" "CHR ''#'' \<in> digits" by (simp_all add: digits_def dtmfEventMapping_def)
  then have "\<forall>(c, arrived) \<in> set ?xs. c \<in> digits \<and> 0 \<in> arrived \<and> arrived \<inter> {4, 5, 6} \<noteq> {}" by simp
  moreover have "SampleRate CodecTelephoneEvent8000 = 8000" by (simp add: CodecTelephoneEvent8000_def)
  ultimately show ?thesis using dtmf_heard [of CodecTelephoneEvent8000 ?xs "[]" "NewRTPPacketWriter 7 9 CodecAudioUlaw"] by simp
qed

end
