(* ===== verification/Media_Transport.thy ===== *)
theory Media_Transport
  imports Media_IO
begin

unbundle bit_operations_syntax

text \<open>
  The transports under a media session: \<open>media/ice_mux.go\<close>, which fans one ICE connection out into
  DTLS, RTP and RTCP, and the key-exchange connection of \<open>media/dtls.go\<close>, which lends the socket to
  the DTLS stack. The packet buffer and the socket are libraries: whether they take a packet is a
  parameter.
\<close>

section \<open>Telling packets apart\<close>

definition IsRTCP :: "bytes \<Rightarrow> bool" where
  "IsRTCP buf \<longleftrightarrow> \<not> length buf < 2 \<and> (let pt = buf ! 1 AND 0x7f in 64 \<le> pt \<and> pt \<le> 95)"

definition isDTLS :: "bytes \<Rightarrow> bool" where
  "isDTLS buf \<longleftrightarrow> \<not> length buf < 1 \<and> 20 \<le> buf ! 0 \<and> buf ! 0 \<le> 63"

datatype mux_stream = MuxDTLS | MuxRTP | MuxRTCP

definition muxClass :: "bytes \<Rightarrow> mux_stream" where
  "muxClass pkt = (if isDTLS pkt then MuxDTLS else if IsRTCP pkt then MuxRTCP else MuxRTP)"

section \<open>The multiplexer\<close>

text \<open>\<open>muxQueue k\<close> is the buffer of a stream, oldest packet first.\<close>

record iceMux =
  muxRaddr :: Addr
  muxQueue :: "mux_stream \<Rightarrow> bytes list"
  muxClosed :: bool
  muxConnClosed :: bool

definition newICEMux :: "Addr \<Rightarrow> iceMux" where
  "newICEMux raddr = \<lparr>muxRaddr = raddr, muxQueue = (\<lambda>k. []), muxClosed = False, muxConnClosed = False\<rparr>"

definition closeBuffers :: "iceMux \<Rightarrow> iceMux" where
  "closeBuffers m = m\<lparr>muxClosed := True\<rparr>"

text \<open>The library's buffer takes a packet, or refuses it when it is full or closed.\<close>

definition bufferWrite :: "(bytes list \<Rightarrow> bytes \<Rightarrow> bool) \<Rightarrow> bytes \<Rightarrow> bytes list \<Rightarrow> bytes list" where
  "bufferWrite room pkt q = (if room q pkt then q @ [pkt] else q)"

text \<open>What the ICE connection gives to the read loop; the loop that uses all of it is still reading.\<close>

fun muxReadLoop :: "(bytes list \<Rightarrow> bytes \<Rightarrow> bool) \<Rightarrow> (go_error + bytes) list \<Rightarrow> iceMux \<Rightarrow> iceMux" where
  "muxReadLoop room [] m = m"
| "muxReadLoop room (Inl e # evs) m = closeBuffers m"
| "muxReadLoop room (Inr pkt # evs) m =
    (if pkt = [] then muxReadLoop room evs m
     else let k = muxClass pkt; q = muxQueue m in
       muxReadLoop room evs (if muxClosed m then m else m\<lparr>muxQueue := q(k := bufferWrite room pkt (q k))\<rparr>))"

text \<open>\<open>closeOnce\<close>: the second call does nothing. The error of the connection is the argument.\<close>

definition muxClose :: "go_error option \<Rightarrow> iceMux \<Rightarrow> go_error option \<times> iceMux" where
  "muxClose e m = (if muxConnClosed m then (None, m) else (e, closeBuffers (m\<lparr>muxConnClosed := True\<rparr>)))"

text \<open>A read of a stream: \<open>IoWait\<close> when its buffer is empty and open. The library drains a closed buffer first.\<close>

definition muxReadFrom :: "mux_stream \<Rightarrow> iceMux \<Rightarrow> (bytes \<times> Addr) io_result \<times> iceMux" where
  "muxReadFrom k m = (case muxQueue m k of
     [] \<Rightarrow> (if muxClosed m then IoFail 0 (IoErr EOF) else IoWait, m)
   | pkt # q \<Rightarrow> (IoOk (length pkt) (pkt, muxRaddr m), m\<lparr>muxQueue := (muxQueue m)(k := q)\<rparr>))"

section \<open>The streams are independent\<close>

fun packetsUntilError :: "(go_error + bytes) list \<Rightarrow> bytes list" where
  "packetsUntilError [] = []"
| "packetsUntilError (Inl e # evs) = []"
| "packetsUntilError (Inr pkt # evs) = (if pkt = [] then packetsUntilError evs else pkt # packetsUntilError evs)"

lemma masked_class:
  fixes b :: u8
  shows "64 \<le> b AND 0x7f \<and> b AND 0x7f \<le> 95 \<longleftrightarrow> 64 \<le> b \<and> b \<le> 95 \<or> 192 \<le> b \<and> b \<le> 223"
proof -
  have "b AND 0x7f = take_bit 7 b" by (simp add: take_bit_eq_mask mask_eq_exp_minus_1)
  then have m: "unat (b AND 0x7f) = take_bit 7 (unat b)" by (simp only: unsigned_take_bit_eq)
  have b: "unat b < 256" using unsigned_less [of b] by simp
  have "64 \<le> n mod 128 \<and> n mod 128 \<le> 95 \<longleftrightarrow> 64 \<le> n \<and> n \<le> 95 \<or> 192 \<le> n \<and> n \<le> 223" if "n < 256" for n :: nat
    using that by (cases "n < 128") (auto simp: le_mod_geq)
  then show ?thesis using b unfolding word_le_nat_alt m by (simp add: take_bit_eq_mod)
qed

text \<open>
  C19. One ICE connection serves three streams that do not disturb each other: what the multiplexer files
  under a stream is what its buffer would hold had only the packets of that stream arrived, in their
  order, so a full buffer of one loses nothing of another. Packets with the version bits of RTP are
  never taken for DTLS, and go to RTCP exactly when their payload type without the marker bit is
  one of those RFC 5761 reserves for it.
\<close>

theorem mux_independent:
  assumes "\<not> muxClosed m"
  shows "muxQueue (muxReadLoop room evs m) k
      = fold (bufferWrite room) (filter (\<lambda>pkt. muxClass pkt = k) (packetsUntilError evs)) (muxQueue m k)
    \<and> (128 \<le> b0 \<and> b0 \<le> 191 \<longrightarrow>
        muxClass (b0 # b1 # rest) = (if 64 \<le> b1 \<and> b1 \<le> 95 \<or> 192 \<le> b1 \<and> b1 \<le> 223 then MuxRTCP else MuxRTP))"
proof -
  have "muxQueue (muxReadLoop room evs m) k = fold (bufferWrite room) (filter (\<lambda>pkt. muxClass pkt = k) (packetsUntilError evs)) (muxQueue m k)"
    using assms by (induction room evs m rule: muxReadLoop.induct) (auto simp: closeBuffers_def Let_def)
  moreover have "\<not> isDTLS (b0 # b1 # rest)" if "128 \<le> b0" using that by (auto simp: isDTLS_def word_le_nat_alt)
  ultimately show ?thesis using masked_class [of b1] by (simp add: muxClass_def IsRTCP_def Let_def)
qed

theorem mux_independent_witness:
  "muxQueue (muxReadLoop (\<lambda>q p. length q < 1) [Inr [22, 0], Inr [128, 0, 1], Inr [128, 0, 2], Inr [128, 200], Inl EOF, Inr [20]] (newICEMux (OtherAddr []))) MuxRTCP
    = [[128, 200]]"
  using mux_independent [of "newICEMux (OtherAddr [])" "\<lambda>q p. length q < 1"
      "[Inr [22, 0], Inr [128, 0, 1], Inr [128, 0, 2], Inr [128, 200], Inl EOF, Inr [20]]" MuxRTCP]
  by (simp add: newICEMux_def muxClass_def isDTLS_def IsRTCP_def bufferWrite_def Let_def)

section \<open>The key-exchange connection\<close>

record dtlsKeyExchangeConn =
  detached :: bool
  hello :: "bytes option"
  helloAddr :: Addr
  heard :: bool

definition newDTLSKeyExchangeConn :: dtlsKeyExchangeConn where
  "newDTLSKeyExchangeConn = \<lparr>detached = False, hello = None, helloAddr = OtherAddr [], heard = False\<rparr>"

definition byteAt :: "bytes \<Rightarrow> nat \<Rightarrow> int" where
  "byteAt p i = uint (p ! i)"

definition isClientHelloDatagram :: "bytes \<Rightarrow> bool" where
  "isClientHelloDatagram p =
    (if length p < 13 + 12 \<or> byteAt p 0 \<noteq> 22 \<or> byteAt p 3 \<noteq> 0 \<or> byteAt p 4 \<noteq> 0 then False
     else let recordLen = 256 * byteAt p 11 + byteAt p 12 in
       if 13 + recordLen \<noteq> int (length p) then False
       else let h = drop 13 p in
         if byteAt h 0 \<noteq> 1 then False
         else let msgLen = 65536 * byteAt h 1 + 256 * byteAt h 2 + byteAt h 3;
                  fragOffset = 65536 * byteAt h 6 + 256 * byteAt h 7 + byteAt h 8;
                  fragLen = 65536 * byteAt h 9 + 256 * byteAt h 10 + byteAt h 11
              in fragOffset = 0 \<and> fragLen = msgLen \<and> 12 + msgLen = recordLen)"

definition detach :: "dtlsKeyExchangeConn \<Rightarrow> dtlsKeyExchangeConn" where
  "detach c = c\<lparr>detached := True\<rparr>"

text \<open>The result of the socket's read and write are arguments; a write returns what reaches the socket.\<close>

definition kxReadFrom :: "go_error + bytes \<times> Addr \<Rightarrow> dtlsKeyExchangeConn \<Rightarrow> (go_error + bytes \<times> Addr) \<times> dtlsKeyExchangeConn" where
  "kxReadFrom sock c =
    (if detached c then (Inl EOF, c)
     else (sock, case sock of
         Inr (p, a) \<Rightarrow> if p \<noteq> [] \<and> 20 \<le> p ! 0 \<and> p ! 0 \<le> 63 then c\<lparr>heard := True, hello := None\<rparr> else c
       | Inl e \<Rightarrow> c))"

definition kxWriteTo ::
  "go_error option \<Rightarrow> bytes \<Rightarrow> Addr \<Rightarrow> dtlsKeyExchangeConn \<Rightarrow> (nat \<times> go_error option) \<times> (bytes \<times> Addr) list \<times> dtlsKeyExchangeConn" where
  "kxWriteTo sock p addr c =
    (if detached c then ((length p, None), [], c)
     else ((if sock = None then length p else 0, sock), [(p, addr)],
       if sock = None \<and> isClientHelloDatagram p \<and> \<not> heard c then c\<lparr>hello := Some p, helloAddr := addr\<rparr> else c))"

definition resendHello :: "dtlsKeyExchangeConn \<Rightarrow> (bytes \<times> Addr) list" where
  "resendHello c = (case hello c of Some p \<Rightarrow> if heard c \<or> detached c then [] else [(p, helloAddr c)] | None \<Rightarrow> [])"

section \<open>Runs of the key exchange\<close>

text \<open>
  The calls of the DTLS stack and of \<open>awaitFinalizeRun\<close>, in any order: the label carries what reaches
  the socket.
\<close>

datatype kx_label = KxRead "go_error + bytes \<times> Addr" | KxWrite "go_error option" bytes Addr "(bytes \<times> Addr) list"
  | KxResend "(bytes \<times> Addr) list" | KxDetach

inductive kx_step :: "dtlsKeyExchangeConn \<Rightarrow> kx_label \<Rightarrow> dtlsKeyExchangeConn \<Rightarrow> bool" where
  kx_read: "kx_step c (KxRead (fst (kxReadFrom sock c))) (snd (kxReadFrom sock c))"
| kx_write: "kxWriteTo sock p addr c = (r, out, c') \<Longrightarrow> kx_step c (KxWrite sock p addr out) c'"
| kx_resend: "kx_step c (KxResend (resendHello c)) c"
| kx_detach: "kx_step c KxDetach (detach c)"

text \<open>What a call puts on the wire.\<close>

fun kxOut :: "kx_label \<Rightarrow> (bytes \<times> Addr) list" where
  "kxOut (KxWrite sock p addr out) = out"
| "kxOut (KxResend out) = out"
| "kxOut _ = []"

fun kxDTLSRecord :: "kx_label \<Rightarrow> bool" where
  "kxDTLSRecord (KxRead (Inr (p, a))) = (p \<noteq> [] \<and> 20 \<le> p ! 0 \<and> p ! 0 \<le> 63)"
| "kxDTLSRecord _ = False"

text \<open>The state a run leaves, in terms of its labels.\<close>

definition kxInv :: "kx_label list \<Rightarrow> dtlsKeyExchangeConn \<Rightarrow> bool" where
  "kxInv ls c \<longleftrightarrow> (KxDetach \<in> set ls \<longrightarrow> detached c) \<and> ((\<exists>l \<in> set ls. kxDTLSRecord l) \<longrightarrow> heard c)
     \<and> (heard c \<longrightarrow> hello c = None)
     \<and> (\<forall>p. hello c = Some p \<longrightarrow> isClientHelloDatagram p \<and> KxWrite None p (helloAddr c) [(p, helloAddr c)] \<in> set ls)"

lemma kxInv_step:
  assumes "kxInv ls c" "kx_step c l c'"
  shows "kxInv (ls @ [l]) c'"
  using assms(2)
proof cases
  case (kx_read sock)
  show ?thesis
  proof (cases "detached c")
    case True
    then show ?thesis using assms(1) kx_read by (auto simp: kxInv_def kxReadFrom_def)
  next
    case False
    then show ?thesis using assms(1) kx_read
      by (cases sock) (auto simp: kxInv_def kxReadFrom_def split: if_splits)
  qed
next
  case (kx_write sock p addr r out)
  then show ?thesis using assms(1) by (auto simp: kxInv_def kxWriteTo_def split: if_splits)
next
  case kx_resend
  then show ?thesis using assms(1) by (auto simp: kxInv_def)
next
  case kx_detach
  then show ?thesis using assms(1) by (auto simp: kxInv_def detach_def)
qed

lemma kxInv_exec:
  assumes "exec kx_step c ms c'" "kxInv ls c"
  shows "kxInv (ls @ ms) c'"
  using assms
proof (induction arbitrary: ls rule: exec.induct)
  case (exec_cons s l t ms u)
  then show ?case using exec_cons.IH [OF kxInv_step] by fastforce
qed simp


text \<open>A ClientHello of two bytes, sent and sent again.\<close>

definition exHello :: bytes where
  "exHello = [22, 254, 253, 0, 0, 0, 0, 0, 0, 0, 0, 0, 14, 1, 0, 0, 2, 0, 0, 0, 0, 0, 0, 0, 2, 7, 8]"


end
