(* ===== verification/Media_Streams.thy ===== *)
theory Media_Streams
  imports Packet_IO
begin

text \<open>
  Streams of frames: the reader that keeps a consumer in real time, \<open>media/rtp_realtime_reader.go\<close>, and
  the copying loops of \<open>media/rtp_utils.go\<close>. What the reader below gives is a list of results; a loop that
  uses all of it is still reading.
\<close>

section \<open>The real-time reader\<close>

definition realTimeMinAllowance :: duration where
  "realTimeMinAllowance = 40 * millisecond"

record RTPRealTimeReader =
  rtCodec :: Codec
  anchored :: bool
  anchorTime :: instant
  anchorTS :: u32
  anchorSSRC :: u32

text \<open>\<open>Init\<close> panics on a codec without a frame duration.\<close>

definition NewRTPRealTimeReader :: "Codec \<Rightarrow> RTPRealTimeReader option" where
  "NewRTPRealTimeReader codec = (if SampleDur codec = 0 then None
     else Some \<lparr>rtCodec = codec, anchored = False, anchorTime = 0, anchorTS = 0, anchorSSRC = 0\<rparr>)"

definition rtReset :: "RTPRealTimeReader \<Rightarrow> RTPRealTimeReader" where
  "rtReset r = r\<lparr>anchored := False\<rparr>"

definition anchor :: "instant \<Rightarrow> u32 \<Rightarrow> u32 \<Rightarrow> RTPRealTimeReader \<Rightarrow> RTPRealTimeReader" where
  "anchor now ts ssrc r = r\<lparr>anchored := True, anchorTime := now, anchorTS := ts, anchorSSRC := ssrc\<rparr>"

definition sinceAnchor :: "u32 \<Rightarrow> RTPRealTimeReader \<Rightarrow> duration" where
  "sinceAnchor ts r =
    (let samples = sint (ts - anchorTS r); rate = uint (SampleRate (rtCodec r)) in goDiv (samples * second) rate)"

definition allowance :: "RTPRealTimeReader \<Rightarrow> duration" where
  "allowance r = max (2 * SampleDur (rtCodec r)) realTimeMinAllowance"

text \<open>One pass over a frame read from \<open>start\<close> to \<open>now\<close>: whether it is delivered.\<close>

definition judge :: "instant \<Rightarrow> instant \<Rightarrow> rtp_header \<Rightarrow> RTPRealTimeReader \<Rightarrow> bool \<times> RTPRealTimeReader" where
  "judge start now hdr r =
    (if \<not> anchored r \<or> SSRC hdr \<noteq> anchorSSRC r then (True, anchor now (Timestamp hdr) (SSRC hdr) r)
     else let late = (now - anchorTime r) - sinceAnchor (Timestamp hdr) r in
       if late \<le> 0 then (True, anchor now (Timestamp hdr) (SSRC hdr) r)
       else if late \<le> allowance r then (True, r)
       else if goDiv (SampleDur (rtCodec r)) 2 \<le> now - start then (True, anchor now (Timestamp hdr) (SSRC hdr) r)
       else (False, r))"

type_synonym frame_read = "instant \<times> instant \<times> (go_error + nat \<times> rtp_header)"

fun rtRead :: "frame_read list \<Rightarrow> RTPRealTimeReader \<Rightarrow> rtp_header io_result \<times> frame_read list \<times> RTPRealTimeReader" where
  "rtRead [] r = (IoWait, [], r)"
| "rtRead ((start, now, Inl e) # evs) r = (IoFail 0 (IoErr e), evs, r)"
| "rtRead ((start, now, Inr (n, hdr)) # evs) r =
    (case judge start now hdr r of (True, r') \<Rightarrow> (IoOk n hdr, evs, r') | (False, r') \<Rightarrow> rtRead evs r')"

section \<open>Copying\<close>

text \<open>\<open>ReadAll\<close> ends with the error EOF of its reader.\<close>

fun ReadAll :: "(go_error + bytes) list \<Rightarrow> bytes \<Rightarrow> (go_error + bytes) option" where
  "ReadAll [] acc = None"
| "ReadAll (Inl e # evs) acc = Some (if e = EOF then Inr acc else Inl e)"
| "ReadAll (Inr b # evs) acc = ReadAll evs (acc @ b)"

text \<open>A sample size of 0 never advances; it is the case without a result.\<close>

function WriteAll :: "(bytes \<Rightarrow> 'w \<Rightarrow> (go_error + nat) \<times> 'w) \<Rightarrow> bytes \<Rightarrow> nat \<Rightarrow> int \<Rightarrow> 'w \<Rightarrow> ((go_error + int) \<times> 'w) option" where
  "WriteAll W dat sampleSize acc w =
    (if dat = [] then Some (Inr acc, w)
     else if sampleSize = 0 then None
     else case W (take sampleSize dat) w of
         (Inl e, w') \<Rightarrow> Some (Inl e, w')
       | (Inr n, w') \<Rightarrow> WriteAll W (drop sampleSize dat) sampleSize (acc + int n) w')"
  by pat_completeness auto
termination by (relation "measure (\<lambda>(W, dat, k, acc, w). length dat)") auto

declare WriteAll.simps [simp del]

datatype copy_error = CopyErr go_error | CopyShortWrite

text \<open>The test for a short write is \<open>n < nn\<close>, as in the source.\<close>

fun CopyWithBuf ::
  "(bytes \<Rightarrow> 'w \<Rightarrow> (go_error + nat) \<times> 'w) \<Rightarrow> (go_error + bytes) list \<Rightarrow> int \<Rightarrow> 'w \<Rightarrow> (int \<times> copy_error option) \<times> 'w" where
  "CopyWithBuf W [] acc w = ((acc, None), w)"
| "CopyWithBuf W (Inl e # evs) acc w = ((acc, Some (CopyErr e)), w)"
| "CopyWithBuf W (Inr b # evs) acc w = (case W b w of
     (Inl e, w') \<Rightarrow> ((acc, Some (CopyErr e)), w')
   | (Inr nn, w') \<Rightarrow>
       if length b < nn then ((acc + int nn, Some CopyShortWrite), w')
       else CopyWithBuf W evs (acc + int nn) w')"

section \<open>How far behind a consumer can fall\<close>

text \<open>
  Frames of one source that are all waiting to be read: the time of the read and the position of the
  frame in its stream, in samples. The reads of a consumer deliver a part of them.
\<close>

definition waitingFrame :: "u32 \<Rightarrow> instant \<times> int \<Rightarrow> frame_read" where
  "waitingFrame ssrc f = (fst f, fst f, Inr (1, zeroHeader\<lparr>SSRC := ssrc, Timestamp := of_int (snd f)\<rparr>))"

fun deliveredFrames :: "u32 \<Rightarrow> (instant \<times> int) list \<Rightarrow> RTPRealTimeReader \<Rightarrow> (instant \<times> int) list" where
  "deliveredFrames ssrc [] r = []"
| "deliveredFrames ssrc (f # fs) r =
    (case judge (fst f) (fst f) (zeroHeader\<lparr>SSRC := ssrc, Timestamp := of_int (snd f)\<rparr>) r of
       (True, r') \<Rightarrow> f # deliveredFrames ssrc fs r' | (False, r') \<Rightarrow> deliveredFrames ssrc fs r')"

text \<open>\<open>deliveredFrames\<close> is what repeated reads return.\<close>

lemma rtRead_deliveredFrames:
  "case rtRead (map (waitingFrame ssrc) fs) r of
     (IoOk n hdr, rest, r') \<Rightarrow> \<exists>f gs. rest = map (waitingFrame ssrc) gs \<and> hdr = zeroHeader\<lparr>SSRC := ssrc, Timestamp := of_int (snd f)\<rparr>
       \<and> deliveredFrames ssrc fs r = f # deliveredFrames ssrc gs r'
   | (_, rest, r') \<Rightarrow> deliveredFrames ssrc fs r = []"
proof (induction fs arbitrary: r)
  case (Cons f fs)
  let ?h = "zeroHeader\<lparr>SSRC := ssrc, Timestamp := of_int (snd f)\<rparr>"
  obtain ok r' where j: "judge (fst f) (fst f) ?h r = (ok, r')" by fastforce
  have w: "map (waitingFrame ssrc) (f # fs) = (fst f, fst f, Inr (1, ?h)) # map (waitingFrame ssrc) fs" by (simp add: waitingFrame_def)
  show ?case
  proof (cases ok)
    case True
    then have "rtRead (map (waitingFrame ssrc) (f # fs)) r = (IoOk 1 ?h, map (waitingFrame ssrc) fs, r')"
      "deliveredFrames ssrc (f # fs) r = f # deliveredFrames ssrc fs r'" using j unfolding w by simp_all
    then show ?thesis by (simp only: prod.case io_result.case) blast
  next
    case False
    then have "rtRead (map (waitingFrame ssrc) (f # fs)) r = rtRead (map (waitingFrame ssrc) fs) r'"
      "deliveredFrames ssrc (f # fs) r = deliveredFrames ssrc fs r'" using j unfolding w by simp_all
    then show ?thesis using Cons.IH [of r'] by (simp only:)
  qed
qed simp

text \<open>How late a frame is against the start of the stream.\<close>

definition lag :: "int \<Rightarrow> instant \<times> int \<Rightarrow> duration" where
  "lag tick f = fst f - snd f * tick"

text \<open>
  The distance of two positions within \<open>2 ^ 31\<close> samples, exact for rates that divide a second.
\<close>

lemma sinceAnchor_exact:
  assumes "uint (SampleRate (rtCodec r)) * tick = second" "0 < tick" "anchorTS r = of_int p" "\<bar>q - p\<bar> < 2 ^ 31"
  shows "sinceAnchor (of_int q) r = (q - p) * tick"
proof -
  have "(of_int q - anchorTS r :: u32) = of_int (q - p)" by (simp add: assms(3))
  moreover have "sint (of_int (q - p) :: u32) = q - p"
    using assms(4) by (simp add: signed_of_int signed_take_bit_int_eq_self del: of_int_diff)
  ultimately have s: "sint (of_int q - anchorTS r :: u32) = q - p" by (simp only:)
  have "uint (SampleRate (rtCodec r)) \<noteq> 0" using assms(1) by auto
  then have rate: "0 < uint (SampleRate (rtCodec r))" using uint_ge_0 [of "SampleRate (rtCodec r)"] by linarith
  define R where "R = uint (SampleRate (rtCodec r))"
  have "goDiv (x * (R * tick)) R = x * tick" for x
  proof -
    have R: "R \<noteq> 0" using rate by (simp add: R_def)
    have "x * (R * tick) = (x * tick) * R" "- (x * (R * tick)) = (- (x * tick)) * R" by (simp_all add: algebra_simps)
    then have "(x * (R * tick)) div R = x * tick" "(- (x * (R * tick))) div R = - (x * tick)"
      using nonzero_mult_div_cancel_right [OF R] by presburger+
    then show ?thesis by (simp add: goDiv_def)
  qed
  then show ?thesis unfolding sinceAnchor_def Let_def s assms(1) [symmetric] R_def [symmetric] by simp
qed

definition anchoredAt :: "u32 \<Rightarrow> instant \<times> int \<Rightarrow> RTPRealTimeReader \<Rightarrow> bool" where
  "anchoredAt ssrc a r \<longleftrightarrow> anchored r \<and> anchorSSRC r = ssrc \<and> anchorTime r = fst a \<and> anchorTS r = of_int (snd a)"

definition steadyClock :: "int \<Rightarrow> RTPRealTimeReader \<Rightarrow> bool" where
  "steadyClock tick r \<longleftrightarrow> uint (SampleRate (rtCodec r)) * tick = second \<and> 0 < tick \<and> 1 < SampleDur (rtCodec r)"

lemma judge_anchored:
  assumes "anchoredAt ssrc a r" "steadyClock tick r" "\<bar>snd f - snd a\<bar> < 2 ^ 31"
  shows "judge (fst f) (fst f) (zeroHeader\<lparr>SSRC := ssrc, Timestamp := of_int (snd f)\<rparr>) r =
    (if lag tick f \<le> lag tick a then (True, anchor (fst f) (of_int (snd f)) ssrc r)
     else (lag tick f - lag tick a \<le> allowance r, r))"
proof -
  have "(fst f - anchorTime r) - sinceAnchor (of_int (snd f)) r = lag tick f - lag tick a"
    using assms sinceAnchor_exact [of r tick "snd a" "snd f"] by (simp add: anchoredAt_def steadyClock_def lag_def algebra_simps)
  moreover have "\<not> goDiv (SampleDur (rtCodec r)) 2 \<le> 0"
    using assms(2) pos_imp_zdiv_pos_iff [of 2 "SampleDur (rtCodec r)"] by (simp add: steadyClock_def not_le)
  ultimately show ?thesis using assms(1) by (simp add: judge_def anchoredAt_def Let_def)
qed

lemma anchor_keeps:
  "anchoredAt ssrc f (anchor (fst f) (of_int (snd f)) ssrc r)" "steadyClock tick (anchor now ts ssrc r) = steadyClock tick r"
  "allowance (anchor now ts ssrc r) = allowance r"
  by (simp_all add: anchoredAt_def anchor_def steadyClock_def allowance_def)

definition behind :: "int \<Rightarrow> duration \<Rightarrow> instant \<times> int \<Rightarrow> instant \<times> int \<Rightarrow> bool" where
  "behind tick d f g \<longleftrightarrow> lag tick g - lag tick f \<le> d"

lemma delivered_within:
  assumes "anchoredAt ssrc a r" "steadyClock tick r" "\<forall>f \<in> set (a # fs). \<forall>g \<in> set (a # fs). \<bar>snd f - snd g\<bar> < 2 ^ 31"
  shows "sorted_wrt (behind tick (allowance r)) (a # deliveredFrames ssrc fs r)
    \<and> (sorted_wrt (behind tick (allowance r)) (a # fs) \<longrightarrow> deliveredFrames ssrc fs r = fs)"
  using assms
proof (induction fs arbitrary: a r)
  case (Cons f fs)
  have j: "judge (fst f) (fst f) (zeroHeader\<lparr>SSRC := ssrc, Timestamp := of_int (snd f)\<rparr>) r =
      (if lag tick f \<le> lag tick a then (True, anchor (fst f) (of_int (snd f)) ssrc r) else (lag tick f - lag tick a \<le> allowance r, r))"
    using Cons.prems by (intro judge_anchored) auto
  have pos: "0 < allowance r" by (simp add: allowance_def realTimeMinAllowance_def)
  consider (early) "lag tick f \<le> lag tick a" | (late) "lag tick a < lag tick f" by linarith
  then show ?case
  proof cases
    case early
    let ?r = "anchor (fst f) (of_int (snd f)) ssrc r"
    have IH: "sorted_wrt (behind tick (allowance r)) (f # deliveredFrames ssrc fs ?r)
        \<and> (sorted_wrt (behind tick (allowance r)) (f # fs) \<longrightarrow> deliveredFrames ssrc fs ?r = fs)"
      using Cons.IH [of f ?r] Cons.prems by (simp add: anchor_keeps)
    moreover have "behind tick (allowance r) a f" "\<And>g. behind tick (allowance r) f g \<Longrightarrow> behind tick (allowance r) a g"
      using early pos by (simp_all add: behind_def)
    ultimately show ?thesis using j early by auto
  next
    case late
    have IH: "sorted_wrt (behind tick (allowance r)) (a # deliveredFrames ssrc fs r)
        \<and> (sorted_wrt (behind tick (allowance r)) (a # fs) \<longrightarrow> deliveredFrames ssrc fs r = fs)"
      using Cons.IH [of a r] Cons.prems by simp
    show ?thesis
    proof (cases "lag tick f - lag tick a \<le> allowance r")
      case True
      have "behind tick (allowance r) f g" if "behind tick (allowance r) a g" for g using that late by (simp add: behind_def)
      moreover have "behind tick (allowance r) a f" using True by (simp add: behind_def)
      ultimately show ?thesis using j late True IH by auto
    next
      case False
      then have "\<not> behind tick (allowance r) a f" by (simp add: behind_def)
      then show ?thesis using j late False IH by auto
    qed
  qed
qed simp

text \<open>
  C21. The real-time reader bounds how far a consumer falls behind. Of frames that wait to be read, a frame
  is delivered only if it lags at most the allowance, two frames or 40 ms, behind every frame
  delivered before it; and a stream that keeps within the allowance loses no frame. This is exact
  for clock rates that divide a second, and across wrap-around of the 32-bit timestamps.
\<close>

theorem realtime_bounded_lag:
  assumes "NewRTPRealTimeReader codec = Some r" "uint (SampleRate codec) * tick = second" "0 < tick" "1 < SampleDur codec"
    and "\<forall>f \<in> set fs. \<forall>g \<in> set fs. \<bar>snd f - snd g\<bar> < 2 ^ 31"
  shows "sorted_wrt (\<lambda>f g. lag tick g - lag tick f \<le> max (2 * SampleDur codec) realTimeMinAllowance) (deliveredFrames ssrc fs r)
    \<and> (sorted_wrt (\<lambda>f g. lag tick g - lag tick f \<le> max (2 * SampleDur codec) realTimeMinAllowance) fs \<longrightarrow> deliveredFrames ssrc fs r = fs)"
proof (cases fs)
  case (Cons f gs)
  have r: "\<not> anchored r" "rtCodec r = codec" using assms(1) by (auto simp: NewRTPRealTimeReader_def split: if_splits)
  let ?r = "anchor (fst f) (of_int (snd f)) ssrc r"
  have st: "steadyClock tick ?r" using assms(2-4) r by (simp add: steadyClock_def anchor_def)
  have al: "behind tick (allowance ?r) = (\<lambda>f g. lag tick g - lag tick f \<le> max (2 * SampleDur codec) realTimeMinAllowance)"
    by (simp add: fun_eq_iff behind_def allowance_def anchor_def r)
  have "deliveredFrames ssrc fs r = f # deliveredFrames ssrc gs ?r" using r by (simp add: Cons judge_def)
  moreover have "\<forall>x \<in> set (f # gs). \<forall>y \<in> set (f # gs). \<bar>snd x - snd y\<bar> < 2 ^ 31" using assms(5) unfolding Cons .
  ultimately show ?thesis
    using delivered_within [OF anchor_keeps(1) st] unfolding al Cons by simp
qed simp

text \<open>A consumer that stalls for 200 ms after the second frame finds ten frames waiting.\<close>

theorem realtime_bounded_lag_witness:
  "\<exists>r. NewRTPRealTimeReader CodecAudioUlaw = Some r \<and>
    sorted_wrt (\<lambda>f g. lag 125000 g - lag 125000 f \<le> 40 * millisecond)
      (deliveredFrames 9 [(0, 0), (20 * millisecond, 160), (240 * millisecond, 320), (240 * millisecond, 480), (240 * millisecond, 1600)] r)"
proof -
  obtain r where r: "NewRTPRealTimeReader CodecAudioUlaw = Some r" by (simp add: NewRTPRealTimeReader_def CodecAudioUlaw_def)
  show ?thesis
    using realtime_bounded_lag [OF r, of 125000 "[(0, 0), (20 * millisecond, 160), (240 * millisecond, 320), (240 * millisecond, 480), (240 * millisecond, 1600)]" 9] r
    by (simp add: CodecAudioUlaw_def realTimeMinAllowance_def)
qed

section \<open>What copying loses\<close>

text \<open>A writer that keeps what it is given, and one that takes at most \<open>k\<close> bytes.\<close>

definition keepAll :: "bytes \<Rightarrow> bytes \<Rightarrow> (go_error + nat) \<times> bytes" where
  "keepAll b w = (Inr (length b), w @ b)"

definition keepFirst :: "nat \<Rightarrow> bytes \<Rightarrow> bytes \<Rightarrow> (go_error + nat) \<times> bytes" where
  "keepFirst k b w = (Inr (min k (length b)), w @ take k b)"

lemma WriteAll_complete:
  "0 < k \<Longrightarrow> WriteAll keepAll dat k acc w = Some (Inr (acc + int (length dat)), w @ dat)"
proof (induction keepAll dat k acc w rule: WriteAll.induct)
  case (1 dat k acc w)
  show ?case
  proof (cases "dat = []")
    case True
    then show ?thesis by (simp add: WriteAll.simps)
  next
    case False
    have "WriteAll keepAll (drop k dat) k (acc + int (length (take k dat))) (w @ take k dat)
        = Some (Inr (acc + int (length (take k dat)) + int (length (drop k dat))), (w @ take k dat) @ drop k dat)"
      using 1 False by (simp add: keepAll_def)
    moreover have "int (length dat) = int (length (take k dat)) + int (length (drop k dat))"
      by (metis append_take_drop_id length_append of_nat_add)
    ultimately show ?thesis using False 1(2) by (subst WriteAll.simps) (simp add: keepAll_def)
  qed
qed

text \<open>A short write is not noticed: the loop tests that the writer wrote more than it was given.\<close>

lemma CopyWithBuf_short_write_unnoticed:
  "CopyWithBuf (keepFirst 1) [Inr [1, 2, 3], Inr [4, 5], Inl EOF] 0 [] = ((2, Some (CopyErr EOF)), [1, 4])"
  by (simp add: keepFirst_def)

end
