(* ===== verification/Registration.thy ===== *)
theory Registration
  imports Rtp_Session Session_Timers Go_Net
begin

text \<open>
  The registration of a user agent (\<open>register_transaction.go\<close>, \<open>register_keepalive.go\<close>) and the
  loop that keeps it (\<open>Diago.Register\<close> of \<open>diago.go\<close>): what a REGISTER records, the refresh cadence,
  the loop that tolerates failed refreshes until the granted lifetime has run out, and the OPTIONS
  probe that declares a peer dead.

  Requests and responses belong to the SIP library: a request is an opaque value the operations of
  \<open>sip_lib\<close> act on, a response a record of what the sources read of it. Each exchange with the
  registrar is an input of the operation that makes it, and the loops run over the list of what
  wakes them: a loop that has used up its list is waiting. A panic is a value of its own.
\<close>

section \<open>Messages and errors\<close>

type_synonym params = "string \<Rightarrow> string option"

definition paramsGet :: "params \<Rightarrow> string \<Rightarrow> string" where
  "paramsGet p k = (case p k of None \<Rightarrow> [] | Some v \<Rightarrow> v)"

record sipResponse = headerGetter +
  StatusCode :: int
  ResVia :: "params option"
  ResContact :: "params option"

record contactHdr =
  AddrHost :: string
  AddrPort :: int
  contactRest :: string

record ('uri, 'req) sip_lib =
  NewRequest :: "string \<Rightarrow> 'uri \<Rightarrow> 'req"
  AppendContact :: "contactHdr \<Rightarrow> 'req \<Rightarrow> 'req"
  AppendExpires :: "u32 \<Rightarrow> 'req \<Rightarrow> 'req"
  AppendHeader :: "string \<Rightarrow> string \<Rightarrow> 'req \<Rightarrow> 'req"
  RemoveHeader :: "string \<Rightarrow> 'req \<Rightarrow> 'req"
  ReplaceContact :: "contactHdr \<Rightarrow> 'req \<Rightarrow> 'req"
  SetContactAddr :: "string \<Rightarrow> int \<Rightarrow> 'req \<Rightarrow> 'req"
  ReqContact :: "'req \<Rightarrow> contactHdr option"
  SetDestination :: "string \<Rightarrow> 'req \<Rightarrow> 'req"
  RegisterBuild :: "'req \<Rightarrow> 'req"
  DigestLeaves :: "'req \<Rightarrow> 'req"
  ClientName :: string
  ParseAddr :: "string \<Rightarrow> (nat + string \<times> int)"
  IsProvisional :: "sipResponse \<Rightarrow> bool"

datatype baseErr = Canceled | DeadlineExceeded | TransportErr nat

text \<open>
  The errors of a registration: the end of the context, an error of the transaction wrapped by
  \<open>fmt.Errorf\<close>, a response without Via, and \<open>RegisterResponseError\<close>.
\<close>

datatype regErr = CtxErr baseErr | Wrapped baseErr | NoVia | RegisterResponseError sipResponse

fun isBase :: "baseErr \<Rightarrow> regErr \<Rightarrow> bool" where
  "isBase b (CtxErr e) = (e = b)"
| "isBase b (Wrapped e) = (e = b)"
| "isBase b _ = False"

text \<open>What the transaction of a request made by hand brings, one element a turn of its \<open>select\<close>.\<close>

datatype txEvent = TxResponse sipResponse | TxDone "baseErr option" | TxCtx baseErr

record exchange =
  txNew :: "baseErr option"
  localAddr :: string
  txInit :: "baseErr option"
  txEvents :: "txEvent list"
  doRes :: "baseErr + sipResponse"
  digestRes :: "baseErr + sipResponse"

datatype 'a outcome = Returned 'a | Panicked | Waiting

section \<open>The transaction\<close>

record RegisterOptions =
  Username :: string
  Password :: string
  ProxyHost :: string
  Expiry :: duration
  RetryInterval :: duration
  AllowHeaders :: "string list option"
  OnRegistered :: bool

record ('uri, 'req) RegisterTransaction =
  opts :: RegisterOptions
  Origin :: 'req
  recipient :: 'uri
  expiry :: duration
  grantedExpires :: duration
  lastRegistered :: "instant option"
  expiredEmitted :: bool

text \<open>A product of 64-bit integers.\<close>

definition wrap64 :: "int \<Rightarrow> int" where
  "wrap64 x = (x + 2 ^ 63) mod 2 ^ 64 - 2 ^ 63"

definition recordGrant :: "duration \<Rightarrow> instant \<Rightarrow> ('u, 'r) RegisterTransaction \<Rightarrow> ('u, 'r) RegisterTransaction" where
  "recordGrant granted now t = t\<lparr>expiry := granted, grantedExpires := granted, lastRegistered := Some now,
     expiredEmitted := False\<rparr>"

definition setExpiry :: "duration \<Rightarrow> ('u, 'r) RegisterTransaction \<Rightarrow> ('u, 'r) RegisterTransaction" where
  "setExpiry d t = t\<lparr>expiry := d\<rparr>"

definition newRegisterTransaction ::
  "('u, 'r) sip_lib \<Rightarrow> 'u \<Rightarrow> contactHdr \<Rightarrow> RegisterOptions \<Rightarrow> ('u, 'r) RegisterTransaction" where
  "newRegisterTransaction L rcpt contact op =
    (let req = AppendContact L contact (NewRequest L ''REGISTER'' rcpt);
         req = (if ProxyHost op \<noteq> [] then SetDestination L (ProxyHost op) req else req);
         req = (if 0 < Expiry op then AppendExpires L (toU32 (Seconds (Expiry op))) req else req);
         req = (case AllowHeaders op of None \<Rightarrow> req
                | Some hs \<Rightarrow> AppendHeader L ''Allow'' (Join hs '', '') req);
         op = (if Username op = [] then op\<lparr>Username := ClientName L\<rparr> else op)
     in \<lparr>opts = op, Origin = req, recipient = rcpt, expiry = 0, grantedExpires = 0, lastRegistered = None,
         expiredEmitted = False\<rparr>)"

definition isDigestChallenge :: "sipResponse \<Rightarrow> bool" where
  "isDigestChallenge res =
    (if StatusCode res = 401 then GetHeader res ''WWW-Authenticate'' \<noteq> None
     else if StatusCode res = 407 then GetHeader res ''Proxy-Authenticate'' \<noteq> None
     else False)"

text \<open>A positive lifetime in seconds, as the header and the parameter carry it.\<close>

definition positiveSeconds :: "string option \<Rightarrow> duration option" where
  "positiveSeconds v = (case v of None \<Rightarrow> None
    | Some s \<Rightarrow> (case Atoi (TrimSpace s) of
        Some n \<Rightarrow> if 0 < n then Some (wrap64 (n * second)) else None
      | None \<Rightarrow> None))"

definition grantedExpiry :: "sipResponse \<Rightarrow> duration \<Rightarrow> duration" where
  "grantedExpiry res requested =
    (case Option.bind (ResContact res) (\<lambda>ps. positiveSeconds (ps ''expires'')) of
       Some d \<Rightarrow> d
     | None \<Rightarrow> (case positiveSeconds (GetHeader res ''Expires'') of Some d \<Rightarrow> d | None \<Rightarrow> requested))"

section \<open>Sending a REGISTER\<close>

fun awaitFinal ::
  "('u, 'r) sip_lib \<Rightarrow> txEvent list \<Rightarrow> (baseErr option \<times> sipResponse option) outcome" where
  "awaitFinal L [] = Waiting"
| "awaitFinal L (TxResponse res # evs) =
    (if IsProvisional L res then awaitFinal L evs else Returned (None, Some res))"
| "awaitFinal L (TxDone e # evs) = Returned (e, None)"
| "awaitFinal L (TxCtx e # evs) = Returned (Some e, None)"

definition resultOf :: "baseErr + sipResponse \<Rightarrow> baseErr option \<times> sipResponse option" where
  "resultOf r = (case r of Inl e \<Rightarrow> (Some e, None) | Inr res \<Rightarrow> (None, Some res))"

text \<open>
  The first request: with a contact that names an IP and no port the transaction is made by hand, so
  that the contact can take the address the connection has.
\<close>

definition firstRequest ::
  "('u, 'r) sip_lib \<Rightarrow> exchange \<Rightarrow> contactHdr \<Rightarrow> 'r \<Rightarrow> (baseErr option \<times> sipResponse option) outcome \<times> 'r" where
  "firstRequest L net contact req =
    (if AddrPort contact = 0 \<and> ParseIP (AddrHost contact) \<noteq> [] then
       let req = RegisterBuild L req in
       (case txNew net of
          Some e \<Rightarrow> (Returned (Some e, None), req)
        | None \<Rightarrow>
            (case ParseAddr L (localAddr net) of
               Inl e \<Rightarrow> (Returned (Some (TransportErr e), None), req)
             | Inr (host, port) \<Rightarrow>
                 let req = SetContactAddr L host port req in
                 (case txInit net of
                    Some e \<Rightarrow> (Returned (Some e, None), req)
                  | None \<Rightarrow> (awaitFinal L (txEvents net), req))))
     else (Returned (resultOf (doRes net)), RegisterBuild L req))"

text \<open>RFC 3581: the address the registrar saw the request come from goes into the contact.\<close>

definition natContact :: "params \<Rightarrow> contactHdr \<Rightarrow> contactHdr" where
  "natContact via contact =
    (let c = (case Atoi (paramsGet via ''rport'') of Some p \<Rightarrow> contact\<lparr>AddrPort := p\<rparr> | None \<Rightarrow> contact)
     in if paramsGet via ''received'' \<noteq> [] then c\<lparr>AddrHost := paramsGet via ''received''\<rparr> else c)"

definition afterDigest ::
  "('u, 'r) sip_lib \<Rightarrow> exchange \<Rightarrow> sipResponse \<Rightarrow> 'r \<Rightarrow> (regErr + sipResponse) \<times> 'r" where
  "afterDigest L net res req =
    (if isDigestChallenge res then
       (case digestRes net of Inl e \<Rightarrow> (Inl (Wrapped e), DigestLeaves L req)
        | Inr r \<Rightarrow> (if StatusCode r \<noteq> 200 then Inl (RegisterResponseError r) else Inr r, DigestLeaves L req))
     else (if StatusCode res \<noteq> 200 then Inl (RegisterResponseError res) else Inr res, req))"

definition register ::
  "('u, 'r) sip_lib \<Rightarrow> exchange \<Rightarrow> instant \<Rightarrow> ('u, 'r) RegisterTransaction \<Rightarrow>
   (regErr option \<times> ('u, 'r) RegisterTransaction) outcome" where
  "register L net now t =
    (case ReqContact L (Origin t) of
       None \<Rightarrow> Panicked
     | Some contact \<Rightarrow>
         (case firstRequest L net contact (Origin t) of
            (Waiting, req) \<Rightarrow> Waiting
          | (Panicked, req) \<Rightarrow> Panicked
          | (Returned (Some e, _), req) \<Rightarrow> Returned (Some (Wrapped e), t\<lparr>Origin := req\<rparr>)
          | (Returned (None, None), req) \<Rightarrow> Panicked
          | (Returned (None, Some res), req) \<Rightarrow>
              (case ResVia res of
                 None \<Rightarrow> Returned (Some NoVia, t\<lparr>Origin := req\<rparr>)
               | Some via \<Rightarrow>
                   let req = (if paramsGet via ''rport'' \<noteq> [] then ReplaceContact L (natContact via contact) req
                              else req) in
                   (case afterDigest L net res req of
                      (Inl e, req) \<Rightarrow> Returned (Some e, t\<lparr>Origin := req\<rparr>)
                    | (Inr res, req) \<Rightarrow>
                        Returned (None, recordGrant (grantedExpiry res (Expiry (opts t))) now (t\<lparr>Origin := req\<rparr>))))))"

text \<open>\<open>Register\<close> runs the hook of the options once the binding is there.\<close>

definition Register ::
  "('u, 'r) sip_lib \<Rightarrow> exchange \<Rightarrow> instant \<Rightarrow> ('u, 'r) RegisterTransaction \<Rightarrow>
   (regErr option \<times> bool \<times> ('u, 'r) RegisterTransaction) outcome" where
  "Register L net now t = (case register L net now t of
     Returned (Some e, t) \<Rightarrow> Returned (Some e, False, t)
   | Returned (None, t) \<Rightarrow> Returned (None, OnRegistered (opts t), t)
   | Panicked \<Rightarrow> Panicked
   | Waiting \<Rightarrow> Waiting)"

definition doRequest ::
  "('u, 'r) sip_lib \<Rightarrow> exchange \<Rightarrow> 'r \<Rightarrow> (regErr + sipResponse) \<times> 'r" where
  "doRequest L net req =
    (let req = RegisterBuild L (RemoveHeader L ''Via'' req) in
     (case doRes net of Inl e \<Rightarrow> (Inl (Wrapped e), req) | Inr res \<Rightarrow> afterDigest L net res req))"

definition Qualify ::
  "('u, 'r) sip_lib \<Rightarrow> exchange \<Rightarrow> instant \<Rightarrow> ('u, 'r) RegisterTransaction \<Rightarrow>
   regErr option \<times> ('u, 'r) RegisterTransaction" where
  "Qualify L net now t =
    (case doRequest L net (Origin t) of
       (Inl e, req) \<Rightarrow> (Some e, t\<lparr>Origin := req\<rparr>)
     | (Inr res, req) \<Rightarrow> (None, recordGrant (grantedExpiry res (Expiry (opts t))) now (t\<lparr>Origin := req\<rparr>)))"

definition Unregister ::
  "('u, 'r) sip_lib \<Rightarrow> exchange \<Rightarrow> ('u, 'r) RegisterTransaction \<Rightarrow> regErr option \<times> ('u, 'r) RegisterTransaction" where
  "Unregister L net t =
    (let req = AppendExpires L 0 (AppendHeader L ''Contact'' ''*''
                 (RemoveHeader L ''Contact'' (RemoveHeader L ''Expires'' (Origin t))))
     in (case doRequest L net req of
           (Inl e, req) \<Rightarrow> (Some e, t\<lparr>Origin := req\<rparr>)
         | (Inr res, req) \<Rightarrow> (None, t\<lparr>Origin := req\<rparr>)))"

section \<open>The refresh cadence\<close>

definition registerRetryMin :: duration where "registerRetryMin = 30 * second"
definition registerRetryBackoffInitial :: duration where "registerRetryBackoffInitial = 1 * second"
definition registerRetryBackoffMax :: duration where "registerRetryBackoffMax = 300 * second"

definition calcRetry :: "('u, 'r) RegisterTransaction \<Rightarrow> duration \<Rightarrow> duration" where
  "calcRetry t ex =
    (let retry = wrap64 (truncInt (fmul (Seconds ex) (3 / 4)) * second);
         ri = RetryInterval (opts t);
         retry = (if 0 < ri \<and> (retry \<le> 0 \<or> ri < retry) then ri else retry)
     in if retry \<le> 0 then registerRetryMin else retry)"

definition cadence :: "('u, 'r) RegisterTransaction \<Rightarrow> duration" where
  "cadence t = calcRetry t (expiry t)"

definition expired :: "instant \<Rightarrow> ('u, 'r) RegisterTransaction \<Rightarrow> bool \<times> ('u, 'r) RegisterTransaction" where
  "expired now t = (case lastRegistered t of
     None \<Rightarrow> (False, t)
   | Some since \<Rightarrow>
       if expiredEmitted t \<or> grantedExpires t \<le> 0 then (False, t)
       else if \<not> since + grantedExpires t < now then (False, t)
       else (True, t\<lparr>expiredEmitted := True\<rparr>))"

section \<open>The refresh loop\<close>

text \<open>
  What wakes the loop: the end of the context, or the timer, after which a refresh is sent. The
  instant is the one the refresh is over at, and \<open>ctxErr\<close> what the context reports then.
\<close>

record fire =
  reply :: exchange
  fireNow :: instant
  ctxErr :: "baseErr option"

datatype wake = WakeCtx baseErr | WakeTimer fire

definition refresh :: "('u, 'r) sip_lib \<Rightarrow> fire \<Rightarrow> ('u, 'r) RegisterTransaction \<Rightarrow>
    regErr option \<times> ('u, 'r) RegisterTransaction" where
  "refresh L f t = Qualify L (reply f) (fireNow f) t"

text \<open>
  The loop returns its error, if it has ended, with what it has not used of its input and every
  duration it has set its timer to.
\<close>

record 's loopEnd =
  loopErr :: "regErr option"
  loopRest :: "wake list"
  loopWaits :: "duration list"
  loopState :: 's

definition waited :: "duration \<Rightarrow> 's loopEnd \<Rightarrow> 's loopEnd" where
  "waited d r = r\<lparr>loopWaits := d # loopWaits r\<rparr>"

fun registerRefreshLoop ::
  "(fire \<Rightarrow> 's \<Rightarrow> regErr option \<times> 's) \<Rightarrow> ('s \<Rightarrow> duration) \<Rightarrow> (instant \<Rightarrow> 's \<Rightarrow> bool \<times> 's) \<Rightarrow>
   duration \<Rightarrow> duration \<Rightarrow> duration \<Rightarrow> duration \<Rightarrow> wake list \<Rightarrow> 's \<Rightarrow> 's loopEnd" where
  "registerRefreshLoop rf cad exd ib mb backoff retry [] s =
    \<lparr>loopErr = None, loopRest = [], loopWaits = [retry], loopState = s\<rparr>"
| "registerRefreshLoop rf cad exd ib mb backoff retry (WakeCtx e # evs) s =
    \<lparr>loopErr = Some (CtxErr e), loopRest = evs, loopWaits = [retry], loopState = s\<rparr>"
| "registerRefreshLoop rf cad exd ib mb backoff retry (WakeTimer f # evs) s =
    (case rf f s of (err, s1) \<Rightarrow>
     (case ctxErr f of
        Some e \<Rightarrow> \<lparr>loopErr = Some (CtxErr e), loopRest = evs, loopWaits = [retry], loopState = s1\<rparr>
      | None \<Rightarrow>
          (case err of
             Some e \<Rightarrow>
               (case exd (fireNow f) s1 of (gone, s2) \<Rightarrow>
                  if gone then \<lparr>loopErr = Some e, loopRest = evs, loopWaits = [retry], loopState = s2\<rparr>
                  else waited retry (registerRefreshLoop rf cad exd ib mb
                         (if mb < backoff * 2 then mb else backoff * 2) backoff evs s2))
           | None \<Rightarrow> waited retry (registerRefreshLoop rf cad exd ib mb ib (cad s1) evs s1))))"

definition reregisterLoop ::
  "('u, 'r) sip_lib \<Rightarrow> duration \<Rightarrow> wake list \<Rightarrow> ('u, 'r) RegisterTransaction \<Rightarrow> ('u, 'r) RegisterTransaction loopEnd" where
  "reregisterLoop L retry evs t =
    registerRefreshLoop (refresh L) cadence expired registerRetryBackoffInitial registerRetryBackoffMax
      registerRetryBackoffInitial retry evs t"

definition QualifyLoop ::
  "('u, 'r) sip_lib \<Rightarrow> wake list \<Rightarrow> ('u, 'r) RegisterTransaction \<Rightarrow> ('u, 'r) RegisterTransaction loopEnd" where
  "QualifyLoop L evs t = reregisterLoop L (calcRetry t (expiry t)) evs t"

lemma loopRest_shorter:
  "loopErr (registerRefreshLoop rf cad exd ib mb b r evs s) = Some e \<Longrightarrow>
   length (loopRest (registerRefreshLoop rf cad exd ib mb b r evs s)) < length evs"
  by (induction rf cad exd ib mb b r evs s arbitrary: e rule: registerRefreshLoop.induct)
     (fastforce simp: waited_def split: prod.splits option.splits if_splits)+

lemma QualifyLoop_shorter:
  "loopErr (QualifyLoop L evs t) = Some e \<Longrightarrow> length (loopRest (QualifyLoop L evs t)) < length evs"
  by (simp add: QualifyLoop_def reregisterLoop_def loopRest_shorter)

section \<open>Keeping the registration\<close>

text \<open>What \<open>Diago.Register\<close> does with the error of a loop: end, or go on with another expiry.\<close>

definition givesUp :: "regErr \<Rightarrow> bool" where
  "givesUp e = (case e of
     RegisterResponseError res \<Rightarrow>
       (StatusCode res = 401 \<or> StatusCode res = 407 \<or> 500 < StatusCode res \<and> StatusCode res < 600
        \<or> StatusCode res < 200 \<or> 699 < StatusCode res)
   | _ \<Rightarrow> isBase Canceled e \<or> isBase DeadlineExceeded e)"

definition retryAfterOf :: "regErr \<Rightarrow> duration" where
  "retryAfterOf e = (case e of
     RegisterResponseError res \<Rightarrow>
       (case GetHeader res ''Retry-After'' of
          None \<Rightarrow> 5 * second
        | Some h \<Rightarrow> if 0 < fst (AtoiValue h) then wrap64 (fst (AtoiValue h) * second) else 5 * second)
   | _ \<Rightarrow> 5 * second)"

function keepRegistered ::
  "('u, 'r) sip_lib \<Rightarrow> wake list \<Rightarrow> ('u, 'r) RegisterTransaction \<Rightarrow>
   regErr option \<times> duration list \<times> ('u, 'r) RegisterTransaction" where
  "keepRegistered L evs t =
    (let r = QualifyLoop L evs t in
     (case loopErr r of
        None \<Rightarrow> (None, loopWaits r, loopState r)
      | Some e \<Rightarrow>
          if givesUp e then (Some e, loopWaits r, loopState r)
          else (case keepRegistered L (loopRest r) (setExpiry (retryAfterOf e) (loopState r)) of
                  (res, ws, t') \<Rightarrow> (res, loopWaits r @ ws, t'))))"
  by pat_completeness auto

termination
  by (relation "measure (\<lambda>(L, evs, t). length evs)") (auto dest: QualifyLoop_shorter)

text \<open>
  \<open>Diago.Register\<close> on the transaction it has made: the binding is removed when the loop ends, with
  \<open>unreg\<close> the exchange of that. The error is the registration's or the loop's.
\<close>

definition diagoRegister ::
  "('u, 'r) sip_lib \<Rightarrow> exchange \<Rightarrow> instant \<Rightarrow> wake list \<Rightarrow> exchange \<Rightarrow> ('u, 'r) RegisterTransaction \<Rightarrow>
   (regErr \<times> ('u, 'r) RegisterTransaction) outcome" where
  "diagoRegister L net now evs unreg t =
    (case Register L net now t of
       Panicked \<Rightarrow> Panicked
     | Waiting \<Rightarrow> Waiting
     | Returned (Some e, _, t) \<Rightarrow> Returned (e, t)
     | Returned (None, _, t) \<Rightarrow>
         (case keepRegistered L evs t of
            (None, _, _) \<Rightarrow> Waiting
          | (Some e, _, t) \<Rightarrow> Returned (e, snd (Unregister L unreg t))))"

section \<open>The OPTIONS probe\<close>

definition optionsMaxFailures :: int where "optionsMaxFailures = 3"
definition optionsKeepaliveInterval :: duration where "optionsKeepaliveInterval = 15 * second"

text \<open>A turn of the keepalive loop: the context's end, or a tick, the probe's result and the context after it.\<close>

datatype probeEvent = ProbeCtx baseErr | Tick "regErr option" "baseErr option"

fun optionsKeepaliveLoop :: "int \<Rightarrow> int \<Rightarrow> probeEvent list \<Rightarrow> regErr option" where
  "optionsKeepaliveLoop maxFailures consecutive [] = None"
| "optionsKeepaliveLoop maxFailures consecutive (ProbeCtx e # evs) = Some (CtxErr e)"
| "optionsKeepaliveLoop maxFailures consecutive (Tick err ctx # evs) =
    (case ctx of
       Some e \<Rightarrow> Some (CtxErr e)
     | None \<Rightarrow>
         (case err of
            Some e \<Rightarrow>
              let consecutive = consecutive + 1 in
              if maxFailures \<le> consecutive then Some e
              else optionsKeepaliveLoop maxFailures consecutive evs
          | None \<Rightarrow> optionsKeepaliveLoop maxFailures 0 evs))"

text \<open>
  The probe: nothing is sent on a context that has ended, and any final response is a sign of life.
  \<open>sendOptions\<close> is what the client reports of the request.
\<close>

definition optionsProbe ::
  "('u, 'r) sip_lib \<Rightarrow> baseErr option \<Rightarrow> ('r \<Rightarrow> baseErr + sipResponse) \<Rightarrow> ('u, 'r) RegisterTransaction \<Rightarrow>
   regErr option" where
  "optionsProbe L ctx sendOptions t = (case ctx of
     Some e \<Rightarrow> Some (CtxErr e)
   | None \<Rightarrow>
       let req = NewRequest L ''OPTIONS'' (recipient t);
           req = (if ProxyHost (opts t) \<noteq> [] then SetDestination L (ProxyHost (opts t)) req else req)
       in (case sendOptions req of Inl e \<Rightarrow> Some (Wrapped e) | Inr res \<Rightarrow> None))"

definition OptionsKeepaliveLoop :: "probeEvent list \<Rightarrow> regErr option" where
  "OptionsKeepaliveLoop evs = optionsKeepaliveLoop optionsMaxFailures 0 evs"

section \<open>The contract of a refresher\<close>

text \<open>
  The interface \<open>registerRefresher\<close> of the sources, with what the loop relies on: a failed refresh
  leaves the binding as it was, \<open>expired\<close> reports a lapsed binding once, and a wait is never empty.
\<close>

locale register_refresher =
  fixes rf :: "fire \<Rightarrow> 's \<Rightarrow> regErr option \<times> 's"
    and cad :: "'s \<Rightarrow> duration"
    and exd :: "instant \<Rightarrow> 's \<Rightarrow> bool \<times> 's"
    and binding :: "'s \<Rightarrow> instant option \<times> duration"
    and reported :: "'s \<Rightarrow> bool"
    and failure :: "fire \<Rightarrow> regErr option"
  assumes failure: "fst (rf f s) = failure f"
    and failed_keeps: "failure f \<noteq> None \<Longrightarrow>
      binding (snd (rf f s)) = binding s \<and> reported (snd (rf f s)) = reported s"
    and expired_iff: "fst (exd now s) \<longleftrightarrow>
      \<not> reported s \<and> 0 < snd (binding s) \<and> (\<exists>T. fst (binding s) = Some T \<and> T + snd (binding s) < now)"
    and expired_keeps: "binding (snd (exd now s)) = binding s"
    and expired_latch: "reported (snd (exd now s)) \<longleftrightarrow> reported s \<or> fst (exd now s)"
    and cadence_pos: "0 < cad s"
begin

lemma loop_error:
  assumes "loopErr (registerRefreshLoop rf cad exd ib mb b r evs s) = Some e"
  shows "(\<exists>c. e = CtxErr c) \<or>
    (\<exists>f T g. WakeTimer f \<in> set evs \<and> failure f = Some e \<and>
       binding (loopState (registerRefreshLoop rf cad exd ib mb b r evs s)) = (Some T, g) \<and> 0 < g \<and> T + g < fireNow f)"
  using assms
proof (induction evs arbitrary: b r s)
  case (Cons w evs)
  show ?case
  proof (cases w)
    case (WakeTimer f)
    obtain err s1 where rf: "rf f s = (err, s1)" by (cases "rf f s")
    have err: "err = failure f" using failure [of f s] rf by simp
    obtain gone s2 where exd: "exd (fireNow f) s1 = (gone, s2)" by (cases "exd (fireNow f) s1")
    let ?loop = "registerRefreshLoop rf cad exd ib mb"
    have goes_on: ?thesis if l: "?loop b r (w # evs) s = waited r (?loop b' r' evs s')" for b' r' s'
    proof -
      have "loopErr (?loop b' r' evs s') = Some e" using Cons.prems by (simp only: l) (simp add: waited_def)
      from Cons.IH [OF this] show ?thesis unfolding l by (simp add: waited_def) blast
    qed
    consider (ctx) c where "ctxErr f = Some c" | (ok) "ctxErr f = None" "err = None"
      | (gone) "ctxErr f = None" "err = Some e" "gone" | (kept) "ctxErr f = None" "err \<noteq> None" "\<not> gone"
      using Cons.prems rf exd WakeTimer by (cases "ctxErr f"; cases err; cases gone) auto
    then show ?thesis
    proof cases
      case gone
      obtain T where "fst (binding s1) = Some T" "0 < snd (binding s1)" "T + snd (binding s1) < fireNow f"
        using expired_iff [of "fireNow f" s1] exd gone by auto
      then have "binding s2 = (Some T, snd (binding s1)) \<and> 0 < snd (binding s1) \<and> T + snd (binding s1) < fireNow f"
        using expired_keeps [of "fireNow f" s1] exd by (simp add: prod_eq_iff)
      then show ?thesis using gone err WakeTimer rf exd
        by (intro disjI2 exI [of _ f] exI [of _ T] exI [of _ "snd (binding s1)"]) simp
    next
      case ok
      then show ?thesis using rf WakeTimer by (intro goes_on [of ib "cad s1" s1]) simp
    next
      case kept
      then show ?thesis using rf exd WakeTimer
        by (intro goes_on [of "if mb < b * 2 then mb else b * 2" b s2]) auto
    qed (use Cons.prems rf WakeTimer in auto)
  qed (use Cons.prems in auto)
qed simp

lemma loop_waits_pos:
  "0 < ib \<Longrightarrow> 0 < mb \<Longrightarrow> 0 < b \<Longrightarrow> 0 < r \<Longrightarrow> w \<in> set (loopWaits (registerRefreshLoop rf cad exd ib mb b r evs s)) \<Longrightarrow> 0 < w"
  using cadence_pos
  by (induction rf cad exd ib mb b r evs s rule: registerRefreshLoop.induct)
     (auto simp: waited_def split: prod.splits option.splits if_splits)

text \<open>
  An outage: every refresh fails, the ones before the end of the lifetime are absorbed, each after
  twice the wait of the one before up to the bound, and the first one after it is handed up.
\<close>

lemma loop_outage:
  assumes "binding s = (Some T, g)" "0 < g" "\<not> reported s"
    and "\<forall>f \<in> set fs. ctxErr f = None \<and> failure f \<noteq> None \<and> fireNow f \<le> T + g"
    and "ctxErr l = None" "failure l = Some e" "T + g < fireNow l"
    and "loop = registerRefreshLoop rf cad exd ib mb (min mb (ib * 2 ^ k)) r (map WakeTimer fs @ WakeTimer l # rest) s"
    and "0 < ib" "0 < mb"
  shows "loopErr loop = Some e \<and> loopRest loop = rest \<and> binding (loopState loop) = (Some T, g) \<and>
    reported (loopState loop) \<and> loopWaits loop = r # map (\<lambda>i. min mb (ib * 2 ^ (k + i))) [0..<length fs]"
  using assms
proof (induction fs arbitrary: s k r loop)
  case Nil
  have a: "fst (rf l s) = Some e" "binding (snd (rf l s)) = (Some T, g)" "\<not> reported (snd (rf l s))"
    using failure [of l s] failed_keeps [of l s] Nil by auto
  then have "fst (exd (fireNow l) (snd (rf l s)))" using Nil by (simp add: expired_iff)
  then show ?case using a Nil expired_keeps expired_latch by (auto simp: split: prod.splits) (metis fst_conv snd_conv)+
next
  case (Cons f fs)
  let ?s = "snd (rf f s)" and ?t = "snd (exd (fireNow f) (snd (rf f s)))"
  have a: "fst (rf f s) \<noteq> None" "binding ?s = (Some T, g)" "\<not> reported ?s"
    using failure [of f s] failed_keeps [of f s] Cons.prems by auto
  then have x: "\<not> fst (exd (fireNow f) ?s)" using Cons.prems by (simp add: expired_iff)
  then have t: "binding ?t = (Some T, g)" "\<not> reported ?t" using a expired_keeps expired_latch by auto
  define b b' where "b = min mb (ib * 2 ^ k)" and "b' = min mb (ib * 2 ^ Suc k)"
  have b': "(if mb < b * 2 then mb else b * 2) = b'" using Cons.prems(9,10) by (auto simp: min_def b_def b'_def)
  have l: "loop = waited r (registerRefreshLoop rf cad exd ib mb b' b (map WakeTimer fs @ WakeTimer l # rest) ?t)"
    using a(1) x Cons.prems(4) unfolding Cons.prems(8) b_def [symmetric] b' [symmetric] by (auto split: prod.splits)
  have "[0..<length (f # fs)] = 0 # map Suc [0..<length fs]" by (simp add: map_Suc_upt upt_conv_Cons del: upt_Suc)
  then show ?case
    using Cons.IH [OF t(1) Cons.prems(2) t(2) _ Cons.prems(5-7) refl Cons.prems(9,10), of "Suc k" b] Cons.prems(4)
    by (simp add: l waited_def comp_def b'_def b_def del: upt_Suc power_Suc)
qed

end

section \<open>The transaction as a refresher\<close>

text \<open>The error a refresh ends with, which only what the registrar answered decides.\<close>

definition exchangeErr :: "exchange \<Rightarrow> regErr option" where
  "exchangeErr net = (case doRes net of
     Inl e \<Rightarrow> Some (Wrapped e)
   | Inr res \<Rightarrow>
       if isDigestChallenge res then
         (case digestRes net of Inl e \<Rightarrow> Some (Wrapped e)
          | Inr r \<Rightarrow> if StatusCode r \<noteq> 200 then Some (RegisterResponseError r) else None)
       else if StatusCode res \<noteq> 200 then Some (RegisterResponseError res) else None)"

definition bindingOf :: "('u, 'r) RegisterTransaction \<Rightarrow> instant option \<times> duration" where
  "bindingOf t = (lastRegistered t, grantedExpires t)"

lemma calcRetry_pos: "0 < calcRetry t d"
  by (simp add: calcRetry_def Let_def registerRetryMin_def)

interpretation rtx: register_refresher "refresh L" cadence expired bindingOf expiredEmitted "\<lambda>f. exchangeErr (reply f)"
  for L :: "('u, 'r) sip_lib"
  by unfold_locales
     (auto simp: refresh_def Qualify_def doRequest_def afterDigest_def exchangeErr_def recordGrant_def bindingOf_def
        expired_def cadence_def calcRetry_pos Let_def split: sum.splits option.splits if_splits)

lemma wrap64_id: "- (2 ^ 63) \<le> x \<Longrightarrow> x < 2 ^ 63 \<Longrightarrow> wrap64 x = x"
  by (simp add: wrap64_def)

lemma Seconds_whole:
  assumes "0 \<le> n" "n < 2 ^ 53"
  shows "Seconds (n * second) = of_int n"
proof -
  have "truncInt (of_int (n * second) / of_int second) = n" by (simp add: truncInt_def)
  then show ?thesis
    using assms round64_of_int [of n] by (simp add: Seconds_def ofInt64_def fdiv_def fadd_def)
qed

lemma three_quarters:
  assumes "0 \<le> n" "n < 2 ^ 32"
  shows "truncInt (fmul (Seconds (n * second)) (3 / 4)) = 3 * n div 4"
proof -
  let ?x = "of_int n * (3 / 4) :: rat"
  define q where "q = 3 * n div 4"
  have q: "4 * q \<le> 3 * n" "3 * n \<le> 4 * q + 3" by (simp_all add: q_def)
  have "(of_int (4 * q) :: rat) \<le> of_int (3 * n)" "(of_int (3 * n) :: rat) \<le> of_int (4 * q + 3)"
    using q by (simp_all only: of_int_le_iff)
  then have x: "of_int q \<le> ?x" "?x \<le> of_int q + 3 / 4" by simp_all
  have n: "(of_int n :: rat) < 2 ^ 32" using assms(2) by (metis of_int_less_iff of_int_numeral of_int_power)
  have "0 \<le> q" using assms(1) by (simp add: q_def)
  moreover have "q < 2 ^ 53" using assms q by simp
  ultimately have lo: "of_int q \<le> round64 ?x" using round64_ge_int [of q ?x] x(1) by simp
  have "round64 ?x \<le> ?x + ?x / 2 ^ 53"
    using round64_error [of ?x] assms(1) abs_le_D1 [of "round64 ?x - ?x" "\<bar>?x\<bar> / 2 ^ 53"] by (simp add: abs_mult)
  also have "\<dots> < of_int q + 1" using x(2) n by (simp add: field_simps)
  finally have "\<lfloor>round64 ?x\<rfloor> = q" using lo by (intro floor_unique) simp_all
  moreover have "0 \<le> round64 ?x" using assms(1) by (intro round64_nonneg) simp
  moreover have "Seconds (n * second) = of_int n" using assms by (intro Seconds_whole) simp_all
  ultimately show ?thesis by (simp add: fmul_def truncInt_nonneg q_def)
qed

lemma calcRetry_whole:
  assumes "0 \<le> n" "n < 2 ^ 32"
  shows "calcRetry t (n * second) = (let q = 3 * n div 4 * second; ri = RetryInterval (opts t) in
    if 0 < ri \<and> (q = 0 \<or> ri < q) then ri else if q = 0 then registerRetryMin else q)"
proof -
  have "wrap64 (3 * n div 4 * second) = 3 * n div 4 * second" using assms by (intro wrap64_id) auto
  moreover have "0 \<le> 3 * n div 4" using assms by simp
  ultimately show ?thesis by (auto simp: calcRetry_def three_quarters [OF assms] Let_def)
qed

lemma loopRest_subset: "set (loopRest (registerRefreshLoop rf cad exd ib mb b r evs s)) \<subseteq> set evs"
proof (induction evs arbitrary: b r s)
  case (Cons w evs)
  then show ?case
    by (cases w) (auto simp: waited_def split: prod.splits option.splits dest: subsetD [OF Cons.IH])
qed simp

lemma QualifyLoop_error:
  assumes "loopErr (QualifyLoop L evs t) = Some e"
  shows "(\<exists>c. e = CtxErr c) \<or> (\<exists>f T. WakeTimer f \<in> set evs \<and> exchangeErr (reply f) = Some e \<and>
    lastRegistered (loopState (QualifyLoop L evs t)) = Some T \<and> 0 < grantedExpires (loopState (QualifyLoop L evs t)) \<and>
    T + grantedExpires (loopState (QualifyLoop L evs t)) < fireNow f)"
  using rtx.loop_error [OF assms [unfolded QualifyLoop_def reregisterLoop_def]]
  unfolding QualifyLoop_def reregisterLoop_def by (auto simp: bindingOf_def)

lemma QualifyLoop_waits:
  assumes "w \<in> set (loopWaits (QualifyLoop L evs t))"
  shows "0 < w"
  using rtx.loop_waits_pos [OF _ _ _ _ assms [unfolded QualifyLoop_def reregisterLoop_def]]
  by (simp add: registerRetryBackoffInitial_def registerRetryBackoffMax_def calcRetry_pos)

lemma keepRegistered_unfold:
  "keepRegistered L evs t = (case loopErr (QualifyLoop L evs t) of
     None \<Rightarrow> (None, loopWaits (QualifyLoop L evs t), loopState (QualifyLoop L evs t))
   | Some e \<Rightarrow>
       if givesUp e then (Some e, loopWaits (QualifyLoop L evs t), loopState (QualifyLoop L evs t))
       else (case keepRegistered L (loopRest (QualifyLoop L evs t)) (setExpiry (retryAfterOf e) (loopState (QualifyLoop L evs t)))
         of (res, ws, t') \<Rightarrow> (res, loopWaits (QualifyLoop L evs t) @ ws, t')))"
  by (subst keepRegistered.simps) (simp only: Let_def)

declare keepRegistered.simps [simp del]

section \<open>Properties\<close>

text \<open>
  C8. A registration is given up only for cause. When the loop that keeps it ends, it ends with an
  error \<open>Diago.Register\<close> gives up on, and that is the end of the context or the error of a refresh
  that failed after the lifetime the registrar last granted had run out: a failure before that is
  absorbed, whatever the registrar answered. And the loop never sets its timer to nothing, so no
  answer makes it spin.
\<close>

theorem registration_ends_lapsed:
  assumes "keepRegistered L evs t = (Some e, ws, t')"
  shows "givesUp e \<and> (\<forall>w \<in> set ws. 0 < w) \<and>
    ((\<exists>c. e = CtxErr c) \<or>
     (\<exists>f T. WakeTimer f \<in> set evs \<and> exchangeErr (reply f) = Some e \<and> lastRegistered t' = Some T \<and>
        0 < grantedExpires t' \<and> T + grantedExpires t' < fireNow f))"
  using assms
proof (induction L evs t arbitrary: ws rule: keepRegistered.induct)
  case (1 L evs t)
  let ?q = "QualifyLoop L evs t"
  obtain e' where e': "loopErr ?q = Some e'"
    using "1.prems" by (cases "loopErr ?q") (auto simp: keepRegistered_unfold [of L evs t])
  show ?case
  proof (cases "givesUp e'")
    case True
    then have "e = e'" "ws = loopWaits ?q" "t' = loopState ?q"
      using "1.prems" e' by (simp_all add: keepRegistered_unfold [of L evs t])
    then show ?thesis using True e' QualifyLoop_error [OF e'] QualifyLoop_waits [of _ L evs t] by blast
  next
    case False
    obtain ws' where k: "keepRegistered L (loopRest ?q) (setExpiry (retryAfterOf e') (loopState ?q)) = (Some e, ws', t')"
      and ws: "ws = loopWaits ?q @ ws'"
      using "1.prems" e' False by (auto simp: keepRegistered_unfold [of L evs t] split: prod.splits)
    have "set (loopRest ?q) \<subseteq> set evs" by (simp add: QualifyLoop_def reregisterLoop_def loopRest_subset)
    then show ?thesis using "1.IH" [OF refl e' False k] ws QualifyLoop_waits [of _ L evs t] by fastforce
  qed
qed

text \<open>An example: a library whose request is its contact, and the replies of a registrar.\<close>

definition exSip :: "(string, contactHdr option) sip_lib" where
  "exSip = \<lparr>NewRequest = \<lambda>m u. None, AppendContact = \<lambda>c r. Some c, AppendExpires = \<lambda>v r. r,
     AppendHeader = \<lambda>n v r. r, RemoveHeader = \<lambda>n r. if n = ''Contact'' then None else r,
     ReplaceContact = \<lambda>c r. Some c, SetContactAddr = \<lambda>h p r. map_option (\<lambda>c. c\<lparr>AddrHost := h, AddrPort := p\<rparr>) r,
     ReqContact = \<lambda>r. r, SetDestination = \<lambda>d r. r, RegisterBuild = \<lambda>r. r, DigestLeaves = \<lambda>r. r,
     ClientName = ''diago'', ParseAddr = \<lambda>s. Inr (s, 5060), IsProvisional = \<lambda>r. StatusCode r < 200\<rparr>"

definition exResponse :: "int \<Rightarrow> string option \<Rightarrow> string option \<Rightarrow> sipResponse" where
  "exResponse code granted retry =
    \<lparr>GetHeader = \<lambda>n. if n = ''Expires'' then granted else if n = ''Retry-After'' then retry else None,
     GetHeaders = \<lambda>n. [], StatusCode = code, ResVia = Some (\<lambda>p. None), ResContact = None\<rparr>"

definition exExchange :: "baseErr + sipResponse \<Rightarrow> exchange" where
  "exExchange r = \<lparr>txNew = None, localAddr = [], txInit = None, txEvents = [], doRes = r, digestRes = Inl Canceled\<rparr>"

definition exOpts :: RegisterOptions where
  "exOpts = \<lparr>Username = ''alice'', Password = ''secret'', ProxyHost = [], Expiry = 3600 * second,
     RetryInterval = 0, AllowHeaders = None, OnRegistered = False\<rparr>"

definition exTransaction :: "(string, contactHdr option) RegisterTransaction" where
  "exTransaction = recordGrant (120 * second) 0
     (newRegisterTransaction exSip ''sip:alice@example.com'' \<lparr>AddrHost = ''pc'', AddrPort = 5060, contactRest = []\<rparr> exOpts)"

definition exFire :: "baseErr + sipResponse \<Rightarrow> instant \<Rightarrow> fire" where
  "exFire r now = \<lparr>reply = exExchange r, fireNow = now, ctxErr = None\<rparr>"

lemmas ex_register_defs = exSip_def exResponse_def exExchange_def exOpts_def exTransaction_def exFire_def
  newRegisterTransaction_def recordGrant_def

lemma exTransaction_fields:
  "lastRegistered exTransaction = Some 0" "grantedExpires exTransaction = 120 * second"
  "\<not> expiredEmitted exTransaction" "expiry exTransaction = 120 * second" "opts exTransaction = exOpts"
  by (simp_all add: ex_register_defs)

lemma exCadence: "calcRetry exTransaction (120 * second) = 90 * second"
  using calcRetry_whole [of 120 exTransaction] by (simp add: exTransaction_fields exOpts_def)

theorem registration_ends_lapsed_witness:
  "\<exists>e ws t'. keepRegistered exSip [WakeTimer (exFire (Inr (exResponse 503 None None)) (130 * second))] exTransaction
      = (Some e, ws, t') \<and> givesUp e \<and> ws = [90 * second] \<and> expiredEmitted t'"
proof -
  let ?e = "RegisterResponseError (exResponse 503 None None)"
  have g: "givesUp ?e" by (simp add: givesUp_def exResponse_def)
  have q: "refresh exSip (exFire (Inr (exResponse 503 None None)) (130 * second)) exTransaction = (Some ?e, exTransaction)"
    by (simp add: refresh_def Qualify_def doRequest_def afterDigest_def isDigestChallenge_def Let_def ex_register_defs)
  have k: "keepRegistered exSip [WakeTimer (exFire (Inr (exResponse 503 None None)) (130 * second))] exTransaction
      = (Some ?e, [90 * second], exTransaction\<lparr>expiredEmitted := True\<rparr>)"
    using g q exCadence
    by (simp add: keepRegistered_unfold QualifyLoop_def reregisterLoop_def exTransaction_fields expired_def exFire_def)
  show ?thesis using registration_ends_lapsed [OF k] k g by simp
qed

text \<open>
  C30. An outage of the registrar. While every refresh fails, each failure inside the granted
  lifetime is absorbed and the loop waits 1, 2, 4, ... seconds, never more than five minutes; the
  first failure after the lifetime ends the loop with its error. The binding the transaction
  describes stays the one the registrar granted, and the outage is marked as reported.
\<close>

theorem outage_tolerated:
  assumes "lastRegistered t = Some T" "0 < grantedExpires t" "\<not> expiredEmitted t"
    and "\<forall>f \<in> set fs. ctxErr f = None \<and> exchangeErr (reply f) \<noteq> None \<and> fireNow f \<le> T + grantedExpires t"
    and "ctxErr l = None" "exchangeErr (reply l) = Some e" "T + grantedExpires t < fireNow l"
    and "q = QualifyLoop L (map WakeTimer fs @ WakeTimer l # rest) t"
  shows "loopErr q = Some e \<and> loopRest q = rest \<and> bindingOf (loopState q) = bindingOf t \<and>
    expiredEmitted (loopState q) \<and> loopWaits q = cadence t # map (\<lambda>i. min 300 (2 ^ i) * second) [0..<length fs]"
proof -
  let ?ib = registerRetryBackoffInitial and ?mb = registerRetryBackoffMax
  have wait: "min ?mb (?ib * 2 ^ i) = min 300 (2 ^ i) * second" for i :: nat
    by (auto simp: registerRetryBackoffMax_def registerRetryBackoffInitial_def min_def)
  have pos: "0 < ?ib" "0 < ?mb" "min ?mb (?ib * 2 ^ 0) = ?ib"
    by (simp_all add: registerRetryBackoffMax_def registerRetryBackoffInitial_def)
  have t: "bindingOf t = (Some T, grantedExpires t)" using assms(1) by (simp add: bindingOf_def)
  have q: "q = registerRefreshLoop (refresh L) cadence expired ?ib ?mb (min ?mb (?ib * 2 ^ 0)) (cadence t)
      (map WakeTimer fs @ WakeTimer l # rest) t"
    using assms(8) by (simp only: pos QualifyLoop_def reregisterLoop_def cadence_def)
  show ?thesis
    using rtx.loop_outage [OF t assms(2,3,4,5,6,7) q pos(1,2)] by (simp only: t wait add_0)
qed

theorem outage_tolerated_witness:
  "loopWaits (QualifyLoop exSip (map (\<lambda>n. WakeTimer (exFire (Inl (TransportErr 1)) (n * second))) [90, 91, 93, 130]) exTransaction)
     = [90 * second, second, 2 * second, 4 * second]"
  using outage_tolerated [of exTransaction 0 "map (\<lambda>n. exFire (Inl (TransportErr 1)) (n * second)) [90, 91, 93]"
      "exFire (Inl (TransportErr 1)) (130 * second)" "Wrapped (TransportErr 1)" _ exSip "[]"] exCadence
  by (simp add: exTransaction_fields exchangeErr_def exFire_def exExchange_def cadence_def upt_rec)

text \<open>
  The refresh comes before the lapse. After a refresh the registrar answers with a lifetime of
  at least two seconds, the timer is set to at most three quarters of that lifetime and never to
  nothing, whatever interval the caller asked for; without a wish of the caller it is three quarters
  in whole seconds. The float arithmetic of the sources loses nothing here.
\<close>

theorem refresh_before_lapse:
  assumes "Qualify L net now t = (None, t')" "grantedExpires t' = n * second" "2 \<le> n" "n < 2 ^ 32"
  shows "lastRegistered t' = Some now \<and> 0 < cadence t' \<and> 4 * cadence t' \<le> 3 * grantedExpires t' \<and>
    now + cadence t' < now + grantedExpires t' \<and>
    (RetryInterval (opts t') \<le> 0 \<longrightarrow> cadence t' = 3 * n div 4 * second)"
proof -
  have t': "lastRegistered t' = Some now" "expiry t' = n * second"
    using assms(1,2) by (auto simp: Qualify_def recordGrant_def split: prod.splits sum.splits)
  define q where "q = 3 * n div 4"
  have q: "0 < q" "4 * q \<le> 3 * n" using assms(3) by (simp_all add: q_def)
  have c: "cadence t' = (if 0 < RetryInterval (opts t') \<and> RetryInterval (opts t') < q * second
      then RetryInterval (opts t') else q * second)"
    using calcRetry_whole [of n t'] assms(3,4) q(1) by (simp add: cadence_def t' q_def [symmetric] Let_def)
  show ?thesis using assms(2,3) q by (auto simp: t' c q_def [symmetric])
qed

theorem refresh_before_lapse_witness:
  "\<exists>t'. Qualify exSip (exExchange (Inr (exResponse 200 (Some ''60'') None))) 7 exTransaction = (None, t') \<and>
     cadence t' = 45 * second"
proof -
  let ?net = "exExchange (Inr (exResponse 200 (Some ''60'') None))"
  have g: "grantedExpiry (exResponse 200 (Some ''60'') None) d = 60 * second" for d
    by (simp add: grantedExpiry_def positiveSeconds_def exResponse_def) code_simp
  define t' where "t' = recordGrant (60 * second) 7 exTransaction"
  have q: "Qualify exSip ?net 7 exTransaction = (None, t')"
    using g by (simp add: Qualify_def doRequest_def afterDigest_def isDigestChallenge_def Let_def t'_def exSip_def
      exExchange_def exResponse_def)
  have "opts t' = exOpts" "grantedExpires t' = 60 * second" by (simp_all add: t'_def recordGrant_def exTransaction_fields)
  then show ?thesis using refresh_before_lapse [OF q, of 60] q by (simp add: exOpts_def)
qed

text \<open>Three failed probes in a row, from the \<open>k\<close>-th result on.\<close>

definition failedRow :: "'e option list \<Rightarrow> nat \<Rightarrow> bool" where
  "failedRow ps k = (k + 2 < length ps \<and> ps ! k \<noteq> None \<and> ps ! (k + 1) \<noteq> None \<and> ps ! (k + 2) \<noteq> None)"

lemma failedRow_Suc [simp]: "failedRow (p # ps) (Suc k) = failedRow ps k"
  by (simp add: failedRow_def)

fun threeInRow :: "'e option list \<Rightarrow> 'e option" where
  "threeInRow (a # b # c # ps) = (if a \<noteq> None \<and> b \<noteq> None \<and> c \<noteq> None then c else threeInRow (b # c # ps))"
| "threeInRow ps = None"

lemma threeInRow_iff:
  "threeInRow ps = Some e \<longleftrightarrow> (\<exists>k. failedRow ps k \<and> (\<forall>j<k. \<not> failedRow ps j) \<and> ps ! (k + 2) = Some e)"
proof (induction ps rule: threeInRow.induct)
  case (1 a b c ps)
  have z: "failedRow (a # b # c # ps) 0 \<longleftrightarrow> a \<noteq> None \<and> b \<noteq> None \<and> c \<noteq> None" by (simp add: failedRow_def)
  have ex: "(\<exists>k. P k) \<longleftrightarrow> P 0 \<or> (\<exists>k. P (Suc k))" for P :: "nat \<Rightarrow> bool" by (metis not0_implies_Suc)
  have shift: "(\<exists>k. failedRow (a # qs) k \<and> (\<forall>j<k. \<not> failedRow (a # qs) j) \<and> (a # qs) ! (k + 2) = Some e) \<longleftrightarrow>
      (if failedRow (a # qs) 0 then (a # qs) ! 2 = Some e
       else \<exists>k. failedRow qs k \<and> (\<forall>j<k. \<not> failedRow qs j) \<and> qs ! (k + 2) = Some e)" for qs
    by (subst ex) (auto simp: All_less_Suc2)
  show ?case using 1 by (auto simp only: shift z threeInRow.simps nth_Cons_numeral split: if_splits) auto
qed (auto simp: failedRow_def)

lemma threeInRow_reset:
  "length pre \<le> 2 \<Longrightarrow> threeInRow (pre @ None # ps) = threeInRow ps"
  by (cases pre; cases "tl pre"; cases ps; cases "tl ps"; auto)

lemma optionsKeepaliveLoop_three:
  "length pre \<le> 2 \<Longrightarrow> None \<notin> set pre \<Longrightarrow>
   optionsKeepaliveLoop 3 (int (length pre)) (map (\<lambda>p. Tick p None) ps) = threeInRow (pre @ ps)"
proof (induction ps arbitrary: pre)
  case Nil
  then show ?case by (cases pre; cases "tl pre"; auto)
next
  case (Cons p ps)
  show ?case
  proof (cases p)
    case None
    then show ?thesis using Cons.IH [of "[]"] Cons.prems by (simp add: threeInRow_reset)
  next
    case (Some e)
    show ?thesis
    proof (cases "length pre = 2")
      case True
      then obtain a b where "pre = [a, b]" by (auto simp: numeral_2_eq_2 length_Suc_conv)
      then show ?thesis using Some Cons.prems by auto
    next
      case False
      then show ?thesis using Cons.IH [of "pre @ [p]"] Cons.prems Some by (simp add: Let_def add.commute)
    qed
  qed
qed

text \<open>
  The OPTIONS keepalive declares a peer dead after exactly three failed probes in a row. On a
  live context the loop ends if and only if three consecutive probes failed, it ends at the first
  such three, with the error of the third; one answer of any kind starts the count again.
\<close>

theorem keepalive_three_in_row:
  "OptionsKeepaliveLoop (map (\<lambda>p. Tick p None) ps) = Some e \<longleftrightarrow>
    (\<exists>k. failedRow ps k \<and> (\<forall>j<k. \<not> failedRow ps j) \<and> ps ! (k + 2) = Some e)"
  using optionsKeepaliveLoop_three [of "[]" ps]
  by (simp add: OptionsKeepaliveLoop_def optionsMaxFailures_def threeInRow_iff)

theorem keepalive_three_in_row_witness:
  "OptionsKeepaliveLoop (map (\<lambda>p. Tick p None) [Some NoVia, None, Some NoVia, Some NoVia, Some (Wrapped Canceled)]) =
    Some (Wrapped Canceled)"
proof -
  let ?ps = "[Some NoVia, None, Some NoVia, Some NoVia, Some (Wrapped Canceled)]"
  have "failedRow ?ps 2" "?ps ! (2 + 2) = Some (Wrapped Canceled)" by (simp_all add: failedRow_def)
  moreover have "\<forall>j<2. \<not> failedRow ?ps j" by (auto simp: failedRow_def less_Suc_eq numeral_2_eq_2)
  ultimately show ?thesis unfolding keepalive_three_in_row by blast
qed

section \<open>Corner cases of the loop\<close>

text \<open>
  A 503 that is handed up ends the registration. Its Retry-After header is not read, although the
  sources describe the expiry as repurposed for exactly that answer.
\<close>

lemma service_unavailable_gives_up:
  assumes "StatusCode res = 503"
  shows "givesUp (RegisterResponseError res)"
  using assms by (simp add: givesUp_def)

text \<open>
  An answer whose Retry-After is used, a 500 for one, is retried after three quarters of the time
  it asks for, because the value goes through the cadence of a lifetime.
\<close>

lemma retry_after_cut_short:
  assumes "GetHeader res ''Retry-After'' = Some (formatNat n)" "2 \<le> n" "n < 2 ^ 32" "RetryInterval (opts t) \<le> 0"
  shows "cadence (setExpiry (retryAfterOf (RegisterResponseError res)) t) = 3 * int n div 4 * second"
proof -
  have b: "n < 2 ^ 63" using assms(3) by simp
  have "fst (AtoiValue (formatNat n)) = int n"
    using AtoiValue_FormatInt [of "int n"] b by (simp add: FormatInt_def)
  moreover have "wrap64 (int n * second) = int n * second" using assms(3) by (intro wrap64_id) simp_all
  ultimately have "retryAfterOf (RegisterResponseError res) = int n * second"
    using assms(1,2) by (simp add: retryAfterOf_def)
  moreover have "3 * int n div 4 \<noteq> 0" using assms(2) by linarith
  ultimately show ?thesis
    using calcRetry_whole [of "int n" "setExpiry (int n * second) t"] assms(2,3,4)
    by (simp add: cadence_def setExpiry_def Let_def)
qed

text \<open>
  A lifetime of one second is refreshed after thirty: three quarters of it are no whole second, and
  the floor against a busy loop takes over.
\<close>

lemma one_second_grant_lapses:
  assumes "RetryInterval (opts t) \<le> 0"
  shows "cadence (recordGrant (1 * second) now t) = registerRetryMin"
  using calcRetry_whole [of 1 "recordGrant (1 * second) now t"] assms
  by (simp add: cadence_def recordGrant_def)

text \<open>A 401 that carries no challenge is reported with its response, not replaced by an error of the digest.\<close>

lemma plain_unauthorized:
  assumes "doRes net = Inr res" "StatusCode res = 401" "GetHeader res ''WWW-Authenticate'' = None"
  shows "fst (Qualify L net now t) = Some (RegisterResponseError res)"
  using assms by (simp add: Qualify_def doRequest_def afterDigest_def isDigestChallenge_def Let_def)

end
