(* ===== verification/Refer_Notify.thy ===== *)
theory Refer_Notify
  imports Go_Strings Session_Timers
begin

text \<open>
  What a NOTIFY of a refer subscription says (\<open>dialog_session.go\<close>): the status line of its
  \<open>message/sipfrag\<close> body, the id of its Event header, its Subscription-State, and the duration that
  gives the subscription. The header values come through the \<open>GetHeader\<close> of the SIP library; the body
  and the content type are arguments.
\<close>

section \<open>The status line\<close>

definition sipPrefix :: string where "sipPrefix = ''SIP/2.0 ''"

definition parseSipfragStatus :: "string \<Rightarrow> (int \<times> string) option" where
  "parseSipfragStatus frag =
    (let line = (case IndexAny frag [CHR 0x0D, CHR 0x0A] of Some i \<Rightarrow> take i frag | None \<Rightarrow> frag) in
     if \<not> HasPrefix line sipPrefix then None
     else let rest = TrimSpace (drop (length sipPrefix) line) in
       (case Cut (CHR '' '') rest of (a, b, found) \<Rightarrow>
          let codeStr = (if found then a else rest);
              reason = (if found then TrimSpace b else [])
          in (case Atoi codeStr of
                None \<Rightarrow> None
              | Some code \<Rightarrow> if code < 100 \<or> 699 < code then None else Some (code, reason))))"

text \<open>The body \<open>sendNotify\<close> writes.\<close>

definition sipfragOf :: "int \<Rightarrow> string \<Rightarrow> string" where
  "sipfragOf code reason = sipPrefix @ FormatInt code @ '' '' @ reason"

section \<open>Event and subscription state\<close>

text \<open>The first parameter that starts with \<open>id=\<close> decides; one that is no 32-bit number gives no id.\<close>

fun eventIdOf :: "string list \<Rightarrow> u32 option" where
  "eventIdOf [] = None"
| "eventIdOf (part # parts) =
    (let p = TrimSpace part in
     if HasPrefix p ''id='' then map_option of_nat (ParseUint 32 (TrimSpace (drop 3 p)))
     else eventIdOf parts)"

definition parseReferNotifyEventID :: "headerGetter \<Rightarrow> u32 option" where
  "parseReferNotifyEventID req = (case GetHeader req ''Event'' of
     None \<Rightarrow> None | Some h \<Rightarrow> eventIdOf (Split (CHR '';'') h))"

definition parseReferSubscriptionState :: "headerGetter \<Rightarrow> string option" where
  "parseReferSubscriptionState req = GetHeader req ''Subscription-State''"

definition referSubscriptionTerminated :: "string \<Rightarrow> bool" where
  "referSubscriptionTerminated val = EqualFold (TrimSpace (fst (Cut (CHR '';'') val))) ''terminated''"

fun expiresOf :: "string list \<Rightarrow> u32 option" where
  "expiresOf [] = None"
| "expiresOf (param # params) =
    (case Cut (CHR ''='') param of (name, v, found) \<Rightarrow>
       if \<not> found \<or> \<not> EqualFold (TrimSpace name) ''expires'' then expiresOf params
       else map_option of_nat (ParseUint 32 (TrimSpace v)))"

definition referSubscriptionExpires :: "string \<Rightarrow> u32 option" where
  "referSubscriptionExpires val = expiresOf (Split (CHR '';'') (fst (snd (Cut (CHR '';'') val))))"

section \<open>A NOTIFY\<close>

text \<open>An absent Event id or Subscription-State is \<^term>\<open>None\<close>.\<close>

record ReferNotify =
  Status :: int
  Reason :: string
  SubscriptionState :: "string option"
  EventID :: "u32 option"

definition isFinal :: "ReferNotify \<Rightarrow> bool" where
  "isFinal n = (200 \<le> Status n)"

definition endsSubscription :: "ReferNotify \<Rightarrow> bool" where
  "endsSubscription n = (isFinal n \<or>
     (case SubscriptionState n of Some v \<Rightarrow> referSubscriptionTerminated v | None \<Rightarrow> False))"

text \<open>Sixty-four times T1, with the T1 of the SIP library, and the local limit of an hour.\<close>

definition timerN :: "duration \<Rightarrow> duration" where "timerN t1 = 64 * t1"

definition referSubscriptionMaxBound :: duration where "referSubscriptionMaxBound = 3600 * second"

definition referSubscriptionBound :: "duration \<Rightarrow> ReferNotify \<Rightarrow> duration" where
  "referSubscriptionBound t1 n =
    (case Option.bind (SubscriptionState n) referSubscriptionExpires of
       Some seconds \<Rightarrow> min (secs seconds) referSubscriptionMaxBound
     | None \<Rightarrow> timerN t1)"

definition parseReferNotify :: "headerGetter \<Rightarrow> string option \<Rightarrow> string \<Rightarrow> ReferNotify option" where
  "parseReferNotify req contentType frag =
    (case contentType of
       None \<Rightarrow> None
     | Some ct \<Rightarrow>
         if \<not> HasPrefix ct ''message/sipfrag'' \<or> length frag < length ''SIP/2.0 100 xx'' then None
         else (case parseSipfragStatus frag of
                 None \<Rightarrow> None
               | Some (status, reason) \<Rightarrow>
                   Some \<lparr>Status = status, Reason = reason, SubscriptionState = parseReferSubscriptionState req,
                         EventID = parseReferNotifyEventID req\<rparr>))"

section \<open>What the parsers promise\<close>

lemma parseSipfragStatus_range: "parseSipfragStatus frag = Some (code, reason) \<Longrightarrow> 100 \<le> code \<and> code \<le> 699"
  by (auto simp: parseSipfragStatus_def Let_def split: if_splits option.splits prod.splits)

lemma IndexAny_none: "list_all (\<lambda>c. c \<notin> set cs) s \<Longrightarrow> IndexAny s cs = None"
  by (induction s) auto

lemma TrimSpace_ends:
  assumes "s = [] \<or> \<not> isSpace (hd s) \<and> \<not> isSpace (last s)"
  shows "TrimSpace s = s"
proof -
  have "dropWhile isSpace s = s" using assms by (auto simp: dropWhile_eq_self_iff)
  moreover have "dropWhile isSpace (rev s) = rev s" using assms by (auto simp: dropWhile_eq_self_iff hd_rev)
  ultimately show ?thesis by (simp add: TrimSpace_def)
qed

text \<open>A reason phrase as the SIP grammar has it: no line break, no white space at its ends.\<close>

definition reasonPhrase :: "string \<Rightarrow> bool" where
  "reasonPhrase r = (list_all (\<lambda>c. c \<noteq> CHR 0x0D \<and> c \<noteq> CHR 0x0A) r \<and> (r = [] \<or> \<not> isSpace (hd r) \<and> \<not> isSpace (last r)))"

lemma FormatInt_code:
  assumes "100 \<le> code" "code \<le> 699"
  shows "FormatInt code = formatNat (nat code)" "Atoi (formatNat (nat code)) = Some code"
proof -
  show f: "FormatInt code = formatNat (nat code)" using assms by (simp add: FormatInt_def)
  have "- (2 ^ 63) \<le> code" "code < 2 ^ 63" using assms by simp_all
  from AtoiValue_FormatInt [OF this] show "Atoi (formatNat (nat code)) = Some code" by (simp add: Atoi_def f)
qed

lemma digits_no_space: "list_all isDigit s \<Longrightarrow> list_all (\<lambda>c. \<not> isSpace c) s"
  using isDigit_not_space by (auto simp: list_all_iff)

lemma digits_no_break: "list_all isDigit s \<Longrightarrow> list_all (\<lambda>c. c \<noteq> CHR 0x0D \<and> c \<noteq> CHR 0x0A) s"
proof (induction s)
  case (Cons c s)
  have "c \<noteq> CHR 0x0D" "c \<noteq> CHR 0x0A" using Cons.prems by (auto simp: isDigit_def)
  then show ?case using Cons by simp
qed simp

text \<open>
  The body of a NOTIFY reads back as written. The status line \<open>sendNotify\<close> writes for a status
  code and a reason phrase is parsed into that code and that phrase by the other end, an empty
  phrase included; and what is accepted of any body has a code between 100 and 699.
\<close>

theorem sipfrag_roundtrip:
  assumes "100 \<le> code" "code \<le> 699" "reasonPhrase reason"
  shows "parseSipfragStatus (sipfragOf code reason) = Some (code, reason)"
proof -
  define d where "d = formatNat (nat code)"
  have d: "list_all isDigit d" "d \<noteq> []" using formatNat_digits by (simp_all add: d_def)
  have ns: "\<not> isSpace (hd d)" "\<not> isSpace (last d)" "CHR '' '' \<notin> set d"
    using digits_no_space [OF d(1)] d(2) by (auto simp: list_all_iff isSpace_def)
  have frag: "sipfragOf code reason = sipPrefix @ d @ '' '' @ reason"
    using FormatInt_code [OF assms(1,2)] by (simp add: sipfragOf_def d_def)
  have "list_all (\<lambda>c. c \<notin> set [CHR 0x0D, CHR 0x0A]) (sipfragOf code reason)"
    using assms(3) digits_no_break [OF d(1)] by (simp add: frag reasonPhrase_def sipPrefix_def)
  then have line: "IndexAny (sipfragOf code reason) [CHR 0x0D, CHR 0x0A] = None" by (rule IndexAny_none)
  have rest: "drop (length sipPrefix) (sipfragOf code reason) = d @ CHR '' '' # reason" by (simp add: frag)
  have code: "Atoi d = Some code" using FormatInt_code [OF assms(1,2)] by (simp add: d_def)
  have pre: "HasPrefix (sipfragOf code reason) sipPrefix" by (simp add: frag)
  have parse: "parseSipfragStatus (sipfragOf code reason) = Some (code, r)"
    if "Cut (CHR '' '') (TrimSpace (d @ CHR '' '' # reason)) = (d, b, found)" "\<not> found \<longrightarrow> TrimSpace (d @ CHR '' '' # reason) = d"
      "r = (if found then TrimSpace b else [])" for b found r
    using that code assms(1,2) by (auto simp: parseSipfragStatus_def line pre rest Let_def)
  show ?thesis
  proof (cases "reason = []")
    case True
    have "dropWhile isSpace (d @ '' '') = d @ '' ''" "dropWhile isSpace (rev d) = rev d" "isSpace (CHR '' '')"
      using ns d(2) by (simp_all add: dropWhile_eq_self_iff hd_rev) (simp add: isSpace_def)
    then have "TrimSpace (d @ '' '') = d" by (simp add: TrimSpace_def)
    then show ?thesis using True Cut_none [OF ns(3)] by (intro parse [of "[]" False]) simp_all
  next
    case False
    have "TrimSpace (d @ CHR '' '' # reason) = d @ CHR '' '' # reason" "TrimSpace reason = reason"
      using False assms(3) ns(1) d(2) by (auto intro!: TrimSpace_ends simp: reasonPhrase_def)
    then show ?thesis using Cut_append [OF ns(3), of reason] by (intro parse [of reason True]) simp_all
  qed
qed

theorem sipfrag_roundtrip_witness:
  "parseSipfragStatus (sipfragOf 486 ''Busy Here'') = Some (486, ''Busy Here'')"
  using sipfrag_roundtrip [of 486 "''Busy Here''"] by (simp add: reasonPhrase_def isSpace_def)

text \<open>The duration a NOTIFY gives its subscription is bounded whatever it says.\<close>

lemma referSubscriptionBound_le:
  "referSubscriptionBound t1 n \<le> max (timerN t1) referSubscriptionMaxBound"
  by (auto simp: referSubscriptionBound_def split: option.splits)

end
