(* ===== verification/Refer_Attempts.thy ===== *)
theory Refer_Attempts
  imports Refer_Notify
begin

text \<open>
  The REFER attempts of a dialog (\<open>dialog_media.go\<close>, \<open>dialog_session.go\<close>): an attempt is one REFER
  and the subscription it creates, which ends with a NOTIFY, at its deadline, by a refusal or because
  the caller gives it up. Attempts are pointers of the sources: a store maps them to their fields. The
  channel \<open>done\<close> is the number of times it was closed, since a second close would panic.

  The step relation \<open>refer_step\<close> interleaves, under the lock \<open>referMu\<close>, the calls of
  \<open>dialogReferObserve\<close> for each attempt with the NOTIFYs that arrive and the timers that fire.
\<close>

section \<open>State\<close>

datatype ReferEnd = ReferEndFinalNotify | ReferEndRefused | ReferEndCancelled | ReferEndSubscriptionEnded
  | ReferEndSubscriptionExpired | ReferEndNoNotify

definition maxReferNotifies :: nat where "maxReferNotifies = 32"

text \<open>An attempt that has not ended has no end; the sources use the zero value for that.\<close>

record referAttempt =
  attCSeq :: u32
  cseqKnown :: bool
  registered :: bool
  attEnd :: "ReferEnd option"
  notifies :: "ReferNotify list"
  dropped :: nat
  notified :: bool
  deadline :: "instant option"
  hasBound :: bool
  boundArmed :: nat
  doneCloses :: nat

definition newAttempt :: referAttempt where
  "newAttempt = \<lparr>attCSeq = 0, cseqKnown = False, registered = True, attEnd = None, notifies = [], dropped = 0,
     notified = False, deadline = None, hasBound = False, boundArmed = 0, doneCloses = 0\<rparr>"

record referState =
  store :: "nat \<Rightarrow> referAttempt"
  nextAttempt :: nat
  referAttempts :: "nat list"
  referHighestCSeq :: u32
  referLatest :: "nat option"

definition setAttempt :: "nat \<Rightarrow> (referAttempt \<Rightarrow> referAttempt) \<Rightarrow> 'a referState_scheme \<Rightarrow> 'a referState_scheme" where
  "setAttempt a f s = s\<lparr>store := (store s)(a := f (store s a))\<rparr>"

section \<open>Operations\<close>

definition beginReferAttempt :: "'a referState_scheme \<Rightarrow> nat \<times> 'a referState_scheme" where
  "beginReferAttempt s = (nextAttempt s,
     s\<lparr>store := (store s)(nextAttempt s := newAttempt), nextAttempt := Suc (nextAttempt s),
       referAttempts := referAttempts s @ [nextAttempt s], referLatest := Some (nextAttempt s)\<rparr>)"

definition setReferAttemptCSeq :: "nat \<Rightarrow> u32 \<Rightarrow> 'a referState_scheme \<Rightarrow> 'a referState_scheme" where
  "setReferAttemptCSeq a c s =
    setAttempt a (\<lambda>r. r\<lparr>attCSeq := c, cseqKnown := True\<rparr>)
      (if referHighestCSeq s < c then s\<lparr>referHighestCSeq := c\<rparr> else s)"

definition armReferBound :: "nat \<Rightarrow> instant \<Rightarrow> 'a referState_scheme \<Rightarrow> 'a referState_scheme" where
  "armReferBound a d s =
    setAttempt a (\<lambda>r. r\<lparr>hasBound := True, boundArmed := Suc (boundArmed r), deadline := Some d\<rparr>) s"

definition startReferSubscription :: "duration \<Rightarrow> instant \<Rightarrow> nat \<Rightarrow> 'a referState_scheme \<Rightarrow> 'a referState_scheme" where
  "startReferSubscription t1 now a s =
    (if attEnd (store s a) \<noteq> None \<or> hasBound (store s a) then s else armReferBound a (now + timerN t1) s)"

definition retireReferAttempt :: "nat \<Rightarrow> 'a referState_scheme \<Rightarrow> 'a referState_scheme" where
  "retireReferAttempt a s =
    (if \<not> registered (store s a) then s
     else (setAttempt a (\<lambda>r. r\<lparr>registered := False, doneCloses := Suc (doneCloses r)\<rparr>) s)
       \<lparr>referAttempts := filter (\<lambda>b. b \<noteq> a) (referAttempts s)\<rparr>)"

definition endOnBound :: "nat \<Rightarrow> 'a referState_scheme \<Rightarrow> 'a referState_scheme" where
  "endOnBound a s = retireReferAttempt a
    (setAttempt a (\<lambda>r. r\<lparr>attEnd := Some (if notified r then ReferEndSubscriptionExpired else ReferEndNoNotify)\<rparr>) s)"

definition endReferAttemptOnItsBound :: "nat \<Rightarrow> nat \<Rightarrow> 'a referState_scheme \<Rightarrow> 'a referState_scheme" where
  "endReferAttemptOnItsBound a armed s =
    (if attEnd (store s a) \<noteq> None \<or> boundArmed (store s a) \<noteq> armed then s else endOnBound a s)"

definition referNotifyTarget :: "ReferNotify \<Rightarrow> 'a referState_scheme \<Rightarrow> nat option" where
  "referNotifyTarget n s = (case EventID n of
     Some i \<Rightarrow>
       (case find (\<lambda>a. cseqKnown (store s a) \<and> attCSeq (store s a) = i) (referAttempts s) of
          Some a \<Rightarrow> Some a
        | None \<Rightarrow>
            let awaitingCSeq = length (filter (\<lambda>a. \<not> cseqKnown (store s a)) (referAttempts s)) in
            (case referLatest s of
               Some l \<Rightarrow> if registered (store s l) \<and> \<not> cseqKnown (store s l) \<and> awaitingCSeq = 1 \<and> referHighestCSeq s < i
                 then Some l else None
             | None \<Rightarrow> None))
   | None \<Rightarrow>
       (case referLatest s of Some l \<Rightarrow> if registered (store s l) then Some l else None | None \<Rightarrow> None))"

definition recordNotify :: "ReferNotify \<Rightarrow> referAttempt \<Rightarrow> referAttempt" where
  "recordNotify n r =
    (let r = (if length (notifies r) < maxReferNotifies then r\<lparr>notifies := notifies r @ [n]\<rparr>
              else if endsSubscription n
                then r\<lparr>notifies := (notifies r)[length (notifies r) - 1 := n], dropped := Suc (dropped r)\<rparr>
              else r\<lparr>dropped := Suc (dropped r)\<rparr>);
         r = r\<lparr>notified := True\<rparr>
     in if isFinal n then r\<lparr>attEnd := Some ReferEndFinalNotify\<rparr>
        else if endsSubscription n then r\<lparr>attEnd := Some ReferEndSubscriptionEnded\<rparr> else r)"

text \<open>
  The deadline of an attempt that has been notified is always set, by \<open>refer_inv\<close> below, so the
  comparison with the zero time, which the sources would make without one, does not arise.
\<close>

definition recordReferNotify ::
  "duration \<Rightarrow> instant \<Rightarrow> ReferNotify \<Rightarrow> 'a referState_scheme \<Rightarrow> nat option \<times> 'a referState_scheme" where
  "recordReferNotify t1 now n s =
    (case referNotifyTarget n s of
       None \<Rightarrow> (None, s)
     | Some a \<Rightarrow>
         let r = store s a in
         if attEnd r \<noteq> None then (None, s)
         else if (case deadline r of Some d \<Rightarrow> d \<le> now | None \<Rightarrow> False) then (None, endOnBound a s)
         else let s' = setAttempt a (recordNotify n) s in
           if attEnd (store s' a) \<noteq> None then (Some a, s')
           else let d = now + referSubscriptionBound t1 n;
                    d = (case deadline r of Some e \<Rightarrow> if notified r \<and> e < d then e else d | None \<Rightarrow> d)
             in (Some a, armReferBound a d s'))"

definition retireEndedReferAttempt :: "nat \<Rightarrow> 'a referState_scheme \<Rightarrow> 'a referState_scheme" where
  "retireEndedReferAttempt a s = (if attEnd (store s a) \<noteq> None then retireReferAttempt a s else s)"

definition referNotifyExpected :: "bool \<Rightarrow> u32 option \<Rightarrow> 'a referState_scheme \<Rightarrow> bool" where
  "referNotifyExpected onNotify i s = (onNotify \<or>
    (case referNotifyTarget \<lparr>Status = 0, Reason = [], SubscriptionState = None, EventID = i\<rparr> s of
       Some a \<Rightarrow> attEnd (store s a) = None | None \<Rightarrow> False))"

record ReferObservation =
  ObsEnd :: "ReferEnd option"
  ObsCSeq :: "u32 option"
  ObsNotifies :: "ReferNotify list"
  NotifiesDropped :: nat

definition finishReferAttempt ::
  "nat \<Rightarrow> ReferEnd option \<Rightarrow> 'a referState_scheme \<Rightarrow> ReferObservation \<times> 'a referState_scheme" where
  "finishReferAttempt a e s =
    (let s = (if attEnd (store s a) = None \<or> e = Some ReferEndRefused then setAttempt a (\<lambda>r. r\<lparr>attEnd := e\<rparr>) s else s);
         s = retireReferAttempt a s; r = store s a
     in (\<lparr>ObsEnd = attEnd r, ObsCSeq = (if cseqKnown r then Some (attCSeq r) else None), ObsNotifies = notifies r,
          NotifiesDropped = dropped r\<rparr>, s))"

definition dropReferAttempt :: "nat \<Rightarrow> 'a referState_scheme \<Rightarrow> 'a referState_scheme" where
  "dropReferAttempt a s = retireReferAttempt a s"

section \<open>Requests\<close>

text \<open>
  What the handler of a NOTIFY does: the status it answers with, whether the NOTIFY is reported as
  unmatched, and whether the callback of \<open>ReferOptions\<close> is told its status.
\<close>

record notifyReply =
  answerCode :: int
  unmatched :: bool
  toldCallback :: bool

definition dialogHandleReferNotify ::
  "duration \<Rightarrow> instant \<Rightarrow> bool \<Rightarrow> ReferNotify option \<Rightarrow> 'a referState_scheme \<Rightarrow> notifyReply \<times> 'a referState_scheme" where
  "dialogHandleReferNotify t1 now onNotify parsed s = (case parsed of
     None \<Rightarrow> (\<lparr>answerCode = 400, unmatched = False, toldCallback = False\<rparr>, s)
   | Some n \<Rightarrow>
       (case recordReferNotify t1 now n s of (attempt, s) \<Rightarrow>
          if attempt = None \<and> \<not> onNotify then (\<lparr>answerCode = 481, unmatched = True, toldCallback = False\<rparr>, s)
          else (\<lparr>answerCode = 200, unmatched = False, toldCallback = onNotify\<rparr>,
                case attempt of Some a \<Rightarrow> retireEndedReferAttempt a s | None \<Rightarrow> s)))"

text \<open>
  On an ended dialog a NOTIFY nothing waits for is answered 481, and one an open attempt holds is
  handled as on a live one.
\<close>

definition handleReferNotify ::
  "duration \<Rightarrow> instant \<Rightarrow> bool \<Rightarrow> bool \<Rightarrow> u32 option \<Rightarrow> ReferNotify option \<Rightarrow> 'a referState_scheme \<Rightarrow>
   notifyReply \<times> 'a referState_scheme" where
  "handleReferNotify t1 now ended onNotify i parsed s =
    (if ended \<and> \<not> referNotifyExpected onNotify i s
     then (\<lparr>answerCode = 481, unmatched = (parsed \<noteq> None), toldCallback = False\<rparr>, s)
     else dialogHandleReferNotify t1 now onNotify parsed s)"

definition referAccepted :: "int \<Rightarrow> bool" where
  "referAccepted status = (200 \<le> status \<and> status \<le> 299)"

text \<open>What a waiting \<open>dialogRefer\<close> makes of an observation; \<^term>\<open>None\<close> is success.\<close>

datatype referResult = DialogResponseError | ReferFailure int string | ReferEndedAs

definition dialogReferResult :: "ReferObservation \<Rightarrow> referResult option" where
  "dialogReferResult ob = (case ObsEnd ob of
     Some ReferEndRefused \<Rightarrow> Some DialogResponseError
   | Some ReferEndFinalNotify \<Rightarrow>
       (if ObsNotifies ob = [] then None
        else if Status (last (ObsNotifies ob)) < 300 then None
        else Some (ReferFailure (Status (last (ObsNotifies ob))) (Reason (last (ObsNotifies ob)))))
   | Some ReferEndSubscriptionExpired \<Rightarrow> Some (ReferFailure 0 ''timeout'')
   | Some ReferEndNoNotify \<Rightarrow> Some (ReferFailure 0 ''timeout'')
   | Some ReferEndCancelled \<Rightarrow> Some (ReferFailure 0 ''cancelled'')
   | Some ReferEndSubscriptionEnded \<Rightarrow> Some (ReferFailure 0 ''subscription ended'')
   | None \<Rightarrow> Some ReferEndedAs)"

section \<open>The system\<close>

text \<open>
  Where the call of \<open>dialogReferObserve\<close> for an attempt is: it has registered the attempt and sends
  the REFER, it waits for the end of the subscription, or it has returned. The ghost fields are the
  instant of the 2xx and of the first NOTIFY of an attempt.
\<close>

datatype phase = Sending | Subscribed | Finished

record refer_sys = referState +
  clock :: instant
  phaseOf :: "nat \<Rightarrow> phase"
  observed :: "nat \<Rightarrow> ReferObservation option"
  acceptedAt :: "nat \<Rightarrow> instant option"
  firstNotifyAt :: "nat \<Rightarrow> instant option"

datatype refer_label = Begin | SetCSeq nat u32 | Refuse nat | CancelSend nat | Drop nat | Accept nat instant
  | GiveUp nat | DoneClosed nat | Notify ReferNotify instant | RetireEnded nat | BoundFires nat nat instant

definition finishSys :: "nat \<Rightarrow> ReferEnd option \<Rightarrow> refer_sys \<Rightarrow> refer_sys" where
  "finishSys a e s = (case finishReferAttempt a e s of (ob, s') \<Rightarrow>
     s'\<lparr>phaseOf := (phaseOf s)(a := Finished), observed := (observed s)(a := Some ob)\<rparr>)"

definition notifySys :: "duration \<Rightarrow> instant \<Rightarrow> ReferNotify \<Rightarrow> refer_sys \<Rightarrow> refer_sys" where
  "notifySys t1 now n s = (case recordReferNotify t1 now n s of
     (None, s') \<Rightarrow> s'\<lparr>clock := now\<rparr>
   | (Some a, s') \<Rightarrow> s'\<lparr>clock := now, firstNotifyAt := (firstNotifyAt s)(a :=
       (case firstNotifyAt s a of None \<Rightarrow> Some now | f \<Rightarrow> f))\<rparr>)"

inductive refer_step :: "duration \<Rightarrow> refer_sys \<Rightarrow> refer_label \<Rightarrow> refer_sys \<Rightarrow> bool" for t1 :: duration where
  step_begin: "beginReferAttempt s = (a, s') \<Longrightarrow>
    refer_step t1 s Begin (s'\<lparr>phaseOf := (phaseOf s)(a := Sending)\<rparr>)"
| step_cseq: "a < nextAttempt s \<Longrightarrow> phaseOf s a = Sending \<Longrightarrow> refer_step t1 s (SetCSeq a c) (setReferAttemptCSeq a c s)"
| step_refuse: "a < nextAttempt s \<Longrightarrow> phaseOf s a = Sending \<Longrightarrow>
    refer_step t1 s (Refuse a) (finishSys a (Some ReferEndRefused) s)"
| step_cancel_send: "a < nextAttempt s \<Longrightarrow> phaseOf s a = Sending \<Longrightarrow>
    refer_step t1 s (CancelSend a) (finishSys a (Some ReferEndCancelled) s)"
| step_drop: "a < nextAttempt s \<Longrightarrow> phaseOf s a = Sending \<Longrightarrow>
    refer_step t1 s (Drop a) ((dropReferAttempt a s)\<lparr>phaseOf := (phaseOf s)(a := Finished)\<rparr>)"
| step_accept: "a < nextAttempt s \<Longrightarrow> phaseOf s a = Sending \<Longrightarrow> clock s \<le> now \<Longrightarrow>
    refer_step t1 s (Accept a now) ((startReferSubscription t1 now a s)
      \<lparr>clock := now, phaseOf := (phaseOf s)(a := Subscribed), acceptedAt := (acceptedAt s)(a := Some now)\<rparr>)"
| step_give_up: "a < nextAttempt s \<Longrightarrow> phaseOf s a = Subscribed \<Longrightarrow>
    refer_step t1 s (GiveUp a) (finishSys a (Some ReferEndCancelled) s)"
| step_done: "a < nextAttempt s \<Longrightarrow> phaseOf s a = Subscribed \<Longrightarrow> 0 < doneCloses (store s a) \<Longrightarrow>
    refer_step t1 s (DoneClosed a) (finishSys a None s)"
| step_notify: "clock s \<le> now \<Longrightarrow> refer_step t1 s (Notify n now) (notifySys t1 now n s)"
| step_retire: "a < nextAttempt s \<Longrightarrow> refer_step t1 s (RetireEnded a) (retireEndedReferAttempt a s)"
| step_fire: "a < nextAttempt s \<Longrightarrow> clock s \<le> now \<Longrightarrow> armed \<le> boundArmed (store s a) \<Longrightarrow>
    (armed = boundArmed (store s a) \<longrightarrow> (\<exists>d. deadline (store s a) = Some d \<and> d \<le> now)) \<Longrightarrow>
    refer_step t1 s (BoundFires a armed now) ((endReferAttemptOnItsBound a armed s)\<lparr>clock := now\<rparr>)"

definition refer_init :: "refer_sys \<Rightarrow> bool" where
  "refer_init s = (nextAttempt s = 0 \<and> referAttempts s = [] \<and> referHighestCSeq s = 0 \<and> referLatest s = None \<and>
     observed s = (\<lambda>a. None) \<and> acceptedAt s = (\<lambda>a. None) \<and> firstNotifyAt s = (\<lambda>a. None))"

section \<open>The invariant of an attempt\<close>

text \<open>What an attempt has recorded fits how it ended; only the last NOTIFY can be one that ends a subscription.\<close>

definition endFits :: "ReferEnd option \<Rightarrow> ReferNotify list \<Rightarrow> bool" where
  "endFits e ns = (case e of
     Some ReferEndFinalNotify \<Rightarrow> ns \<noteq> [] \<and> isFinal (last ns)
   | Some ReferEndSubscriptionEnded \<Rightarrow> ns \<noteq> [] \<and> endsSubscription (last ns) \<and> \<not> isFinal (last ns)
   | Some ReferEndNoNotify \<Rightarrow> ns = []
   | Some ReferEndSubscriptionExpired \<Rightarrow> ns \<noteq> [] \<and> (\<forall>n \<in> set ns. \<not> endsSubscription n)
   | Some ReferEndRefused \<Rightarrow> True
   | _ \<Rightarrow> \<forall>n \<in> set ns. \<not> endsSubscription n)"

definition attRecord :: "referAttempt \<Rightarrow> bool" where
  "attRecord r = (length (notifies r) \<le> maxReferNotifies \<and> (notified r \<longleftrightarrow> notifies r \<noteq> []) \<and>
     (\<forall>n \<in> set (butlast (notifies r)). \<not> endsSubscription n) \<and> endFits (attEnd r) (notifies r) \<and>
     doneCloses r = (if registered r then 0 else 1) \<and> (hasBound r \<longleftrightarrow> deadline r \<noteq> None))"

text \<open>
  The deadline of an open attempt: sixty-four T1 after the 2xx until the first NOTIFY, which has to
  come before that, and then at most an hour, or sixty-four T1, after it.
\<close>

definition attTiming :: "duration \<Rightarrow> instant \<Rightarrow> instant option \<Rightarrow> instant option \<Rightarrow> referAttempt \<Rightarrow> bool" where
  "attTiming t1 clk acc ntf r =
    ((notified r \<longleftrightarrow> ntf \<noteq> None) \<and> (\<forall>F. ntf = Some F \<longrightarrow> F \<le> clk) \<and> (\<forall>A. acc = Some A \<longrightarrow> A \<le> clk) \<and>
     (attEnd r = None \<and> ntf = None \<longrightarrow> deadline r = map_option (\<lambda>A. A + timerN t1) acc) \<and>
     (\<forall>F. attEnd r = None \<and> ntf = Some F \<longrightarrow>
        (\<exists>D. deadline r = Some D \<and> D \<le> F + max (timerN t1) referSubscriptionMaxBound)) \<and>
     (\<forall>F A. ntf = Some F \<and> acc = Some A \<longrightarrow> F < A + timerN t1))"

definition attInv ::
  "duration \<Rightarrow> instant \<Rightarrow> u32 \<Rightarrow> phase \<Rightarrow> instant option \<Rightarrow> instant option \<Rightarrow> ReferObservation option \<Rightarrow> referAttempt \<Rightarrow> bool" where
  "attInv t1 clk hi ph acc ntf ob r =
    (attRecord r \<and> attTiming t1 clk acc ntf r \<and> (cseqKnown r \<longrightarrow> attCSeq r \<le> hi) \<and>
     (registered r \<longrightarrow> ph \<noteq> Finished) \<and> (\<not> registered r \<and> ph \<noteq> Finished \<longrightarrow> attEnd r \<noteq> None) \<and>
     (ph = Sending \<longrightarrow> acc = None) \<and> (ph = Subscribed \<longrightarrow> acc \<noteq> None) \<and>
     (\<forall>b. ob = Some b \<longrightarrow> ObsEnd b \<noteq> None \<and> endFits (ObsEnd b) (ObsNotifies b)))"

definition refer_inv :: "duration \<Rightarrow> refer_sys \<Rightarrow> bool" where
  "refer_inv t1 s = (distinct (referAttempts s) \<and>
     (\<forall>a. a \<in> set (referAttempts s) \<longleftrightarrow> a < nextAttempt s \<and> registered (store s a)) \<and>
     referLatest s = (case nextAttempt s of 0 \<Rightarrow> None | Suc a \<Rightarrow> Some a) \<and>
     (\<forall>a < nextAttempt s. attInv t1 (clock s) (referHighestCSeq s) (phaseOf s a) (acceptedAt s a) (firstNotifyAt s a)
        (observed s a) (store s a)) \<and>
     (\<forall>a \<ge> nextAttempt s. acceptedAt s a = None \<and> firstNotifyAt s a = None \<and> observed s a = None))"

lemma attTiming_mono: "attTiming t1 clk acc ntf r \<Longrightarrow> clk \<le> clk' \<Longrightarrow> attTiming t1 clk' acc ntf r"
  by (fastforce simp: attTiming_def)

lemma attInv_mono:
  "attInv t1 clk hi ph acc ntf ob r \<Longrightarrow> clk \<le> clk' \<Longrightarrow> hi \<le> hi' \<Longrightarrow> attInv t1 clk' hi' ph acc ntf ob r"
  unfolding attInv_def using attTiming_mono by (auto intro: order_trans)

text \<open>A step changes one attempt, so the invariant is re-established for that one.\<close>

lemma refer_inv_update:
  assumes inv: "refer_inv t1 s" and a: "a < nextAttempt s"
    and att: "attInv t1 clk hi ph acc ntf ob r"
    and mono: "clock s \<le> clk" "referHighestCSeq s \<le> hi" "registered r \<longrightarrow> registered (store s a)"
    and t: "store t = (store s)(a := r)" "nextAttempt t = nextAttempt s" "referLatest t = referLatest s"
      "referAttempts t = (if registered r then referAttempts s else filter (\<lambda>b. b \<noteq> a) (referAttempts s))"
      "referHighestCSeq t = hi" "clock t = clk" "phaseOf t = (phaseOf s)(a := ph)" "observed t = (observed s)(a := ob)"
      "acceptedAt t = (acceptedAt s)(a := acc)" "firstNotifyAt t = (firstNotifyAt s)(a := ntf)"
  shows "refer_inv t1 t"
proof -
  have "distinct (referAttempts t)" using inv t by (simp add: refer_inv_def)
  moreover have "b \<in> set (referAttempts t) \<longleftrightarrow> b < nextAttempt t \<and> registered (store t b)" for b
    using inv a mono(3) t by (auto simp: refer_inv_def)
  moreover have "attInv t1 (clock t) (referHighestCSeq t) (phaseOf t b) (acceptedAt t b) (firstNotifyAt t b) (observed t b) (store t b)"
    if "b < nextAttempt t" for b
    using inv att attInv_mono [OF _ mono(1,2)] t that by (simp add: refer_inv_def)
  ultimately show ?thesis using inv a t by (simp add: refer_inv_def)
qed

lemma refer_inv_att:
  "refer_inv t1 s \<Longrightarrow> a < nextAttempt s \<Longrightarrow>
   attInv t1 (clock s) (referHighestCSeq s) (phaseOf s a) (acceptedAt s a) (firstNotifyAt s a) (observed s a) (store s a)"
  by (simp add: refer_inv_def)

lemma refer_inv_same:
  assumes "refer_inv t1 s" "clock s \<le> clk"
  shows "refer_inv t1 (s\<lparr>clock := clk\<rparr>)"
  using assms attInv_mono [OF _ assms(2) order_refl] by (simp add: refer_inv_def)

text \<open>Retiring an attempt.\<close>

definition retired :: "referAttempt \<Rightarrow> referAttempt" where
  "retired r = (if registered r then r\<lparr>registered := False, doneCloses := Suc (doneCloses r)\<rparr> else r)"

lemma retire_fields:
  assumes "refer_inv t1 s" "a < nextAttempt s" "registered (store s' a) = registered (store s a)"
    "referAttempts s' = referAttempts s"
  shows "store (retireReferAttempt a s') = (store s')(a := retired (store s' a))"
    "referAttempts (retireReferAttempt a s') = filter (\<lambda>b. b \<noteq> a) (referAttempts s)"
proof -
  have "\<not> registered (store s a) \<Longrightarrow> filter (\<lambda>b. b \<noteq> a) (referAttempts s) = referAttempts s"
    using assms(1) by (auto simp: refer_inv_def filter_id_conv)
  then show "store (retireReferAttempt a s') = (store s')(a := retired (store s' a))"
    "referAttempts (retireReferAttempt a s') = filter (\<lambda>b. b \<noteq> a) (referAttempts s)"
    using assms(3,4) by (auto simp: retireReferAttempt_def setAttempt_def retired_def)
qed

lemma retire_frame [simp]:
  "nextAttempt (retireReferAttempt a s) = nextAttempt s" "referLatest (retireReferAttempt a s) = referLatest s"
  "referHighestCSeq (retireReferAttempt a s) = referHighestCSeq s" "clock (retireReferAttempt a u) = clock u"
  "phaseOf (retireReferAttempt a u) = phaseOf u" "observed (retireReferAttempt a u) = observed u"
  "acceptedAt (retireReferAttempt a u) = acceptedAt u" "firstNotifyAt (retireReferAttempt a u) = firstNotifyAt u"
  for u :: refer_sys
  by (simp_all add: retireReferAttempt_def setAttempt_def)

lemma setAttempt_frame [simp]:
  "store (setAttempt a f s) = (store s)(a := f (store s a))"
  "nextAttempt (setAttempt a f s) = nextAttempt s" "referLatest (setAttempt a f s) = referLatest s"
  "referAttempts (setAttempt a f s) = referAttempts s"
  "referHighestCSeq (setAttempt a f s) = referHighestCSeq s" "clock (setAttempt a f u) = clock u"
  "phaseOf (setAttempt a f u) = phaseOf u" "observed (setAttempt a f u) = observed u"
  "acceptedAt (setAttempt a f u) = acceptedAt u" "firstNotifyAt (setAttempt a f u) = firstNotifyAt u"
  for u :: refer_sys
  by (simp_all add: setAttempt_def)

lemma retired_fields [simp]:
  "registered (retired r) = False" "attEnd (retired r) = attEnd r" "notifies (retired r) = notifies r"
  "notified (retired r) = notified r" "deadline (retired r) = deadline r" "hasBound (retired r) = hasBound r"
  "cseqKnown (retired r) = cseqKnown r" "attCSeq (retired r) = attCSeq r" "dropped (retired r) = dropped r"
  "doneCloses (retired r) = (if registered r then Suc (doneCloses r) else doneCloses r)"
  by (simp_all add: retired_def)

lemma attInvD:
  assumes "attInv t1 clk hi ph acc ntf ob r"
  shows "attRecord r" "attTiming t1 clk acc ntf r" "endFits (attEnd r) (notifies r)"
  using assms by (simp_all add: attInv_def attRecord_def)

lemma attInv_ended:
  assumes "attInv t1 clk hi ph acc ntf ob r" "attEnd r = None \<or> e = attEnd r \<or> e = Some ReferEndRefused"
    "e \<noteq> None" "endFits e (notifies r)" "ph' = ph \<or> ph' = Finished" "ob' = ob \<or> ob' = Some b \<and> ObsEnd b = e \<and> ObsNotifies b = notifies r"
  shows "attInv t1 clk hi ph' acc ntf ob' (retired (r\<lparr>attEnd := e\<rparr>))"
proof -
  obtain e' where e': "e = Some e'" using assms(3) by auto
  have "attRecord (retired (r\<lparr>attEnd := e\<rparr>))" using attInvD(1) [OF assms(1)] assms(4) by (simp add: attRecord_def)
  moreover have "attTiming t1 clk acc ntf (retired (r\<lparr>attEnd := e\<rparr>))"
    using attInvD(2) [OF assms(1)] by (simp add: attTiming_def e')
  ultimately show ?thesis using assms(1,3-6) unfolding attInv_def by (elim disjE conjE) simp_all
qed

lemma endFits_open: "attInv t1 clk hi ph acc ntf ob r \<Longrightarrow> attEnd r = None \<Longrightarrow> \<forall>n \<in> set (notifies r). \<not> endsSubscription n"
  by (simp add: attInv_def attRecord_def endFits_def)

lemma finishSys_inv:
  assumes inv: "refer_inv t1 s" and a: "a < nextAttempt s"
    and e: "e = Some ReferEndRefused \<or> e = Some ReferEndCancelled \<or> attEnd (store s a) \<noteq> None"
  shows "refer_inv t1 (finishSys a e s)"
proof -
  let ?r = "store s a" and ?e = "if attEnd (store s a) = None \<or> e = Some ReferEndRefused then e else attEnd (store s a)"
  let ?s = "if attEnd ?r = None \<or> e = Some ReferEndRefused then setAttempt a (\<lambda>r. r\<lparr>attEnd := e\<rparr>) s else s"
  let ?ob = "\<lparr>ObsEnd = ?e, ObsCSeq = (if cseqKnown ?r then Some (attCSeq ?r) else None), ObsNotifies = notifies ?r,
    NotifiesDropped = dropped ?r\<rparr>"
  note att = refer_inv_att [OF inv a]
  have fits: "?e \<noteq> None" "endFits ?e (notifies ?r)"
    using e attInvD(3) [OF att] by (auto simp: endFits_def)
  have r: "?r\<lparr>attEnd := ?e\<rparr> = store ?s a" by (cases ?r) simp
  have st: "store (retireReferAttempt a ?s) = (store s)(a := retired (?r\<lparr>attEnd := ?e\<rparr>))"
    "referAttempts (retireReferAttempt a ?s) = filter (\<lambda>b. b \<noteq> a) (referAttempts s)"
    using retire_fields [OF inv a, of ?s] unfolding r by auto
  have fin: "finishReferAttempt a e s = (?ob, retireReferAttempt a ?s)"
    unfolding finishReferAttempt_def Let_def using st(1) by simp
  show ?thesis
    using refer_inv_update [OF inv a attInv_ended [OF att _ fits, of Finished "Some ?ob" ?ob], of "finishSys a e s"] st
    unfolding finishSys_def fin by simp
qed

lemma endOnBound_inv:
  assumes inv: "refer_inv t1 s" and a: "a < nextAttempt s" and o: "attEnd (store s a) = None"
  shows "refer_inv t1 (endOnBound a s)"
proof -
  let ?r = "store s a"
  let ?e = "Some (if notified ?r then ReferEndSubscriptionExpired else ReferEndNoNotify)"
  note att = refer_inv_att [OF inv a]
  have fits: "endFits ?e (notifies ?r)" using endFits_open [OF att o] att by (simp add: attInv_def attRecord_def endFits_def)
  let ?s = "setAttempt a (\<lambda>r. r\<lparr>attEnd := Some (if notified r then ReferEndSubscriptionExpired else ReferEndNoNotify)\<rparr>) s"
  have st: "store (retireReferAttempt a ?s) = (store s)(a := retired (?r\<lparr>attEnd := ?e\<rparr>))"
    "referAttempts (retireReferAttempt a ?s) = filter (\<lambda>b. b \<noteq> a) (referAttempts s)"
    using retire_fields [OF inv a, of ?s] by auto
  show ?thesis
    unfolding endOnBound_def
    by (rule refer_inv_update [OF inv a attInv_ended [OF att _ _ fits, of "phaseOf s a" "observed s a" undefined]])
       (use o st in simp_all)
qed

lemma retireEnded_inv:
  assumes inv: "refer_inv t1 s" and a: "a < nextAttempt s" and o: "attEnd (store s a) \<noteq> None"
  shows "refer_inv t1 (retireReferAttempt a s)"
proof -
  note att = refer_inv_att [OF inv a]
  have fits: "endFits (attEnd (store s a)) (notifies (store s a))" using att by (simp add: attInv_def attRecord_def)
  have r: "(store s a)\<lparr>attEnd := attEnd (store s a)\<rparr> = store s a" by simp
  show ?thesis
    by (rule refer_inv_update [OF inv a attInv_ended [OF att _ o fits, of "phaseOf s a" "observed s a" undefined]])
       (use retire_fields [OF inv a, of s] r in simp_all)
qed

lemma recordNotify_fields [simp]:
  "notifies (recordNotify n r) = (if length (notifies r) < maxReferNotifies then notifies r @ [n]
     else if endsSubscription n then (notifies r)[length (notifies r) - 1 := n] else notifies r)"
  "attEnd (recordNotify n r) = (if isFinal n then Some ReferEndFinalNotify
     else if endsSubscription n then Some ReferEndSubscriptionEnded else attEnd r)"
  "registered (recordNotify n r) = registered r" "cseqKnown (recordNotify n r) = cseqKnown r"
  "attCSeq (recordNotify n r) = attCSeq r" "notified (recordNotify n r)" "deadline (recordNotify n r) = deadline r"
  "hasBound (recordNotify n r) = hasBound r" "doneCloses (recordNotify n r) = doneCloses r"
  "boundArmed (recordNotify n r) = boundArmed r"
  by (simp_all add: recordNotify_def Let_def)

lemma isFinal_ends: "isFinal n \<Longrightarrow> endsSubscription n"
  by (simp add: endsSubscription_def)

lemma recordNotify_inv:
  assumes att: "attInv t1 clk hi ph acc ntf ob r" and o: "attEnd r = None" and reg: "registered r"
    and now: "clk \<le> now" "\<And>d. deadline r = Some d \<Longrightarrow> now < d" and t1: "0 < t1"
    and d: "d = (case deadline r of Some e \<Rightarrow> if notified r \<and> e < now + referSubscriptionBound t1 n then e
        else now + referSubscriptionBound t1 n | None \<Rightarrow> now + referSubscriptionBound t1 n)"
    and r': "r' = (if attEnd (recordNotify n r) \<noteq> None then recordNotify n r
      else (recordNotify n r)\<lparr>hasBound := True, boundArmed := k, deadline := Some d\<rparr>)"
  shows "attInv t1 now hi ph acc (case ntf of None \<Rightarrow> Some now | f \<Rightarrow> f) ob r'"
proof -
  let ?n = "recordNotify n r"
  have ne: "\<forall>m \<in> set (notifies r). \<not> endsSubscription m" using endFits_open [OF att o] .
  have rec: "attRecord ?n"
  proof -
    have but: "\<forall>m \<in> set (butlast (notifies ?n)). \<not> endsSubscription m"
      using ne in_set_butlastD [of _ "notifies r"] by (auto simp: butlast_list_update)
    have lst: "last ((notifies r)[length (notifies r) - Suc 0 := n]) = n" "notifies r \<noteq> []"
      if "\<not> length (notifies r) < maxReferNotifies"
      using that last_list_update [of "notifies r" "length (notifies r) - 1" n]
      by (cases "notifies r"; simp add: maxReferNotifies_def)+
    have fits: "endFits (attEnd ?n) (notifies ?n)"
      using ne o lst by (auto simp: endFits_def dest: isFinal_ends)
    have "attRecord r" using att by (simp add: attInv_def)
    then have len: "length (notifies ?n) \<le> maxReferNotifies" "hasBound ?n \<longleftrightarrow> deadline ?n \<noteq> None"
      "doneCloses ?n = (if registered ?n then 0 else 1)" by (simp_all add: attRecord_def)
    have "notifies ?n \<noteq> []" using lst(2) by simp
    then show ?thesis unfolding attRecord_def using but fits len recordNotify_fields(6) by blast
  qed
  have f: "registered ?n = registered r" "cseqKnown ?n = cseqKnown r" "attCSeq ?n = attCSeq r" "notified ?n"
    "deadline ?n = deadline r" by simp_all
  have bound: "referSubscriptionBound t1 n \<le> max (timerN t1) referSubscriptionMaxBound" by (rule referSubscriptionBound_le)
  note tim0 = attInvD(2) [OF att]
  have acc: "now < A + timerN t1" if "acc = Some A" "ntf = None" for A
    using that tim0 o now by (simp add: attTiming_def)
  have r'f: "notified r'" "attEnd r' = None \<Longrightarrow> deadline r' = Some d" by (auto simp: r' split: if_splits)
  have tim: "attTiming t1 now acc (case ntf of None \<Rightarrow> Some now | f \<Rightarrow> f) r'"
  proof (cases ntf)
    case None
    then have "\<not> notified r" using tim0 by (simp add: attTiming_def)
    then have "d = now + referSubscriptionBound t1 n" using d by (simp split: option.splits)
    then have "d \<le> now + max (timerN t1) referSubscriptionMaxBound" using bound by simp
    moreover have "\<forall>A. acc = Some A \<longrightarrow> A \<le> now" using tim0 now(1) by (auto simp: attTiming_def)
    ultimately show ?thesis using None acc r'f by (simp add: attTiming_def)
  next
    case (Some F)
    obtain D where D: "notified r" "deadline r = Some D" "D \<le> F + max (timerN t1) referSubscriptionMaxBound" "F \<le> clk"
      using Some tim0 o by (auto simp: attTiming_def)
    then have "d \<le> D" using d by simp
    then have "d \<le> F + max (timerN t1) referSubscriptionMaxBound" "F \<le> now" using D now(1) by linarith+
    moreover have "\<forall>A. acc = Some A \<longrightarrow> A \<le> now \<and> F < A + timerN t1" using tim0 now(1) Some by (auto simp: attTiming_def)
    ultimately show ?thesis using Some r'f by (simp add: attTiming_def)
  qed
  have "attRecord r'" using rec unfolding r' by (auto simp: attRecord_def simp del: recordNotify_fields)
  moreover have "registered r' = registered r" "cseqKnown r' = cseqKnown r" "attCSeq r' = attCSeq r"
    unfolding r' by simp_all
  ultimately show ?thesis using tim att reg by (simp add: attInv_def)
qed

section \<open>Every step keeps the invariant\<close>

lemma referNotifyTarget_registered:
  assumes "refer_inv t1 s" "referNotifyTarget n s = Some a"
  shows "a < nextAttempt s \<and> registered (store s a)"
proof -
  have latest: "l < nextAttempt s" if "referLatest s = Some l" for l
    using assms(1) that by (cases "nextAttempt s") (simp_all add: refer_inv_def)
  have "a \<in> set (referAttempts s) \<or> referLatest s = Some a \<and> registered (store s a)"
    using assms(2) by (auto simp: referNotifyTarget_def Let_def find_Some_iff split: option.splits if_splits)
  then show ?thesis using assms(1) latest by (auto simp: refer_inv_def)
qed

lemma armReferBound_frame [simp]:
  "store (armReferBound a d s) = (store s)(a := (store s a)\<lparr>hasBound := True, boundArmed := Suc (boundArmed (store s a)), deadline := Some d\<rparr>)"
  "nextAttempt (armReferBound a d s) = nextAttempt s" "referLatest (armReferBound a d s) = referLatest s"
  "referAttempts (armReferBound a d s) = referAttempts s"
  "referHighestCSeq (armReferBound a d s) = referHighestCSeq s" "clock (armReferBound a d u) = clock u"
  "phaseOf (armReferBound a d u) = phaseOf u" "observed (armReferBound a d u) = observed u"
  "acceptedAt (armReferBound a d u) = acceptedAt u" "firstNotifyAt (armReferBound a d u) = firstNotifyAt u"
  for u :: refer_sys
  by (simp_all add: armReferBound_def)

lemma notifySys_inv:
  assumes inv: "refer_inv t1 s" and now: "clock s \<le> now" and t1: "0 < t1"
  shows "refer_inv t1 (notifySys t1 now n s)"
proof (cases "referNotifyTarget n s")
  case None
  then show ?thesis using refer_inv_same [OF inv now] by (simp add: notifySys_def recordReferNotify_def)
next
  case (Some a)
  let ?r = "store s a"
  have a: "a < nextAttempt s" "registered ?r" using referNotifyTarget_registered [OF inv Some] by auto
  note att = refer_inv_att [OF inv a(1)]
  consider (ended) "attEnd ?r \<noteq> None" | (late) d where "attEnd ?r = None" "deadline ?r = Some d" "d \<le> now"
    | (taken) "attEnd ?r = None" "\<And>d. deadline ?r = Some d \<Longrightarrow> now < d"
    by (cases "attEnd ?r"; cases "deadline ?r") (auto simp: not_le intro: leI)
  then show ?thesis
  proof cases
    case ended
    then show ?thesis using refer_inv_same [OF inv now] Some by (simp add: notifySys_def recordReferNotify_def Let_def)
  next
    case late
    then have "clock (endOnBound a s) \<le> now" using now by (simp add: endOnBound_def)
    then show ?thesis using refer_inv_same [OF endOnBound_inv [OF inv a(1) late(1)]] Some late
      by (simp add: notifySys_def recordReferNotify_def)
  next
    case taken
    define d where "d = (case deadline ?r of Some e \<Rightarrow> if notified ?r \<and> e < now + referSubscriptionBound t1 n then e
        else now + referSubscriptionBound t1 n | None \<Rightarrow> now + referSubscriptionBound t1 n)"
    define r' where "r' = (if attEnd (recordNotify n ?r) \<noteq> None then recordNotify n ?r
      else (recordNotify n ?r)\<lparr>hasBound := True, boundArmed := Suc (boundArmed ?r), deadline := Some d\<rparr>)"
    have late: "\<not> (case deadline ?r of Some e \<Rightarrow> e \<le> now | None \<Rightarrow> False)" using taken(2) by (auto simp: not_le split: option.splits)
    obtain s' where s': "recordReferNotify t1 now n s = (Some a, s')" "store s' = (store s)(a := r')"
      "nextAttempt s' = nextAttempt s" "referLatest s' = referLatest s" "referAttempts s' = referAttempts s"
      "referHighestCSeq s' = referHighestCSeq s" "phaseOf s' = phaseOf s" "observed s' = observed s"
      "acceptedAt s' = acceptedAt s" "firstNotifyAt s' = firstNotifyAt s"
    proof (cases "attEnd (recordNotify n ?r) = None")
      case True
      then show ?thesis using that [of "armReferBound a d (setAttempt a (recordNotify n) s)"] Some taken(1) late
        by (simp add: recordReferNotify_def Let_def d_def r'_def del: recordNotify_fields(1,2))
    next
      case False
      then show ?thesis using that [of "setAttempt a (recordNotify n) s"] Some taken(1) late
        by (auto simp: recordReferNotify_def Let_def r'_def simp del: recordNotify_fields(1,2))
    qed
    have "registered r'" using a(2) by (simp add: r'_def)
    then show ?thesis
      by (intro refer_inv_update [OF inv a(1) recordNotify_inv [OF att taken(1) a(2) now taken(2) t1 d_def r'_def]])
         (use a(2) now s' in \<open>simp_all add: notifySys_def\<close>)
  qed
qed

lemma accept_inv:
  assumes inv: "refer_inv t1 s" and a: "a < nextAttempt s" and ph: "phaseOf s a = Sending"
    and now: "clock s \<le> now" and t1: "0 < t1"
  shows "refer_inv t1 ((startReferSubscription t1 now a s)
      \<lparr>clock := now, phaseOf := (phaseOf s)(a := Subscribed), acceptedAt := (acceptedAt s)(a := Some now)\<rparr>)"
proof -
  let ?r = "store s a"
  define r' where "r' = (if attEnd ?r \<noteq> None \<or> hasBound ?r then ?r
    else ?r\<lparr>hasBound := True, boundArmed := Suc (boundArmed ?r), deadline := Some (now + timerN t1)\<rparr>)"
  note att = refer_inv_att [OF inv a]
  have acc: "acceptedAt s a = None" using att ph by (simp add: attInv_def)
  have t: "timerN t1 > 0" using t1 by (simp add: timerN_def)
  have tim: "attTiming t1 (clock s) None (firstNotifyAt s a) ?r" and hb: "hasBound ?r \<longleftrightarrow> deadline ?r \<noteq> None"
    using att acc by (simp_all add: attInv_def attRecord_def)
  have "attTiming t1 now (Some now) (firstNotifyAt s a) r'"
  proof (cases "firstNotifyAt s a")
    case None
    then show ?thesis using tim hb by (auto simp: attTiming_def r'_def)
  next
    case (Some F)
    then have "F \<le> now" using tim now by (simp add: attTiming_def)
    then show ?thesis using Some tim hb t by (auto simp: attTiming_def r'_def)
  qed
  moreover have "attRecord r'" using att by (auto simp: attInv_def attRecord_def r'_def)
  moreover have "registered r' = registered ?r" "cseqKnown r' = cseqKnown ?r" "attCSeq r' = attCSeq ?r" "attEnd r' = attEnd ?r"
    by (simp_all add: r'_def)
  ultimately have new: "attInv t1 now (referHighestCSeq s) Subscribed (Some now) (firstNotifyAt s a) (observed s a) r'"
    using att ph by (simp add: attInv_def)
  have "\<not> registered r' \<Longrightarrow> filter (\<lambda>b. b \<noteq> a) (referAttempts s) = referAttempts s"
    using inv by (auto simp: refer_inv_def filter_id_conv r'_def split: if_splits)
  then show ?thesis
    by (intro refer_inv_update [OF inv a new]) (use now in \<open>auto simp: startReferSubscription_def r'_def\<close>)
qed

lemma begin_inv:
  assumes "refer_inv t1 s" "beginReferAttempt s = (a, s')"
  shows "refer_inv t1 (s'\<lparr>phaseOf := (phaseOf s)(a := Sending)\<rparr>)"
proof -
  have a: "a = nextAttempt s" and s': "s' = s\<lparr>store := (store s)(a := newAttempt), nextAttempt := Suc a,
      referAttempts := referAttempts s @ [a], referLatest := Some a\<rparr>"
    using assms(2) by (auto simp: beginReferAttempt_def)
  have new: "attInv t1 (clock s) (referHighestCSeq s) Sending None None None newAttempt"
    by (simp add: attInv_def attRecord_def attTiming_def newAttempt_def endFits_def)
  have "a \<notin> set (referAttempts s)" using assms(1) a by (auto simp: refer_inv_def)
  moreover have "registered newAttempt" by (simp add: newAttempt_def)
  ultimately show ?thesis using assms(1) new by (auto simp: refer_inv_def s' a less_Suc_eq)
qed

lemma cseq_inv:
  assumes inv: "refer_inv t1 s" and a: "a < nextAttempt s"
  shows "refer_inv t1 (setReferAttemptCSeq a c s)"
proof -
  let ?r = "(store s a)\<lparr>attCSeq := c, cseqKnown := True\<rparr>" and ?hi = "max (referHighestCSeq s) c"
  have new: "attInv t1 (clock s) ?hi (phaseOf s a) (acceptedAt s a) (firstNotifyAt s a) (observed s a) ?r"
    using refer_inv_att [OF inv a] by (auto simp: attInv_def attRecord_def attTiming_def)
  have "\<not> registered ?r \<Longrightarrow> filter (\<lambda>b. b \<noteq> a) (referAttempts s) = referAttempts s"
    using inv by (auto simp: refer_inv_def filter_id_conv)
  then show ?thesis
    by (intro refer_inv_update [OF inv a new]) (auto simp: setReferAttemptCSeq_def max_def)
qed

lemma drop_inv:
  assumes inv: "refer_inv t1 s" and a: "a < nextAttempt s"
  shows "refer_inv t1 ((dropReferAttempt a s)\<lparr>phaseOf := (phaseOf s)(a := Finished)\<rparr>)"
proof -
  note att = refer_inv_att [OF inv a]
  have new: "attInv t1 (clock s) (referHighestCSeq s) Finished (acceptedAt s a) (firstNotifyAt s a) (observed s a) (retired (store s a))"
    using att by (auto simp: attInv_def attRecord_def attTiming_def)
  show ?thesis
    by (intro refer_inv_update [OF inv a new]) (use retire_fields [OF inv a, of s] in \<open>simp_all add: dropReferAttempt_def\<close>)
qed

lemma endReferAttemptOnItsBound_frame: "clock (endReferAttemptOnItsBound a k u) = clock u" for u :: refer_sys
  by (simp add: endReferAttemptOnItsBound_def endOnBound_def)

lemma refer_inv_step:
  assumes "0 < t1" "refer_inv t1 s" "refer_step t1 s l t"
  shows "refer_inv t1 t"
  using assms(3)
proof cases
  case (step_done a)
  have "attEnd (store s a) \<noteq> None"
    using refer_inv_att [OF assms(2) step_done(3)] step_done(4,5) by (auto simp: attInv_def attRecord_def split: if_splits)
  then show ?thesis using finishSys_inv [OF assms(2) step_done(3)] step_done by simp
next
  case (step_fire a now armed)
  have "refer_inv t1 (endReferAttemptOnItsBound a armed s)"
    using assms(2) endOnBound_inv [OF assms(2) step_fire(3)] by (simp add: endReferAttemptOnItsBound_def)
  then show ?thesis using refer_inv_same step_fire by (simp add: endReferAttemptOnItsBound_frame)
next
  case (step_retire a)
  then show ?thesis using assms(2) retireEnded_inv [OF assms(2) step_retire(3)] by (simp add: retireEndedReferAttempt_def)
qed (use assms(1,2) begin_inv cseq_inv drop_inv notifySys_inv accept_inv finishSys_inv in auto)

lemma refer_inv_init: "refer_init s \<Longrightarrow> refer_inv t1 s"
  by (simp add: refer_init_def refer_inv_def)

interpretation refers: transition_system refer_init "refer_step t1" "\<lambda>s. 0 < t1 \<longrightarrow> refer_inv t1 s" for t1
  by unfold_locales (auto intro: refer_inv_init refer_inv_step)

section \<open>Properties\<close>


text \<open>
  C29. No subscription lives for ever. In every reachable state an attempt whose REFER was accepted
  at \<open>A\<close> and that has not ended has a deadline, and it lies at most sixty-four T1 and one hour after
  \<open>A\<close>, however many NOTIFYs arrive and whatever durations they claim, as long as sixty-four T1 are
  less than an hour.
\<close>

theorem refer_deadline_bounded:
  assumes "0 < t1" "timerN t1 \<le> referSubscriptionMaxBound" "refer_init s" "exec (refer_step t1) s ls t"
    and "a < nextAttempt t" "attEnd (store t a) = None" "acceptedAt t a = Some A"
  shows "\<exists>D. deadline (store t a) = Some D \<and> D \<le> A + timerN t1 + referSubscriptionMaxBound"
proof -
  have inv: "refer_inv t1 t" using refers.inv_reachable [OF assms(3,4)] assms(1) by blast
  then have tim: "attTiming t1 (clock t) (Some A) (firstNotifyAt t a) (store t a)"
    using refer_inv_att [OF inv assms(5)] assms(7) by (simp add: attInv_def)
  show ?thesis
  proof (cases "firstNotifyAt t a")
    case None
    then show ?thesis using tim assms(6) by (simp add: attTiming_def referSubscriptionMaxBound_def)
  next
    case (Some F)
    then obtain D where "deadline (store t a) = Some D" "D \<le> F + max (timerN t1) referSubscriptionMaxBound" "F < A + timerN t1"
      using tim assms(6) by (auto simp: attTiming_def)
    then show ?thesis using assms(2) by auto
  qed
qed


lemma recordReferNotify_taken:
  assumes "recordReferNotify t1 now n t = (Some a, t')"
  shows "referNotifyTarget n t = Some a" "attEnd (store t a) = None" "\<And>d. deadline (store t a) = Some d \<Longrightarrow> now < d"
    "\<And>b. b \<noteq> a \<Longrightarrow> store t' b = store t b"
  using assms
  by (auto simp: recordReferNotify_def Let_def setAttempt_def armReferBound_def not_le split: option.splits if_splits)

lemma recordReferNotify_refused:
  assumes "recordReferNotify t1 now n t = (None, t')"
  shows "notifies (store t' b) = notifies (store t b)"
  using assms
  by (auto simp: recordReferNotify_def Let_def endOnBound_def retireReferAttempt_def setAttempt_def
      split: option.splits if_splits)

lemma only_awaiting: "length (filter P xs) = 1 \<Longrightarrow> a \<in> set xs \<Longrightarrow> P a \<Longrightarrow> b \<in> set xs \<Longrightarrow> P b \<Longrightarrow> b = a"
proof -
  assume len: "length (filter P xs) = 1" and m: "a \<in> set xs" "P a" "b \<in> set xs" "P b"
  obtain x where x: "filter P xs = [x]" using len by (auto simp: length_Suc_conv)
  have "a \<in> set (filter P xs)" "b \<in> set (filter P xs)" using m by simp_all
  then show "b = a" unfolding x by simp
qed

lemma referNotifyTarget_id:
  assumes inv: "refer_inv t1 t" and target: "referNotifyTarget n t = Some a" and i: "EventID n = Some i"
  shows "if cseqKnown (store t a) then attCSeq (store t a) = i
    else a + 1 = nextAttempt t \<and> (\<forall>b \<in> set (referAttempts t). cseqKnown (store t b) \<longrightarrow> attCSeq (store t b) < i) \<and>
      (\<forall>b \<in> set (referAttempts t). \<not> cseqKnown (store t b) \<longrightarrow> b = a)"
proof (cases "find (\<lambda>a. cseqKnown (store t a) \<and> attCSeq (store t a) = i) (referAttempts t)")
  case (Some b)
  then have "b = a" using target i by (simp add: referNotifyTarget_def)
  moreover have "cseqKnown (store t b)" "attCSeq (store t b) = i" using Some by (auto simp: find_Some_iff)
  ultimately show ?thesis by simp
next
  case None
  then have a: "referLatest t = Some a" "registered (store t a)" "\<not> cseqKnown (store t a)" "referHighestCSeq t < i"
    "length (filter (\<lambda>a. \<not> cseqKnown (store t a)) (referAttempts t)) = 1"
    using target i by (auto simp: referNotifyTarget_def Let_def split: option.splits if_splits)
  have n: "a + 1 = nextAttempt t" using inv a(1) by (cases "nextAttempt t") (simp_all add: refer_inv_def)
  then have mem: "a \<in> set (referAttempts t)" using inv a(2) by (simp add: refer_inv_def)
  have "attCSeq (store t b) < i" if "b \<in> set (referAttempts t)" "cseqKnown (store t b)" for b
  proof -
    have "b < nextAttempt t" using inv that(1) by (simp add: refer_inv_def)
    then have "attCSeq (store t b) \<le> referHighestCSeq t" using refer_inv_att [OF inv] that(2) by (simp add: attInv_def)
    then show ?thesis using a(4) by simp
  qed
  then show ?thesis using n a(3) only_awaiting [OF a(5) mem a(3)] by simp
qed

text \<open>
  A NOTIFY reaches the attempt it belongs to and no other. In every reachable state a NOTIFY is
  recorded on at most one attempt, which is open and not past its deadline: with an Event id on the
  one whose REFER has that CSeq, or, when none has, on the newest attempt while it is the only one
  that waits for its CSeq and the id is above every CSeq recorded; without an id on the newest
  attempt. Every other attempt is left as it was, and a NOTIFY no attempt takes is recorded nowhere.
\<close>

theorem refer_notify_routed:
  assumes "0 < t1" "refer_init s" "exec (refer_step t1) s ls t" "recordReferNotify t1 now n t = (target, t')"
  shows "(\<forall>b. target \<noteq> Some b \<longrightarrow> notifies (store t' b) = notifies (store t b)) \<and>
    (\<forall>a. target = Some a \<longrightarrow> attEnd (store t a) = None \<and> registered (store t a) \<and>
       (\<forall>b. b \<noteq> a \<longrightarrow> store t' b = store t b) \<and> (\<forall>d. deadline (store t a) = Some d \<longrightarrow> now < d) \<and>
       (case EventID n of
          Some i \<Rightarrow> (if cseqKnown (store t a) then attCSeq (store t a) = i
            else a + 1 = nextAttempt t \<and> (\<forall>b \<in> set (referAttempts t). cseqKnown (store t b) \<longrightarrow> attCSeq (store t b) < i) \<and>
              (\<forall>b \<in> set (referAttempts t). \<not> cseqKnown (store t b) \<longrightarrow> b = a))
        | None \<Rightarrow> a + 1 = nextAttempt t))"
proof (cases target)
  case None
  then show ?thesis using recordReferNotify_refused assms(4) by blast
next
  case (Some a)
  have inv: "refer_inv t1 t" using refers.inv_reachable [OF assms(2,3)] assms(1) by blast
  note taken = recordReferNotify_taken [OF assms(4) [unfolded Some]]
  have "a + 1 = nextAttempt t" if "EventID n = None"
    using taken(1) that inv by (cases "nextAttempt t") (auto simp: referNotifyTarget_def refer_inv_def split: if_splits)
  then show ?thesis
    using Some taken referNotifyTarget_registered [OF inv taken(1)] referNotifyTarget_id [OF inv taken(1)]
    by (auto split: option.splits)
qed

section \<open>An example\<close>

text \<open>A REFER accepted at once, a NOTIFY of 100 after a second and one of 200 after two.\<close>

definition exTrying :: ReferNotify where
  "exTrying = \<lparr>Status = 100, Reason = ''Trying'', SubscriptionState = Some ''active;expires=60'', EventID = None\<rparr>"

definition exOK :: ReferNotify where
  "exOK = \<lparr>Status = 200, Reason = ''OK'', SubscriptionState = Some ''terminated;reason=noresource'', EventID = None\<rparr>"

definition exT1 :: duration where "exT1 = 500 * millisecond"

definition ex0 :: refer_sys where
  "ex0 = \<lparr>store = \<lambda>a. newAttempt, nextAttempt = 0, referAttempts = [], referHighestCSeq = 0, referLatest = None,
     clock = 0, phaseOf = \<lambda>a. Finished, observed = \<lambda>a. None, acceptedAt = \<lambda>a. None, firstNotifyAt = \<lambda>a. None\<rparr>"

definition ex1 :: refer_sys where "ex1 = (snd (beginReferAttempt ex0))\<lparr>phaseOf := (phaseOf ex0)(0 := Sending)\<rparr>"
definition ex2 :: refer_sys where
  "ex2 = (startReferSubscription exT1 0 0 ex1)
     \<lparr>clock := 0, phaseOf := (phaseOf ex1)(0 := Subscribed), acceptedAt := (acceptedAt ex1)(0 := Some 0)\<rparr>"
definition ex3 :: refer_sys where "ex3 = notifySys exT1 (1 * second) exTrying ex2"
definition ex4 :: refer_sys where "ex4 = notifySys exT1 (2 * second) exOK ex3"
definition ex5 :: refer_sys where "ex5 = retireEndedReferAttempt 0 ex4"
definition ex6 :: refer_sys where "ex6 = finishSys 0 None ex5"

lemma exNotify_facts:
  "EventID exTrying = None" "EventID exOK = None" "\<not> endsSubscription exTrying" "\<not> isFinal exTrying" "isFinal exOK" "endsSubscription exOK"
  "referSubscriptionBound exT1 exTrying = 60 * second"
proof -
  show "EventID exTrying = None" "EventID exOK = None" by (simp_all add: exTrying_def exOK_def)
  show "\<not> isFinal exTrying" "isFinal exOK" "endsSubscription exOK"
    by (simp_all add: isFinal_def exTrying_def exOK_def endsSubscription_def)
  have "\<not> referSubscriptionTerminated ''active;expires=60''" by code_simp
  then show "\<not> endsSubscription exTrying" by (simp add: endsSubscription_def isFinal_def exTrying_def)
  have "Split (CHR '';'') (fst (snd (Cut (CHR '';'') ''active;expires=60''))) = [''expires=60'']"
    "Cut (CHR ''='') ''expires=60'' = (''expires'', ''60'', True)" "EqualFold (TrimSpace ''expires'') ''expires''"
    "TrimSpace ''60'' = ''60''" "formatNat 60 = ''60''" by code_simp+
  then have "referSubscriptionExpires ''active;expires=60'' = Some 60"
    using ParseUint_formatNat [of 60 32] by (simp add: referSubscriptionExpires_def)
  then show "referSubscriptionBound exT1 exTrying = 60 * second"
    by (simp add: referSubscriptionBound_def exTrying_def secs_def referSubscriptionMaxBound_def)
qed

lemma ex1_eq: "ex1 = ex0\<lparr>nextAttempt := 1, referAttempts := [0], referLatest := Some 0, phaseOf := (\<lambda>a. Finished)(0 := Sending)\<rparr>"
  by (simp add: ex1_def ex0_def beginReferAttempt_def fun_upd_def)

lemma ex2_eq: "ex2 = ex1\<lparr>store := (store ex1)(0 := newAttempt\<lparr>hasBound := True, boundArmed := 1, deadline := Some (32 * second)\<rparr>),
   phaseOf := (\<lambda>a. Finished)(0 := Subscribed), acceptedAt := (\<lambda>a. None)(0 := Some 0)\<rparr>"
  by (simp add: ex2_def ex1_eq ex0_def startReferSubscription_def armReferBound_def setAttempt_def newAttempt_def
      timerN_def exT1_def)

lemma ex3_eq: "ex3 = ex2\<lparr>store := (store ex2)(0 := newAttempt\<lparr>notifies := [exTrying], notified := True, hasBound := True,
     boundArmed := Suc (Suc 0), deadline := Some (61 * second)\<rparr>), clock := 1 * second, firstNotifyAt := (\<lambda>a. None)(0 := Some (1 * second))\<rparr>"
proof -
  have "recordReferNotify exT1 (1 * second) exTrying ex2 = (Some 0, ex2\<lparr>store := (store ex2)(0 := newAttempt\<lparr>notifies := [exTrying],
     notified := True, hasBound := True, boundArmed := Suc (Suc 0), deadline := Some (61 * second)\<rparr>)\<rparr>)"
    by (simp add: recordReferNotify_def referNotifyTarget_def exNotify_facts ex2_eq ex1_eq ex0_def newAttempt_def
        recordNotify_def setAttempt_def armReferBound_def maxReferNotifies_def Let_def)
  then show ?thesis by (simp add: ex3_def notifySys_def ex2_eq ex1_eq ex0_def)
qed

lemma ex4_eq: "ex4 = ex3\<lparr>store := (store ex3)(0 := (store ex3 0)\<lparr>attEnd := Some ReferEndFinalNotify,
     notifies := [exTrying, exOK]\<rparr>), clock := 2 * second\<rparr>"
proof -
  have "recordReferNotify exT1 (2 * second) exOK ex3 = (Some 0, ex3\<lparr>store := (store ex3)(0 := (store ex3 0)\<lparr>attEnd := Some ReferEndFinalNotify,
     notifies := [exTrying, exOK]\<rparr>)\<rparr>)"
    by (simp add: recordReferNotify_def referNotifyTarget_def exNotify_facts ex3_eq ex2_eq ex1_eq ex0_def newAttempt_def
        recordNotify_def setAttempt_def maxReferNotifies_def Let_def)
  then show ?thesis by (simp add: ex4_def notifySys_def ex3_eq ex2_eq ex1_eq ex0_def fun_upd_def fun_eq_iff)
qed

lemma ex5_eq: "ex5 = ex4\<lparr>store := (store ex4)(0 := (store ex4 0)\<lparr>registered := False, doneCloses := 1\<rparr>), referAttempts := []\<rparr>"
  by (simp add: ex5_def retireEndedReferAttempt_def retireReferAttempt_def setAttempt_def ex4_eq ex3_eq ex2_eq ex1_eq ex0_def
      newAttempt_def)

lemma ex6_facts: "nextAttempt ex6 = 1" "observed ex6 0 = Some \<lparr>ObsEnd = Some ReferEndFinalNotify, ObsCSeq = None,
    ObsNotifies = [exTrying, exOK], NotifiesDropped = 0\<rparr>"
  by (simp_all add: ex6_def finishSys_def finishReferAttempt_def retireReferAttempt_def Let_def ex5_eq ex4_eq ex3_eq ex2_eq
      ex1_eq ex0_def newAttempt_def)

lemmas ex_eqs = ex4_eq ex3_eq ex2_eq ex1_eq ex0_def newAttempt_def

lemma exRun3: "exec (refer_step exT1) ex0 [Begin, Accept 0 0, Notify exTrying (1 * second)] ex3"
proof -
  have "refer_step exT1 ex0 Begin ex1" using step_begin [of ex0 0 "snd (beginReferAttempt ex0)" exT1]
    by (simp add: ex1_def beginReferAttempt_def ex0_def)
  moreover have "refer_step exT1 ex1 (Accept 0 0) ex2" unfolding ex2_def by (rule step_accept) (simp_all add: ex_eqs)
  moreover have "refer_step exT1 ex2 (Notify exTrying (1 * second)) ex3" unfolding ex3_def
    by (rule step_notify) (simp add: ex_eqs)
  ultimately show ?thesis by (blast intro: exec.intros)
qed

lemma exRun6: "exec (refer_step exT1) ex3 [Notify exOK (2 * second), RetireEnded 0, DoneClosed 0] ex6"
proof -
  have "refer_step exT1 ex3 (Notify exOK (2 * second)) ex4" unfolding ex4_def by (rule step_notify) (simp add: ex_eqs)
  moreover have "refer_step exT1 ex4 (RetireEnded 0) ex5" unfolding ex5_def by (rule step_retire) (simp add: ex_eqs)
  moreover have "refer_step exT1 ex5 (DoneClosed 0) ex6" unfolding ex6_def by (rule step_done) (simp_all add: ex5_eq ex_eqs)
  ultimately show ?thesis by (blast intro: exec.intros)
qed

lemma exInit: "refer_init ex0" "0 < exT1" by (simp_all add: refer_init_def ex0_def exT1_def)


theorem refer_deadline_bounded_witness: "\<exists>D. deadline (store ex3 0) = Some D \<and> D \<le> 0 + 32 * second + 3600 * second"
  using refer_deadline_bounded [OF exInit(2) _ exInit(1) exRun3, of 0 0]
  by (simp add: ex_eqs timerN_def exT1_def referSubscriptionMaxBound_def)


theorem refer_notify_routed_witness:
  "\<exists>t'. recordReferNotify exT1 (2 * second) exOK ex3 = (Some 0, t') \<and> attEnd (store ex3 0) = None"
proof -
  obtain a t' where r: "recordReferNotify exT1 (2 * second) exOK ex3 = (a, t')" by (cases "recordReferNotify exT1 (2 * second) exOK ex3")
  have "a = Some 0" using r by (simp add: recordReferNotify_def referNotifyTarget_def exNotify_facts setAttempt_def Let_def ex_eqs)
  then show ?thesis using refer_notify_routed [OF exInit(2,1) exRun3 r] r by simp
qed

end
