(* ===== verification/Refer_Transfer.thy ===== *)
theory Refer_Transfer
  imports Refer_Notify
begin

text \<open>
  The other side of a transfer (\<open>dialog_session.go\<close>): a REFER received on a dialog. Either the dialog's
  handler runs the new call (\<open>dialogHandleRefer\<close>, \<open>dialogReferInvite\<close>) or the application accepts the
  transaction itself (\<open>dialogHandleReferTransaction\<close>, \<open>ReferTransaction.Accept\<close>). What the SIP stack
  and the application do is an argument: the parsed headers, the errors of the calls, the states the
  new dialog goes through. Results are the responses and NOTIFYs sent, in order; a call on a missing
  dialog is a panic.
\<close>

section \<open>NOTIFYs\<close>

record subState =
  subStateName :: string
  subReason :: string
  subExpires :: int
  subRetryAfter :: int

text \<open>The parameters of the Subscription-State header, in order; a name without a value stands alone.\<close>

definition stateParams :: "subState \<Rightarrow> (string \<times> string) list" where
  "stateParams sub = [(subStateName sub, [])]
     @ (if subReason sub \<noteq> [] then [(''reason'', subReason sub)] else [])
     @ (if 0 < subRetryAfter sub then [(''retry-after'', FormatInt (subRetryAfter sub))] else [])
     @ (if 0 < subExpires sub then [(''expires'', FormatInt (subExpires sub))] else [])"

record notifyOut =
  outState :: "(string \<times> string) list"
  outBody :: string

definition notifyOf :: "int \<Rightarrow> string \<Rightarrow> subState \<Rightarrow> notifyOut" where
  "notifyOf code reason sub = \<lparr>outState = stateParams sub, outBody = sipfragOf code reason\<rparr>"

definition terminatedNoresource :: subState where
  "terminatedNoresource = \<lparr>subStateName = ''terminated'', subReason = ''noresource'', subExpires = 0, subRetryAfter = 0\<rparr>"

definition activeFor60 :: subState where
  "activeFor60 = \<lparr>subStateName = ''active'', subReason = [], subExpires = 60, subRetryAfter = 0\<rparr>"

text \<open>
  \<open>sendNotify\<close>: what the dialog's \<open>Do\<close> gives for the NOTIFY is an error or a status, and only 200 is
  no error.
\<close>

datatype transferErr = DoFailed nat | NotifyRefused int | AppFailed nat | ResponseFailed int string | InviteFailed nat
  | RespondFailed nat | NewDialogFailed nat

definition notifyResult :: "nat + int \<Rightarrow> transferErr option" where
  "notifyResult r = (case r of Inl e \<Rightarrow> Some (DoFailed e) | Inr code \<Rightarrow> if code \<noteq> 200 then Some (NotifyRefused code) else None)"

section \<open>A REFER the dialog handles\<close>

record referRequest =
  referTo :: "string option"
  referToUri :: "string \<Rightarrow> string option"
  referContact :: "string option"

text \<open>The response a REFER is refused with, or \<^term>\<open>None\<close> when it is accepted.\<close>

definition referRefusal :: "referRequest \<Rightarrow> int option" where
  "referRefusal req = (case referTo req of
     None \<Rightarrow> Some 400
   | Some h \<Rightarrow> (case referToUri req h of
       None \<Rightarrow> Some 400
     | Some u \<Rightarrow> (case referContact req of None \<Rightarrow> Some 400 | Some c \<Rightarrow> None)))"

datatype dialogState = StateNone | StateEstablished | StateConfirmed | StateEnded

text \<open>
  What happens to the new call: whether it can be made, the result of the first NOTIFY, the states the
  dialog goes through while the application handles it, the result of the application, the state
  loaded after that, the states after the handler has returned, and the results of the other NOTIFYs.
\<close>

record transferRun =
  newDialog :: "nat option"
  tryingResult :: "nat + int"
  statesDuring :: "dialogState list"
  appResult :: "transferErr option"
  loadedState :: dialogState
  statesAfter :: "dialogState list"
  lastResult :: "nat + int"

definition stateNotifies :: "dialogState list \<Rightarrow> notifyOut list" where
  "stateNotifies ss = map (\<lambda>s. notifyOf 200 ''OK'' terminatedNoresource) (filter (\<lambda>s. s = StateConfirmed \<or> s = StateEnded) ss)"

definition dialogReferInvite :: "transferRun \<Rightarrow> transferErr option \<times> notifyOut list" where
  "dialogReferInvite run = (case newDialog run of
     Some e \<Rightarrow> (Some (NewDialogFailed e), [])
   | None \<Rightarrow>
       (case notifyResult (tryingResult run) of
          Some e \<Rightarrow> (Some e, [notifyOf 100 ''Trying'' activeFor60] @ stateNotifies (statesAfter run))
        | None \<Rightarrow>
            let out = [notifyOf 100 ''Trying'' activeFor60] @ stateNotifies (statesDuring run) in
            (case appResult run of
               None \<Rightarrow> (None, out @ stateNotifies (statesAfter run))
             | Some (ResponseFailed code reason) \<Rightarrow>
                 (notifyResult (lastResult run),
                  out @ [notifyOf code reason terminatedNoresource] @ stateNotifies (statesAfter run))
             | Some e \<Rightarrow>
                 if loadedState run = StateNone \<or> loadedState run = StateEstablished
                 then (notifyResult (lastResult run),
                       out @ [notifyOf 400 ''Bad Request'' terminatedNoresource] @ stateNotifies (statesAfter run))
                 else (Some e, out @ stateNotifies (statesAfter run)))))"

definition dialogHandleRefer ::
  "referRequest \<Rightarrow> nat option \<Rightarrow> transferRun \<Rightarrow> transferErr option \<times> int list \<times> notifyOut list" where
  "dialogHandleRefer req respondErr run = (case referRefusal req of
     Some code \<Rightarrow> (map_option RespondFailed respondErr, [code], [])
   | None \<Rightarrow>
       (case respondErr of
          Some e \<Rightarrow> (Some (RespondFailed e), [202], [])
        | None \<Rightarrow> (case dialogReferInvite run of (res, out) \<Rightarrow> (res, [202], out))))"

section \<open>A REFER the application accepts\<close>

text \<open>The transaction handed to the application; its dialog is a pointer that may be nil.\<close>

record ReferTransaction =
  rtDialog :: "nat option"
  rtReferTo :: string
  rtRemoteTarget :: string

definition dialogHandleReferTransaction :: "nat \<Rightarrow> referRequest \<Rightarrow> int + ReferTransaction" where
  "dialogHandleReferTransaction d req = (case referRefusal req of
     Some code \<Rightarrow> Inl code
   | None \<Rightarrow> Inr \<lparr>rtDialog = None, rtReferTo = the (referToUri req (the (referTo req))), rtRemoteTarget = the (referContact req)\<rparr>)"

text \<open>\<open>sendNotify\<close> of a transaction calls \<open>Do\<close> on its dialog, which panics when that is nil: \<^term>\<open>None\<close>.\<close>

definition rtSendNotify :: "ReferTransaction \<Rightarrow> int \<Rightarrow> string \<Rightarrow> notifyOut option" where
  "rtSendNotify r code reason = map_option (\<lambda>d. notifyOf code reason terminatedNoresource) (rtDialog r)"

definition statusNotified :: "nat option \<Rightarrow> dialogState \<Rightarrow> int" where
  "statusNotified inviteErr st = (case inviteErr of
     Some e \<Rightarrow> 200
   | None \<Rightarrow> if st = StateNone \<or> st = StateEstablished then 400 else 200)"

text \<open>
  \<open>Accept\<close>: the error of the 202, of the new dialog, of its INVITE, the state the dialog has after it
  and the result of the NOTIFY. The outer \<^term>\<open>None\<close> is a panic.
\<close>

definition referAccept ::
  "ReferTransaction \<Rightarrow> nat option \<Rightarrow> nat option \<Rightarrow> nat option \<Rightarrow> dialogState \<Rightarrow> nat + int \<Rightarrow>
   (transferErr option \<times> notifyOut list) option" where
  "referAccept r respondErr newErr inviteErr st res =
    (case respondErr of
       Some e \<Rightarrow> Some (Some (RespondFailed e), [])
     | None \<Rightarrow>
         (case newErr of
            Some e \<Rightarrow> Some (Some (NewDialogFailed e), [])
          | None \<Rightarrow>
              (case inviteErr of
                 Some e \<Rightarrow> (case rtSendNotify r 200 ''OK'' of None \<Rightarrow> None
                   | Some n \<Rightarrow> Some (Some (InviteFailed e), [n]))
               | None \<Rightarrow>
                   (case rtSendNotify r (statusNotified None st) (if statusNotified None st = 400 then ''Bad Request'' else ''OK'') of
                      None \<Rightarrow> None
                    | Some n \<Rightarrow>
                        (case notifyResult res of
                           None \<Rightarrow> Some (None, [n])
                         | Some e \<Rightarrow> (case rtSendNotify r 200 ''OK'' of None \<Rightarrow> None
                             | Some n2 \<Rightarrow> Some (Some e, [n, n2])))))))"

section \<open>What is sent\<close>

text \<open>A REFER that is accepted is answered 202, and its first NOTIFY reports 100 with a subscription of a minute.\<close>

lemma transfer_starts:
  assumes "referRefusal req = None" "newDialog run = None"
  shows "fst (snd (dialogHandleRefer req None run)) = [202]"
    "\<exists>rest. snd (snd (dialogHandleRefer req None run)) = notifyOf 100 ''Trying'' activeFor60 # rest"
  using assms
  by (auto simp: dialogHandleRefer_def dialogReferInvite_def Let_def split: option.splits transferErr.splits prod.splits)

text \<open>
  A transaction made by the handler of REFERs carries no dialog, so accepting it panics as soon as a
  NOTIFY is due, whether its INVITE succeeded or failed.
\<close>

lemma accept_panics:
  assumes "dialogHandleReferTransaction d req = Inr r"
  shows "referAccept r None None inviteErr st res = None"
proof -
  have "rtDialog r = None" using assms by (auto simp: dialogHandleReferTransaction_def split: option.splits)
  then show ?thesis by (simp add: referAccept_def rtSendNotify_def split: option.splits)
qed

text \<open>
  With a dialog the NOTIFYs say the opposite of what happened: an INVITE that fails is reported as
  200, and one that is answered but not yet acknowledged, the state a successful \<open>Invite\<close> leaves, as
  400.
\<close>

lemma accept_reports_inverted:
  assumes "rtDialog r = Some d"
  shows "referAccept r None None (Some e) st res = Some (Some (InviteFailed e), [notifyOf 200 ''OK'' terminatedNoresource])"
    "referAccept r None None None StateEstablished (Inr 200) = Some (None, [notifyOf 400 ''Bad Request'' terminatedNoresource])"
  using assms by (simp_all add: referAccept_def rtSendNotify_def statusNotified_def notifyResult_def)

text \<open>A call that is confirmed and later ended is reported twice, the second time on a subscription already terminated.\<close>

lemma transfer_reported_twice:
  assumes "referRefusal req = None" "newDialog run = None" "tryingResult run = Inr 200" "appResult run = None"
    "statesDuring run = [StateEstablished, StateConfirmed]" "statesAfter run = [StateEnded]"
  shows "snd (snd (dialogHandleRefer req None run)) = [notifyOf 100 ''Trying'' activeFor60,
    notifyOf 200 ''OK'' terminatedNoresource, notifyOf 200 ''OK'' terminatedNoresource]"
  using assms by (simp add: dialogHandleRefer_def dialogReferInvite_def notifyResult_def stateNotifies_def)

end
