(* ===== verification/Reinvite.thy ===== *)
theory Reinvite
  imports Session_Timers
begin

text \<open>
  The peer's re-INVITEs of a dialog (\<open>dialog_media.go\<close> with \<open>handleReInvite\<close> and \<open>ReadBye\<close> of both
  dialog sessions). A re-INVITE is handled under \<open>requestMu\<close>, one at a time; its final response goes
  through \<open>respondPeerReInvite\<close> under \<open>answerMu\<close>, where a BYE of the peer can come first. A 2xx is
  retransmitted by a goroutine of its own until the ACK arrives, the dialog ends or 64*T1 have passed.

  The step relation \<open>reinvite_step\<close> has one step for every critical section, so the handler, the
  retransmission, ACKs, BYEs, the end of the dialog by this side and re-INVITEs of this side
  interleave freely. \<open>wire\<close> is what is passed to the server transactions, in order.
\<close>

section \<open>State\<close>

definition sipSuccess :: "int \<Rightarrow> bool" where
  "sipSuccess c = (200 \<le> c \<and> c \<le> 299)"

record ackTimers =
  ackT1 :: duration
  ackT2 :: duration
  ackTimeout :: duration

text \<open>The intervals in use; \<open>T1\<close> and \<open>T2\<close> are those of the SIP library.\<close>

definition ackTimersValues :: "duration \<Rightarrow> duration \<Rightarrow> ackTimers \<Rightarrow> ackTimers" where
  "ackTimersValues sipT1 sipT2 t =
    \<lparr>ackT1 = (if ackT1 t \<le> 0 then sipT1 else ackT1 t), ackT2 = (if ackT2 t \<le> 0 then sipT2 else ackT2 t),
     ackTimeout = (if ackTimeout t \<le> 0 then 64 * sipT1 else ackTimeout t)\<rparr>"

text \<open>
  The goroutine that retransmits: it runs with the status of its response and the interval its timer
  is set to, or is over, with an error when no ACK came. A channel is \<^term>\<open>None\<close> while it is nil, and
  otherwise tells whether it is closed.
\<close>

datatype retransmission = Running int duration | Over bool

record pendingReInvite =
  ptx :: nat
  pcseq :: u32
  pcontact :: nat
  panswered :: bool
  pon2xx :: bool
  packed :: "bool option"
  pretransmitted :: "retransmission option"

text \<open>What goes out: responses to re-INVITEs and BYEs, and the session timer taking effect.\<close>

datatype wireEvent = ToReInvite nat int | ToBye int | TimerSet nat

text \<open>Where the handler of a re-INVITE is; \<open>HEnd\<close> tells whether it marked a media update.\<close>

datatype handlerPc = HHook | HRead | HUpdate | HMedia | HEnd bool

datatype updater = ByPeer nat | ByUs

record reinvite_sys =
  dialogEnded :: bool
  peerReInvite :: "pendingReInvite option"
  remoteContactTarget :: "nat option"
  wire :: "wireEvent list"
  handler :: "(nat \<times> handlerPc) option"
  mediaUpdate :: "updater option"
  hungUp :: "nat list"
  nextTx :: nat

section \<open>Operations\<close>

definition respond :: "nat \<Rightarrow> int \<Rightarrow> reinvite_sys \<Rightarrow> reinvite_sys" where
  "respond tx code s = s\<lparr>wire := wire s @ [ToReInvite tx code]\<rparr>"

definition beginPeerReInvite :: "nat \<Rightarrow> u32 \<Rightarrow> nat \<Rightarrow> reinvite_sys \<Rightarrow> bool \<times> reinvite_sys" where
  "beginPeerReInvite tx cseq contact s =
    (if dialogEnded s then (True, respond tx 481 s)
     else (False, s\<lparr>peerReInvite := Some \<lparr>ptx = tx, pcseq = cseq, pcontact = contact, panswered = False,
             pon2xx = False, packed = None, pretransmitted = None\<rparr>\<rparr>))"

definition onPeerReInvite2xx :: "nat \<Rightarrow> reinvite_sys \<Rightarrow> reinvite_sys" where
  "onPeerReInvite2xx tx s = (case peerReInvite s of
     Some p \<Rightarrow> if ptx p = tx then s\<lparr>peerReInvite := Some (p\<lparr>pon2xx := True\<rparr>)\<rparr> else s
   | None \<Rightarrow> s)"

text \<open>\<open>ok\<close> tells whether the transaction took the response; a 2xx it did not take is not retransmitted.\<close>

definition respondPeerReInvite ::
  "duration \<Rightarrow> nat \<Rightarrow> int \<Rightarrow> bool \<Rightarrow> reinvite_sys \<Rightarrow> bool \<times> reinvite_sys" where
  "respondPeerReInvite t1 tx code ok s = (case peerReInvite s of
     None \<Rightarrow> (True, respond tx code s)
   | Some p \<Rightarrow>
       if ptx p \<noteq> tx then (True, respond tx code s)
       else if panswered p then (False, s)
       else let p = p\<lparr>panswered := True\<rparr>; s = s\<lparr>peerReInvite := Some p\<rparr> in
         if dialogEnded s then (False, respond tx 487 s)
         else if \<not> sipSuccess code then (True, respond tx code s)
         else
           let s = (if pon2xx p then s\<lparr>wire := wire s @ [TimerSet tx]\<rparr> else s);
               s = s\<lparr>remoteContactTarget := Some (pcontact p)\<rparr>;
               p = p\<lparr>packed := Some False\<rparr>;
               p = (if ok then p\<lparr>pretransmitted := Some (Running code t1)\<rparr> else p)
           in (True, (respond tx code s)\<lparr>peerReInvite := Some p\<rparr>))"

definition terminatePeerReInvite :: "reinvite_sys \<Rightarrow> reinvite_sys" where
  "terminatePeerReInvite s = (case peerReInvite s of
     None \<Rightarrow> s
   | Some p \<Rightarrow> if panswered p then s else respond (ptx p) 487 (s\<lparr>peerReInvite := Some (p\<lparr>panswered := True\<rparr>)\<rparr>))"

text \<open>
  What the SIP library does with a BYE: it takes it, ending the dialog and answering 200; it refuses
  it as out of order, answering 500 itself or not; or it fails, with the dialog ended or not.
\<close>

datatype byeOutcome = ByeTaken | ByeInvalidCSeq bool | ByeFailed bool

definition ReadBye :: "byeOutcome \<Rightarrow> reinvite_sys \<Rightarrow> reinvite_sys" where
  "ReadBye b s = (case b of
     ByeTaken \<Rightarrow> terminatePeerReInvite (s\<lparr>dialogEnded := True, wire := wire s @ [ToBye 200]\<rparr>)
   | ByeInvalidCSeq responded \<Rightarrow> s\<lparr>wire := wire s @ [ToBye 500]\<rparr>
   | ByeFailed ended \<Rightarrow> s\<lparr>dialogEnded := dialogEnded s \<or> ended\<rparr>)"

definition ackPeerReInvite :: "u32 option \<Rightarrow> reinvite_sys \<Rightarrow> reinvite_sys" where
  "ackPeerReInvite cseq s = (case (cseq, peerReInvite s) of
     (Some c, Some p) \<Rightarrow>
       if packed p = None \<or> pcseq p \<noteq> c then s else s\<lparr>peerReInvite := Some (p\<lparr>packed := Some True\<rparr>)\<rparr>
   | _ \<Rightarrow> s)"

text \<open>The turns of \<open>retransmitReInvite2xx\<close>: stopped by the ACK or the end of the dialog, its deadline, its timer.\<close>

definition setRetransmission :: "retransmission \<Rightarrow> pendingReInvite \<Rightarrow> reinvite_sys \<Rightarrow> reinvite_sys" where
  "setRetransmission r p s = s\<lparr>peerReInvite := Some (p\<lparr>pretransmitted := Some r\<rparr>)\<rparr>"

definition retransmitTimer ::
  "duration \<Rightarrow> bool \<Rightarrow> int \<Rightarrow> duration \<Rightarrow> pendingReInvite \<Rightarrow> reinvite_sys \<Rightarrow> reinvite_sys" where
  "retransmitTimer t2 ok code interval p s =
    (if dialogEnded s then setRetransmission (Over False) p s
     else if \<not> ok then setRetransmission (Over True) p (respond (ptx p) code s)
     else setRetransmission (Running code (min (2 * interval) t2)) p (respond (ptx p) code s))"

text \<open>
  \<open>endPeerReInvite\<close> once its wait is over: the error it returns has the handler hang up.
  \<open>endUpdate\<close> then ends the media update the handler marked.
\<close>

definition endPeerReInvite :: "nat \<Rightarrow> reinvite_sys \<Rightarrow> bool \<times> reinvite_sys" where
  "endPeerReInvite tx s = (case peerReInvite s of
     None \<Rightarrow> (False, s)
   | Some p \<Rightarrow> if ptx p \<noteq> tx then (False, s)
       else (pretransmitted p = Some (Over True), s\<lparr>peerReInvite := None\<rparr>))"

definition endWaits :: "nat \<Rightarrow> reinvite_sys \<Rightarrow> bool" where
  "endWaits tx s = (case peerReInvite s of
     None \<Rightarrow> False
   | Some p \<Rightarrow> ptx p = tx \<and> (case pretransmitted p of Some (Running c i) \<Rightarrow> True | _ \<Rightarrow> False))"

definition endMediaUpdate :: "updater \<Rightarrow> reinvite_sys \<Rightarrow> reinvite_sys" where
  "endMediaUpdate u s = (if mediaUpdate s = Some u then s\<lparr>mediaUpdate := None\<rparr> else s)"

definition endHandler :: "nat \<Rightarrow> bool \<Rightarrow> reinvite_sys \<Rightarrow> reinvite_sys" where
  "endHandler tx marked s =
    (let (timedOut, s) = endPeerReInvite tx s;
         s = (if timedOut then s\<lparr>hungUp := hungUp s @ [tx]\<rparr> else s);
         s = (if marked then endMediaUpdate (ByPeer tx) s else s)
     in s\<lparr>handler := None\<rparr>)"

section \<open>Steps\<close>

datatype reinvite_label =
    Early | Arrive u32 nat | Hook bool | ReadFails int bool | ReadTaken | Glare bool | TakeTurn | Reply int bool | Leave
  | Bye byeOutcome | LocalEnd | Ack "u32 option"
  | Stop | Deadline | Timer bool
  | OwnBegin | OwnEnd

inductive reinvite_step :: "ackTimers \<Rightarrow> reinvite_sys \<Rightarrow> reinvite_label \<Rightarrow> reinvite_sys \<Rightarrow> bool"
  for T :: ackTimers where
  step_early: "reinvite_step T s Early ((respond (nextTx s) 491 s)\<lparr>nextTx := Suc (nextTx s)\<rparr>)"
| step_arrive: "handler s = None \<Longrightarrow> beginPeerReInvite (nextTx s) cseq contact s = (done, s') \<Longrightarrow>
    reinvite_step T s (Arrive cseq contact)
      (s'\<lparr>nextTx := Suc (nextTx s), handler := (if done then None else Some (nextTx s, HHook))\<rparr>)"
| step_hook: "handler s = Some (tx, HHook) \<Longrightarrow>
    reinvite_step T s (Hook hasTimer) ((if hasTimer then onPeerReInvite2xx tx s else s)\<lparr>handler := Some (tx, HRead)\<rparr>)"
| step_read_fails: "handler s = Some (tx, HRead) \<Longrightarrow> code = 500 \<or> code = 400 \<Longrightarrow>
    respondPeerReInvite (ackT1 T) tx code ok s = (sent, s') \<Longrightarrow>
    reinvite_step T s (ReadFails code ok) (s'\<lparr>handler := Some (tx, HEnd False)\<rparr>)"
| step_read: "handler s = Some (tx, HRead) \<Longrightarrow> reinvite_step T s ReadTaken (s\<lparr>handler := Some (tx, HUpdate)\<rparr>)"
| step_glare: "handler s = Some (tx, HUpdate) \<Longrightarrow> mediaUpdate s \<noteq> None \<Longrightarrow>
    respondPeerReInvite (ackT1 T) tx 491 ok s = (sent, s') \<Longrightarrow>
    reinvite_step T s (Glare ok) (s'\<lparr>handler := Some (tx, HEnd False)\<rparr>)"
| step_turn: "handler s = Some (tx, HUpdate) \<Longrightarrow> mediaUpdate s = None \<Longrightarrow>
    reinvite_step T s TakeTurn (s\<lparr>mediaUpdate := Some (ByPeer tx), handler := Some (tx, HMedia)\<rparr>)"
| step_reply: "handler s = Some (tx, HMedia) \<Longrightarrow> respondPeerReInvite (ackT1 T) tx code ok s = (sent, s') \<Longrightarrow>
    reinvite_step T s (Reply code ok) (s'\<lparr>handler := Some (tx, HEnd True)\<rparr>)"
| step_leave: "handler s = Some (tx, HEnd marked) \<Longrightarrow> \<not> endWaits tx s \<Longrightarrow>
    reinvite_step T s Leave (endHandler tx marked s)"
| step_bye: "reinvite_step T s (Bye b) (ReadBye b s)"
| step_local_end: "reinvite_step T s LocalEnd (s\<lparr>dialogEnded := True\<rparr>)"
| step_ack: "reinvite_step T s (Ack cseq) (ackPeerReInvite cseq s)"
| step_stop: "peerReInvite s = Some p \<Longrightarrow> pretransmitted p = Some (Running code interval) \<Longrightarrow>
    packed p = Some True \<or> dialogEnded s \<Longrightarrow> reinvite_step T s Stop (setRetransmission (Over False) p s)"
| step_deadline: "peerReInvite s = Some p \<Longrightarrow> pretransmitted p = Some (Running code interval) \<Longrightarrow>
    reinvite_step T s Deadline (setRetransmission (Over True) p s)"
| step_timer: "peerReInvite s = Some p \<Longrightarrow> pretransmitted p = Some (Running code interval) \<Longrightarrow>
    reinvite_step T s (Timer ok) (retransmitTimer (ackT2 T) ok code interval p s)"
| step_own_begin: "mediaUpdate s = None \<Longrightarrow> reinvite_step T s OwnBegin (s\<lparr>mediaUpdate := Some ByUs\<rparr>)"
| step_own_end: "mediaUpdate s = Some ByUs \<Longrightarrow> reinvite_step T s OwnEnd (endMediaUpdate ByUs s)"

definition reinvite_init :: "reinvite_sys \<Rightarrow> bool" where
  "reinvite_init s = (\<not> dialogEnded s \<and> peerReInvite s = None \<and> wire s = [] \<and> handler s = None \<and>
     mediaUpdate s = None \<and> hungUp s = [] \<and> nextTx s = 0)"


section \<open>The invariant\<close>

text \<open>The responses a re-INVITE has been given, in order.\<close>

fun codes :: "nat \<Rightarrow> wireEvent list \<Rightarrow> int list" where
  "codes tx [] = []"
| "codes tx (ToReInvite t c # w) = (if t = tx then c # codes tx w else codes tx w)"
| "codes tx (e # w) = codes tx w"

lemma codes_append [simp]: "codes tx (v @ w) = codes tx v @ codes tx w"
  by (induction tx v rule: codes.induct) auto

text \<open>One final response: anything but a 2xx once, a 2xx any number of times.\<close>

definition oneFinal :: "int list \<Rightarrow> bool" where
  "oneFinal cs = (cs = [] \<or> (\<exists>c k. cs = replicate (Suc k) c \<and> (sipSuccess c \<or> k = 0)))"

fun is2xx :: "wireEvent \<Rightarrow> bool" where
  "is2xx (ToReInvite t c) = sipSuccess c"
| "is2xx e = False"

text \<open>After the 200 of a BYE no re-INVITE is answered 2xx.\<close>

fun quietAfterBye :: "wireEvent list \<Rightarrow> bool" where
  "quietAfterBye [] = True"
| "quietAfterBye (e # w) = ((e = ToBye 200 \<longrightarrow> (\<forall>f \<in> set w. \<not> is2xx f)) \<and> quietAfterBye w)"

lemma quietAfterBye_snoc:
  "quietAfterBye (w @ [e]) \<longleftrightarrow> quietAfterBye w \<and> (is2xx e \<longrightarrow> ToBye 200 \<notin> set w)"
  by (induction w) auto

lemma quietAfterBye_split: "quietAfterBye (v @ ToBye 200 # w) \<Longrightarrow> e \<in> set w \<Longrightarrow> \<not> is2xx e"
  by (induction v) auto

definition intervalAt :: "ackTimers \<Rightarrow> nat \<Rightarrow> duration" where
  "intervalAt T k = (if k = 0 then ackT1 T else min (2 ^ k * ackT1 T) (ackT2 T))"

lemma intervalAt_Suc:
  assumes "0 < ackT1 T" "0 < ackT2 T"
  shows "min (2 * intervalAt T k) (ackT2 T) = intervalAt T (Suc k)"
  using assms by (auto simp: intervalAt_def min_def)

text \<open>What holds of the re-INVITE being handled, by where its handler is and what it has been answered.\<close>

definition pendingInv :: "ackTimers \<Rightarrow> handlerPc \<Rightarrow> int list \<Rightarrow> pendingReInvite \<Rightarrow> bool" where
  "pendingInv T h cs p =
    ((panswered p \<longleftrightarrow> cs \<noteq> []) \<and>
     ((\<forall>b. h \<noteq> HEnd b) \<longrightarrow> packed p = None \<and> (cs = [] \<or> cs = [487])) \<and>
     ((\<exists>b. h = HEnd b) \<longrightarrow> cs \<noteq> []) \<and>
     (packed p \<noteq> None \<longrightarrow> h = HEnd True \<and> sipSuccess (hd cs)) \<and>
     (packed p = None \<longrightarrow> pretransmitted p = None \<and> length cs \<le> 1 \<and> (\<forall>c \<in> set cs. \<not> sipSuccess c)) \<and>
     (\<forall>c i. pretransmitted p = Some (Running c i) \<longrightarrow>
        (\<exists>k. cs = replicate (Suc k) c \<and> i = intervalAt T k)))"


text \<open>What holds of everything sent: \<open>n\<close> re-INVITEs came, and \<open>at_work\<close> is being handled.\<close>

definition wireInv :: "wireEvent list \<Rightarrow> nat \<Rightarrow> bool \<Rightarrow> nat option \<Rightarrow> bool" where
  "wireInv w n ended at_work =
    ((\<forall>tx. oneFinal (codes tx w)) \<and> (\<forall>tx. codes tx w \<noteq> [] \<longrightarrow> tx < n) \<and>
     (\<forall>tx < n. at_work \<noteq> Some tx \<longrightarrow> codes tx w \<noteq> []) \<and>
     (ToBye 200 \<in> set w \<longrightarrow> ended) \<and> quietAfterBye w)"

definition reinvite_inv :: "ackTimers \<Rightarrow> reinvite_sys \<Rightarrow> bool" where
  "reinvite_inv T s =
    (wireInv (wire s) (nextTx s) (dialogEnded s) (map_option fst (handler s)) \<and>
     (case handler s of
        None \<Rightarrow> peerReInvite s = None \<and> (\<forall>tx. mediaUpdate s \<noteq> Some (ByPeer tx))
      | Some (tx, h) \<Rightarrow> tx < nextTx s \<and>
          (\<exists>p. peerReInvite s = Some p \<and> ptx p = tx \<and> pendingInv T h (codes tx (wire s)) p) \<and>
          (\<forall>t. mediaUpdate s = Some (ByPeer t) \<longleftrightarrow> t = tx \<and> h \<in> {HMedia, HEnd True})))"

lemma reinvite_inv_init: "reinvite_init s \<Longrightarrow> reinvite_inv T s"
  by (simp add: reinvite_init_def reinvite_inv_def wireInv_def oneFinal_def)

lemma oneFinal_single [simp]: "oneFinal [c]"
  unfolding oneFinal_def by (rule disjI2, rule exI [of _ c], rule exI [of _ 0]) simp

lemma oneFinal_Nil [simp]: "oneFinal []"
  by (simp add: oneFinal_def)

lemma oneFinal_again: "sipSuccess c \<Longrightarrow> oneFinal (replicate (Suc k) c @ [c])"
  unfolding oneFinal_def
  by (rule disjI2, rule exI [of _ c], rule exI [of _ "Suc k"]) (simp add: replicate_append_same)

lemma wireInv_other:
  assumes "wireInv w n ended o'" "\<And>t c. ev \<noteq> ToReInvite t c" "ended \<longrightarrow> ended'" "ev = ToBye 200 \<longrightarrow> ended'"
  shows "wireInv (w @ [ev]) n ended' o'"
  using assms by (cases ev) (auto simp: wireInv_def quietAfterBye_snoc)

lemma wireInv_respond:
  assumes "wireInv w n ended o'" "tx < n" "oneFinal (codes tx w @ [c])" "sipSuccess c \<longrightarrow> \<not> ended"
  shows "wireInv (w @ [ToReInvite tx c]) n ended o'"
  using assms by (auto simp: wireInv_def quietAfterBye_snoc)

lemma wireInv_ended: "wireInv w n ended o' \<Longrightarrow> ended \<longrightarrow> ended' \<Longrightarrow> wireInv w n ended' o'"
  by (auto simp: wireInv_def)

lemma wireInv_release: "wireInv w n ended (Some tx) \<Longrightarrow> codes tx w \<noteq> [] \<Longrightarrow> wireInv w n ended None"
  by (auto simp: wireInv_def)

lemma wireInv_next:
  "wireInv w n ended None \<Longrightarrow> wireInv w (Suc n) ended (Some n)"
  by (auto simp: wireInv_def less_Suc_eq)

lemma wireInv_nextAnswered:
  assumes "wireInv w n ended o'" "\<not> sipSuccess c"
  shows "wireInv (w @ [ToReInvite n c]) (Suc n) ended o'"
proof -
  have "codes n w = []" using assms(1) by (auto simp: wireInv_def)
  then show ?thesis using assms by (auto simp: wireInv_def less_Suc_eq quietAfterBye_snoc)
qed

lemma handledE:
  assumes "reinvite_inv T s" "handler s = Some (tx, h)"
  obtains p where "peerReInvite s = Some p" "ptx p = tx" "tx < nextTx s" "pendingInv T h (codes tx (wire s)) p"
    "wireInv (wire s) (nextTx s) (dialogEnded s) (Some tx)"
    "\<And>t. mediaUpdate s = Some (ByPeer t) \<longleftrightarrow> t = tx \<and> h \<in> {HMedia, HEnd True}"
  using assms by (auto simp: reinvite_inv_def)

lemma reinvite_invI:
  assumes "handler s = Some (tx, h)" "peerReInvite s = Some p" "ptx p = tx" "tx < nextTx s"
    "pendingInv T h (codes tx (wire s)) p" "wireInv (wire s) (nextTx s) (dialogEnded s) (Some tx)"
    "\<And>t. mediaUpdate s = Some (ByPeer t) \<longleftrightarrow> t = tx \<and> h \<in> {HMedia, HEnd True}"
  shows "reinvite_inv T s"
  using assms by (simp add: reinvite_inv_def)

text \<open>A final response through \<open>respondPeerReInvite\<close>: a 2xx only from the handler's media update.\<close>

lemma answer_pending:
  assumes "pendingInv T h cs p" "\<forall>b. h \<noteq> HEnd b" "panswered p"
  shows "pendingInv T (HEnd b) cs p"
  using assms by (auto simp: pendingInv_def)

lemma answer_refused:
  assumes "pendingInv T h cs p" "\<forall>b. h \<noteq> HEnd b" "\<not> panswered p" "\<not> sipSuccess c"
  shows "cs = []" "pendingInv T (HEnd b) [c] (p\<lparr>panswered := True\<rparr>)"
  using assms by (auto simp: pendingInv_def)

lemma answer_success:
  assumes "pendingInv T h cs p" "\<forall>b. h \<noteq> HEnd b" "\<not> panswered p" "sipSuccess c"
    and "r = None \<or> r = Some (Running c (ackT1 T))"
  shows "pendingInv T (HEnd True) [c] (p\<lparr>panswered := True, packed := Some False, pretransmitted := r\<rparr>)"
  using assms by (auto simp: pendingInv_def intervalAt_def intro: exI [of _ 0])

lemma reply_inv:
  assumes inv: "reinvite_inv T s" and h: "handler s = Some (tx, h)" "\<forall>b. h \<noteq> HEnd b"
    and b: "b \<longleftrightarrow> h = HMedia" "sipSuccess code \<Longrightarrow> b"
    and s': "respondPeerReInvite (ackT1 T) tx code ok s = (sent, s')"
  shows "reinvite_inv T (s'\<lparr>handler := Some (tx, HEnd b)\<rparr>)"
proof (rule handledE [OF inv h(1)])
  fix p assume p: "peerReInvite s = Some p" "ptx p = tx" "tx < nextTx s" "pendingInv T h (codes tx (wire s)) p"
    and w: "wireInv (wire s) (nextTx s) (dialogEnded s) (Some tx)"
    and u: "\<And>t. mediaUpdate s = Some (ByPeer t) \<longleftrightarrow> t = tx \<and> h \<in> {HMedia, HEnd True}"
  have u': "mediaUpdate s = Some (ByPeer t) \<longleftrightarrow> t = tx \<and> HEnd b \<in> {HMedia, HEnd True}" for t
    using u [of t] h(2) b(1) by auto
  note I = reinvite_invI [where tx = tx and h = "HEnd b"]
  consider (answered) "panswered p" | (ended) "\<not> panswered p" "dialogEnded s"
    | (refused) "\<not> panswered p" "\<not> dialogEnded s" "\<not> sipSuccess code"
    | (success) "\<not> panswered p" "\<not> dialogEnded s" "sipSuccess code" by blast
  then show ?thesis
  proof cases
    case answered
    then have "s' = s" using s' p by (simp add: respondPeerReInvite_def)
    then show ?thesis using p w u' answer_pending [OF p(4) h(2) answered] by (intro I [where p = p]) simp_all
  next
    case ended
    note a = answer_refused [OF p(4) h(2) ended(1), of 487]
    have "s' = respond tx 487 (s\<lparr>peerReInvite := Some (p\<lparr>panswered := True\<rparr>)\<rparr>)"
      using s' p ended by (simp add: respondPeerReInvite_def)
    then show ?thesis using p w u' a ended
      by (intro I [where p = "p\<lparr>panswered := True\<rparr>"]) (simp_all add: respond_def sipSuccess_def wireInv_respond)
  next
    case refused
    note a = answer_refused [OF p(4) h(2) refused(1,3)]
    have "s' = respond tx code (s\<lparr>peerReInvite := Some (p\<lparr>panswered := True\<rparr>)\<rparr>)"
      using s' p refused by (simp add: respondPeerReInvite_def)
    then show ?thesis using p w u' a refused
      by (intro I [where p = "p\<lparr>panswered := True\<rparr>"]) (simp_all add: respond_def wireInv_respond)
  next
    case success
    have cs: "codes tx (wire s) = []" using p(4) success(1) by (simp add: pendingInv_def)
    have b': b using b success by simp
    let ?r = "if ok then Some (Running code (ackT1 T)) else pretransmitted p"
    let ?w = "if pon2xx p then wire s @ [TimerSet tx] else wire s"
    have r: "pretransmitted p = None" using p(4) h(2) by (auto simp: pendingInv_def)
    have s'': "s' = s\<lparr>peerReInvite := Some (p\<lparr>panswered := True, packed := Some False, pretransmitted := ?r\<rparr>),
        remoteContactTarget := Some (pcontact p), wire := ?w @ [ToReInvite tx code]\<rparr>"
      using s' p success by (auto simp: respondPeerReInvite_def respond_def Let_def)
    have w': "wireInv ?w (nextTx s) (dialogEnded s) (Some tx)" "codes tx ?w = []"
      using w cs by (auto intro: wireInv_other)
    show ?thesis unfolding s'' using p w' u' success cs b' r answer_success [OF p(4) h(2) success(1,3), of ?r]
      by (intro I [where p = "p\<lparr>panswered := True, packed := Some False, pretransmitted := ?r\<rparr>"])
        (simp_all add: wireInv_respond)
  qed
qed


lemma arrive_inv:
  assumes "reinvite_inv T s" "handler s = None" "beginPeerReInvite (nextTx s) cseq contact s = (done, s')"
  shows "reinvite_inv T (s'\<lparr>nextTx := Suc (nextTx s), handler := (if done then None else Some (nextTx s, HHook))\<rparr>)"
proof -
  have w: "wireInv (wire s) (nextTx s) (dialogEnded s) None" using assms(1,2) by (simp add: reinvite_inv_def)
  then have "codes (nextTx s) (wire s) = []" by (auto simp: wireInv_def)
  then show ?thesis using assms w wireInv_nextAnswered [OF w, of 481] wireInv_next [OF w]
    by (auto simp: beginPeerReInvite_def respond_def reinvite_inv_def pendingInv_def sipSuccess_def split: if_splits)
qed

lemma hook_inv:
  assumes "reinvite_inv T s" "handler s = Some (tx, HHook)"
  shows "reinvite_inv T ((if hasTimer then onPeerReInvite2xx tx s else s)\<lparr>handler := Some (tx, HRead)\<rparr>)"
  using assms(2) by (rule_tac handledE [OF assms])
    (auto simp: onPeerReInvite2xx_def reinvite_inv_def pendingInv_def)

lemma bye_inv:
  assumes "reinvite_inv T s"
  shows "reinvite_inv T (ReadBye b s)"
proof (cases "b = ByeTaken \<and> handler s \<noteq> None")
  case False
  have w: "wireInv (wire s) (nextTx s) (dialogEnded s) (map_option fst (handler s))"
    using assms by (simp add: reinvite_inv_def)
  note w200 = wireInv_other [OF w, of "ToBye 200" True] and w500 = wireInv_other [OF w, of "ToBye 500" "dialogEnded s"]
    and we = wireInv_ended [OF w, of True]
  show ?thesis
  proof (cases b)
    case ByeTaken
    then have hn: "handler s = None" using False by blast
    then have "peerReInvite s = None" using assms by (simp add: reinvite_inv_def)
    with hn show ?thesis using assms ByeTaken w200 by (simp add: ReadBye_def reinvite_inv_def terminatePeerReInvite_def)
  next
    case (ByeInvalidCSeq r)
    then show ?thesis using assms w500 by (simp add: ReadBye_def reinvite_inv_def split: option.splits prod.splits)
  next
    case (ByeFailed e)
    then show ?thesis using assms we by (cases e) (simp_all add: ReadBye_def reinvite_inv_def split: option.splits prod.splits)
  qed
next
  case True
  then obtain tx h where h: "handler s = Some (tx, h)" by auto
  show ?thesis
  proof (rule handledE [OF assms h])
    fix p assume p: "peerReInvite s = Some p" "ptx p = tx" "tx < nextTx s" "pendingInv T h (codes tx (wire s)) p"
      and w: "wireInv (wire s) (nextTx s) (dialogEnded s) (Some tx)"
      and u: "\<And>t. mediaUpdate s = Some (ByPeer t) \<longleftrightarrow> t = tx \<and> h \<in> {HMedia, HEnd True}"
    have w': "wireInv (wire s @ [ToBye 200]) (nextTx s) True (Some tx)" using w by (rule wireInv_other) simp_all
    show ?thesis
    proof (cases "panswered p")
      case answered: True
      then have "ReadBye b s = s\<lparr>dialogEnded := True, wire := wire s @ [ToBye 200]\<rparr>"
        using True p by (simp add: ReadBye_def terminatePeerReInvite_def)
      then show ?thesis using h p w' u by (intro reinvite_invI [where tx = tx and h = h and p = p]) simp_all
    next
      case answered: False
      then have "codes tx (wire s) = []" "pendingInv T h [487] (p\<lparr>panswered := True\<rparr>)"
        using p(4) by (auto simp: pendingInv_def sipSuccess_def)
      moreover have "ReadBye b s = s\<lparr>dialogEnded := True, peerReInvite := Some (p\<lparr>panswered := True\<rparr>),
          wire := (wire s @ [ToBye 200]) @ [ToReInvite tx 487]\<rparr>"
        using True p answered by (simp add: ReadBye_def terminatePeerReInvite_def respond_def)
      moreover have "wireInv ((wire s @ [ToBye 200]) @ [ToReInvite tx 487]) (nextTx s) True (Some tx)"
        using w' p(3) calculation(1) by (intro wireInv_respond) (simp_all add: sipSuccess_def)
      ultimately show ?thesis using h p u
        by (intro reinvite_invI [where tx = tx and h = h and p = "p\<lparr>panswered := True\<rparr>"]) simp_all
    qed
  qed
qed

lemma ack_inv:
  assumes "reinvite_inv T s"
  shows "reinvite_inv T (ackPeerReInvite cseq s)"
proof (cases "peerReInvite s")
  case None
  then show ?thesis using assms by (simp add: ackPeerReInvite_def split: option.splits)
next
  case (Some p)
  have "pendingInv T h cs (p\<lparr>packed := Some True\<rparr>)" if "packed p \<noteq> None" "pendingInv T h cs p" for h cs
    using that by (auto simp: pendingInv_def)
  then show ?thesis using assms Some
    by (auto simp: ackPeerReInvite_def reinvite_inv_def split: option.splits)
qed

text \<open>The turns of the retransmission, on the re-INVITE whose handler waits for it.\<close>

lemma retransmitE:
  assumes "reinvite_inv T s" "peerReInvite s = Some p" "pretransmitted p = Some (Running c i)"
  obtains tx k where "handler s = Some (tx, HEnd True)" "ptx p = tx" "codes tx (wire s) = replicate (Suc k) c"
    "i = intervalAt T k" "sipSuccess c" "pendingInv T (HEnd True) (codes tx (wire s)) p"
proof -
  obtain tx h where h: "handler s = Some (tx, h)" using assms by (cases "handler s") (auto simp: reinvite_inv_def)
  then have p: "ptx p = tx" "pendingInv T h (codes tx (wire s)) p" using assms by (auto simp: reinvite_inv_def)
  then have "packed p \<noteq> None" using assms(3) by (auto simp: pendingInv_def)
  then have e: "h = HEnd True" and su: "sipSuccess (hd (codes tx (wire s)))" using p by (simp_all add: pendingInv_def)
  from p(2) assms(3) obtain k where k: "codes tx (wire s) = replicate (Suc k) c" "i = intervalAt T k"
    unfolding pendingInv_def by blast
  show ?thesis by (rule that [of tx k]) (use p h e su k in simp_all)
qed

lemma pendingInv_over:
  "pendingInv T (HEnd True) cs p \<Longrightarrow> packed p \<noteq> None \<Longrightarrow>
   pendingInv T (HEnd True) cs (p\<lparr>pretransmitted := Some (Over e)\<rparr>)"
  by (auto simp: pendingInv_def)

lemma over_inv:
  assumes "reinvite_inv T s" "peerReInvite s = Some p" "pretransmitted p = Some (Running c i)"
  shows "reinvite_inv T (setRetransmission (Over e) p s)"
proof (rule retransmitE [OF assms])
  fix tx k assume h: "handler s = Some (tx, HEnd True)" "ptx p = tx"
    and p: "pendingInv T (HEnd True) (codes tx (wire s)) p"
  have "packed p \<noteq> None" using p assms(3) by (auto simp: pendingInv_def)
  then show ?thesis using pendingInv_over [OF p, of e] assms(1) h
    by (auto simp: reinvite_inv_def setRetransmission_def)
qed

lemma resend_inv:
  assumes "reinvite_inv T s" "peerReInvite s = Some p" "pretransmitted p = Some (Running c i)" "\<not> dialogEnded s"
    and t: "0 < ackT1 T" "0 < ackT2 T" and r: "r = Over True \<or> r = Running c (min (2 * i) (ackT2 T))"
  shows "reinvite_inv T (setRetransmission r p (respond (ptx p) c s))"
proof (rule retransmitE [OF assms(1-3)])
  fix tx k assume h: "handler s = Some (tx, HEnd True)" "ptx p = tx"
    and k: "codes tx (wire s) = replicate (Suc k) c" "i = intervalAt T k" "sipSuccess c"
    and p: "pendingInv T (HEnd True) (codes tx (wire s)) p"
  have cs: "codes tx (wire s @ [ToReInvite tx c]) = replicate (Suc (Suc k)) c"
    using k by (simp add: replicate_append_same)
  have "packed p \<noteq> None" using p assms(3) by (auto simp: pendingInv_def)
  then have p': "pendingInv T (HEnd True) (replicate (Suc (Suc k)) c) (p\<lparr>pretransmitted := Some r\<rparr>)"
    using p k r intervalAt_Suc [OF t, of k] by (auto simp: pendingInv_def simp del: replicate_Suc intro: exI [of _ "Suc k"])
  have "tx < nextTx s" "wireInv (wire s) (nextTx s) (dialogEnded s) (Some tx)"
    using assms(1) h by (auto simp: reinvite_inv_def)
  then have "wireInv (wire s @ [ToReInvite tx c]) (nextTx s) (dialogEnded s) (Some tx)"
    using k assms(4) oneFinal_again [of c k] by (intro wireInv_respond) simp_all
  then show ?thesis using assms(1) h p' cs
    by (auto simp: reinvite_inv_def setRetransmission_def respond_def)
qed


lemma leave_inv:
  assumes "reinvite_inv T s" "handler s = Some (tx, HEnd marked)"
  shows "reinvite_inv T (endHandler tx marked s)"
proof (rule handledE [OF assms])
  fix p assume p: "peerReInvite s = Some p" "ptx p = tx" "tx < nextTx s" "pendingInv T (HEnd marked) (codes tx (wire s)) p"
    and w: "wireInv (wire s) (nextTx s) (dialogEnded s) (Some tx)"
    and u: "\<And>t. mediaUpdate s = Some (ByPeer t) \<longleftrightarrow> t = tx \<and> HEnd marked \<in> {HMedia, HEnd True}"
  have "wireInv (wire s) (nextTx s) (dialogEnded s) None"
    using wireInv_release [OF w] p(4) by (auto simp: pendingInv_def)
  then show ?thesis using p(1,2) u
    by (auto simp: reinvite_inv_def endHandler_def endPeerReInvite_def endMediaUpdate_def Let_def)
qed

lemma own_inv:
  assumes "reinvite_inv T s" "mediaUpdate s = None \<or> mediaUpdate s = Some ByUs" "u = None \<or> u = Some ByUs"
  shows "reinvite_inv T (s\<lparr>mediaUpdate := u\<rparr>)"
  using assms by (auto simp: reinvite_inv_def split: option.splits prod.splits)

lemma reinvite_inv_step:
  assumes "reinvite_step T s l s'" "reinvite_inv T s" "0 < ackT1 T" "0 < ackT2 T"
  shows "reinvite_inv T s'"
  using assms(1)
proof cases
  case step_early
  have "wireInv (wire s) (nextTx s) (dialogEnded s) (map_option fst (handler s))"
    using assms(2) by (simp add: reinvite_inv_def)
  from wireInv_nextAnswered [OF this, of 491] assms(2) wireInv_def show ?thesis unfolding step_early
    by (auto simp: reinvite_inv_def respond_def sipSuccess_def split: option.splits)
next
  case (step_arrive cseq contact ended s'')
  then show ?thesis using arrive_inv [OF assms(2)] by simp
next
  case (step_hook tx hasTimer)
  then show ?thesis using hook_inv [OF assms(2)] by simp
next
  case (step_read_fails tx code ok sent s'')
  then show ?thesis using assms(2) by (auto intro!: reply_inv simp: sipSuccess_def)
next
  case (step_read tx)
  then show ?thesis using assms(2) by (auto simp: reinvite_inv_def pendingInv_def)
next
  case (step_glare tx ok sent s'')
  then show ?thesis using assms(2) by (auto intro!: reply_inv simp: sipSuccess_def)
next
  case (step_turn tx)
  then show ?thesis using assms(2) by (auto simp: reinvite_inv_def pendingInv_def)
next
  case (step_reply tx code ok sent s'')
  then show ?thesis using assms(2) by (auto intro!: reply_inv)
next
  case (step_leave tx marked)
  then show ?thesis using leave_inv [OF assms(2)] by simp
next
  case (step_bye b)
  then show ?thesis using bye_inv [OF assms(2)] by simp
next
  case step_local_end
  then show ?thesis using bye_inv [OF assms(2), of "ByeFailed True"] by (simp add: ReadBye_def)
next
  case (step_ack cseq)
  then show ?thesis using ack_inv [OF assms(2)] by simp
next
  case (step_stop p code interval)
  then show ?thesis using over_inv [OF assms(2)] by simp
next
  case (step_deadline p code interval)
  then show ?thesis using over_inv [OF assms(2)] by simp
next
  case (step_timer p code interval ok)
  then show ?thesis using over_inv [OF assms(2) step_timer(3,4)] resend_inv [OF assms(2) step_timer(3,4) _ assms(3,4)]
    by (simp add: retransmitTimer_def)
next
  case step_own_begin
  then show ?thesis using own_inv [OF assms(2)] by simp
next
  case step_own_end
  then show ?thesis using own_inv [OF assms(2)] by (simp add: endMediaUpdate_def)
qed


definition timersPositive :: "ackTimers \<Rightarrow> bool" where
  "timersPositive T = (0 < ackT1 T \<and> 0 < ackT2 T)"

lemma ackTimersValues_positive: "0 < t1 \<Longrightarrow> 0 < t2 \<Longrightarrow> timersPositive (ackTimersValues t1 t2 t)"
  by (simp add: timersPositive_def ackTimersValues_def)

text \<open>Once a BYE has its 200, no re-INVITE is left without an answer.\<close>

definition byeSettled :: "reinvite_sys \<Rightarrow> bool" where
  "byeSettled s = (\<forall>p. ToBye 200 \<in> set (wire s) \<and> peerReInvite s = Some p \<longrightarrow> panswered p)"

lemma reply_settled:
  assumes "respondPeerReInvite t1 tx code ok s = (sent, s')" "byeSettled s"
  shows "byeSettled (s'\<lparr>handler := h\<rparr>)"
  using assms by (auto simp: respondPeerReInvite_def respond_def byeSettled_def Let_def split: option.splits if_splits)

lemma byeSettled_step:
  assumes "reinvite_step T s l s'" "reinvite_inv T s" "byeSettled s"
  shows "byeSettled s'"
  using assms(1)
proof cases
  case (step_arrive cseq contact ended s'')
  have "ToBye 200 \<in> set (wire s) \<Longrightarrow> dialogEnded s" using assms(2) by (simp add: reinvite_inv_def wireInv_def)
  then show ?thesis using assms(3) step_arrive
    by (auto simp: beginPeerReInvite_def respond_def byeSettled_def split: if_splits)
next
  case (step_bye b)
  then show ?thesis using assms(3)
    by (cases b) (auto simp: ReadBye_def terminatePeerReInvite_def respond_def byeSettled_def split: option.splits if_splits)
next
  case (step_read_fails tx code ok sent s'')
  then show ?thesis using reply_settled assms(3) by simp
next
  case (step_glare tx ok sent s'')
  then show ?thesis using reply_settled assms(3) by simp
next
  case (step_reply tx code ok sent s'')
  then show ?thesis using reply_settled assms(3) by simp
next
  case (step_ack cseq)
  then show ?thesis using assms(3)
    by (auto simp: ackPeerReInvite_def byeSettled_def split: option.splits if_splits)
next
  case (step_hook tx hasTimer)
  then show ?thesis using assms(3) by (auto simp: onPeerReInvite2xx_def byeSettled_def split: option.splits if_splits)
next
  case (step_leave tx marked)
  then show ?thesis using assms(3)
    by (auto simp: endHandler_def endPeerReInvite_def endMediaUpdate_def byeSettled_def Let_def split: option.splits if_splits)
qed (use assms(3) in \<open>auto simp: byeSettled_def respond_def setRetransmission_def retransmitTimer_def endMediaUpdate_def\<close>)

interpretation reinvites: transition_system reinvite_init "reinvite_step T"
  "\<lambda>s. timersPositive T \<longrightarrow> reinvite_inv T s \<and> byeSettled s" for T
proof unfold_locales
  show "timersPositive T \<longrightarrow> reinvite_inv T s \<and> byeSettled s" if "reinvite_init s" for s
    using that reinvite_inv_init by (simp add: byeSettled_def reinvite_init_def)
  show "timersPositive T \<longrightarrow> reinvite_inv T s' \<and> byeSettled s'"
    if "timersPositive T \<longrightarrow> reinvite_inv T s \<and> byeSettled s" "reinvite_step T s l s'" for s l s'
    using that reinvite_inv_step byeSettled_step unfolding timersPositive_def by blast
qed


lemma reachable_inv:
  assumes "0 < t1" "0 < t2" "reinvite_init s" "exec (reinvite_step (ackTimersValues t1 t2 t)) s ls s'"
  shows "reinvite_inv (ackTimersValues t1 t2 t) s'" "byeSettled s'"
  using reinvites.inv_reachable [OF assms(3,4)] ackTimersValues_positive [OF assms(1,2)] by simp_all

section \<open>Properties\<close>

text \<open>
  C12. Every re-INVITE of the peer's gets one final response. Whatever the order in which the handler,
  the retransmission, ACKs, BYEs and this side's own actions take their turns, what has been sent to
  a re-INVITE is nothing, one response other than a 2xx, or the same 2xx repeated; and a re-INVITE
  whose handler has left has been answered.
\<close>

theorem reinvite_one_final:
  assumes "0 < t1" "0 < t2" "reinvite_init s" "exec (reinvite_step (ackTimersValues t1 t2 t)) s ls s'"
  shows "oneFinal (codes tx (wire s')) \<and>
    (tx < nextTx s' \<and> (\<forall>h. handler s' \<noteq> Some (tx, h)) \<longrightarrow> codes tx (wire s') \<noteq> [])"
  using reachable_inv [OF assms] by (auto simp: reinvite_inv_def wireInv_def)

text \<open>
  A run for the witnesses: a re-INVITE is accepted with the session timer, its 2xx sent again, and the
  peer ends the dialog; another one then gets a 481.
\<close>

definition exT :: ackTimers where
  "exT = ackTimersValues (500 * millisecond) (4 * second) \<lparr>ackT1 = 0, ackT2 = 0, ackTimeout = 0\<rparr>"

definition exR :: "pendingReInvite option \<Rightarrow> wireEvent list \<Rightarrow> handlerPc \<Rightarrow> updater option \<Rightarrow> reinvite_sys" where
  "exR p w h u = \<lparr>dialogEnded = False, peerReInvite = p, remoteContactTarget = (if w = [] then None else Some 1),
     wire = w, handler = Some (0, h), mediaUpdate = u, hungUp = [], nextTx = 1\<rparr>"

definition exP :: "bool \<Rightarrow> bool \<Rightarrow> retransmission option \<Rightarrow> pendingReInvite" where
  "exP hook done r = \<lparr>ptx = 0, pcseq = 7, pcontact = 1, panswered = done, pon2xx = hook,
     packed = (if done then Some False else None), pretransmitted = r\<rparr>"

definition exR0 :: reinvite_sys where
  "exR0 = \<lparr>dialogEnded = False, peerReInvite = None, remoteContactTarget = None, wire = [], handler = None,
     mediaUpdate = None, hungUp = [], nextTx = 0\<rparr>"

definition exR6 :: reinvite_sys where
  "exR6 = exR (Some (exP True True (Some (Running 200 (1 * second)))))
     [TimerSet 0, ToReInvite 0 200, ToReInvite 0 200] (HEnd True) (Some (ByPeer 0))"

definition exR7 :: reinvite_sys where
  "exR7 = exR6\<lparr>dialogEnded := True, wire := wire exR6 @ [ToBye 200]\<rparr>"

lemma step_eqI: "reinvite_step T s l u \<Longrightarrow> u = s' \<Longrightarrow> reinvite_step T s l s'"
  by simp

lemmas ex_defs = exR0_def exR_def exP_def exR6_def exR7_def exT_def ackTimersValues_def respondPeerReInvite_def
  respond_def beginPeerReInvite_def onPeerReInvite2xx_def retransmitTimer_def setRetransmission_def ReadBye_def
  terminatePeerReInvite_def sipSuccess_def Let_def

lemma ex_run6: "exec (reinvite_step exT) exR0 [Arrive 7 1, Hook True, ReadTaken, TakeTurn, Reply 200 True, Timer True] exR6"
proof -
  have "reinvite_step exT exR0 (Arrive 7 1) (exR (Some (exP False False None)) [] HHook None)"
    by (rule step_eqI [OF step_arrive [OF _ prod.collapse [symmetric]]]) (simp_all add: ex_defs)
  moreover have "reinvite_step exT (exR (Some (exP False False None)) [] HHook None) (Hook True)
      (exR (Some (exP True False None)) [] HRead None)"
    by (rule step_eqI [OF step_hook [where tx = 0]]) (simp_all add: ex_defs)
  moreover have "reinvite_step exT (exR (Some (exP True False None)) [] HRead None) ReadTaken
      (exR (Some (exP True False None)) [] HUpdate None)"
    by (rule step_eqI [OF step_read [where tx = 0]]) (simp_all add: ex_defs)
  moreover have "reinvite_step exT (exR (Some (exP True False None)) [] HUpdate None) TakeTurn
      (exR (Some (exP True False None)) [] HMedia (Some (ByPeer 0)))"
    by (rule step_eqI [OF step_turn [where tx = 0]]) (simp_all add: ex_defs)
  moreover have "reinvite_step exT (exR (Some (exP True False None)) [] HMedia (Some (ByPeer 0))) (Reply 200 True)
      (exR (Some (exP True True (Some (Running 200 (500 * millisecond))))) [TimerSet 0, ToReInvite 0 200] (HEnd True) (Some (ByPeer 0)))"
    by (rule step_eqI [OF step_reply [where tx = 0, OF _ prod.collapse [symmetric]]]) (simp_all add: ex_defs)
  moreover have "reinvite_step exT
      (exR (Some (exP True True (Some (Running 200 (500 * millisecond))))) [TimerSet 0, ToReInvite 0 200] (HEnd True) (Some (ByPeer 0)))
      (Timer True) exR6"
    by (rule step_eqI [OF step_timer [where code = 200 and interval = "500 * millisecond"
        and p = "exP True True (Some (Running 200 (500 * millisecond)))"]]) (simp_all add: ex_defs)
  ultimately show ?thesis using exec_nil by (meson exec_cons)
qed

lemma ex_run7: "exec (reinvite_step exT) exR0
    [Arrive 7 1, Hook True, ReadTaken, TakeTurn, Reply 200 True, Timer True, Bye ByeTaken] exR7"
proof -
  have "reinvite_step exT exR6 (Bye ByeTaken) exR7"
    by (rule step_eqI [OF step_bye]) (simp_all add: ex_defs)
  then show ?thesis using exec_snoc [OF ex_run6] by simp
qed

lemma ex_start: "reinvite_init exR0" "(0::int) < 500 * millisecond" "(0::int) < 4 * second"
  by (simp_all add: reinvite_init_def exR0_def)

theorem reinvite_one_final_witness:
  "codes 0 (wire exR7) = [200, 200] \<and> oneFinal (codes 0 (wire exR7))"
  using reinvite_one_final [OF ex_start(2,3,1) ex_run7 [unfolded exT_def], of 0] by (simp add: ex_defs)

text \<open>
  C6. No 2xx follows the 200 of a BYE. Of what is sent after it no response to a re-INVITE is a 2xx,
  neither a first one nor a retransmission, and a re-INVITE that was pending has its answer, so the
  peer never has a re-INVITE accepted on a dialog it has ended.
\<close>

theorem reinvite_quiet_after_bye:
  assumes "0 < t1" "0 < t2" "reinvite_init s" "exec (reinvite_step (ackTimersValues t1 t2 t)) s ls s'"
    and "wire s' = before @ ToBye 200 # after"
  shows "(\<forall>tx c. ToReInvite tx c \<in> set after \<longrightarrow> \<not> sipSuccess c) \<and> dialogEnded s' \<and>
    (\<forall>p. peerReInvite s' = Some p \<longrightarrow> codes (ptx p) (wire s') \<noteq> [])"
proof -
  note inv = reachable_inv [OF assms(1-4)]
  have "\<not> is2xx e" if "e \<in> set after" for e
    using quietAfterBye_split [of before "after" e] inv(1) assms(5) that by (simp add: reinvite_inv_def wireInv_def)
  then have "\<forall>tx c. ToReInvite tx c \<in> set after \<longrightarrow> \<not> sipSuccess c" by force
  moreover have "dialogEnded s'" using inv(1) assms(5) by (simp add: reinvite_inv_def wireInv_def)
  moreover have "codes (ptx p) (wire s') \<noteq> []" if p: "peerReInvite s' = Some p" for p
  proof -
    have "panswered p" using inv(2) assms(5) p by (simp add: byeSettled_def)
    moreover obtain tx h where "handler s' = Some (tx, h)"
      using inv(1) p by (cases "handler s'") (auto simp: reinvite_inv_def)
    ultimately show ?thesis using inv(1) p by (auto simp: reinvite_inv_def pendingInv_def)
  qed
  ultimately show ?thesis by blast
qed

theorem reinvite_quiet_after_bye_witness:
  "wire exR7 = [TimerSet 0, ToReInvite 0 200, ToReInvite 0 200, ToBye 200] \<and> dialogEnded exR7"
proof -
  have "wire exR7 = [TimerSet 0, ToReInvite 0 200, ToReInvite 0 200] @ ToBye 200 # []" by (simp add: ex_defs)
  from reinvite_quiet_after_bye [OF ex_start(2,3,1) ex_run7 [unfolded exT_def] this] show ?thesis
    by (simp add: ex_defs)
qed

text \<open>
  C22. Offers do not cross. From the 2xx to a re-INVITE of the peer's until its handler leaves, after
  the ACK, the deadline or the end of the dialog, the media update is marked as the peer's, so no
  re-INVITE of this side is in progress; and the retransmission waits \<open>T1\<close>, then twice as long each
  time up to \<open>T2\<close>.
\<close>

theorem reinvite_no_overlap:
  assumes "0 < t1" "0 < t2" "reinvite_init s"
    and "exec (reinvite_step (ackTimersValues t1 t2 t)) s ls s'" "handler s' = Some (tx, h)"
    and "c \<in> set (codes tx (wire s'))" "sipSuccess c"
  shows "mediaUpdate s' = Some (ByPeer tx) \<and>
    (\<forall>p i. peerReInvite s' = Some p \<and> pretransmitted p = Some (Running c i) \<longrightarrow>
       i = intervalAt (ackTimersValues t1 t2 t) (length (codes tx (wire s')) - 1))"
proof -
  note inv = reachable_inv(1) [OF assms(1-4)]
  obtain p where p: "peerReInvite s' = Some p" "pendingInv (ackTimersValues t1 t2 t) h (codes tx (wire s')) p"
    and u: "\<And>t. mediaUpdate s' = Some (ByPeer t) \<longleftrightarrow> t = tx \<and> h \<in> {HMedia, HEnd True}"
    by (rule handledE [OF inv assms(5)]) blast
  have "packed p \<noteq> None" using p(2) assms(6,7) by (auto simp: pendingInv_def)
  then have "h = HEnd True" using p(2) by (simp add: pendingInv_def)
  moreover have "i = intervalAt (ackTimersValues t1 t2 t) (length (codes tx (wire s')) - 1)"
    if "pretransmitted p = Some (Running c i)" for i
    using p(2) that by (auto simp: pendingInv_def)
  ultimately show ?thesis using p(1) u by auto
qed

theorem reinvite_no_overlap_witness:
  "mediaUpdate exR6 = Some (ByPeer 0) \<and> intervalAt exT 1 = 1 * second"
proof -
  have "handler exR6 = Some (0, HEnd True)" "200 \<in> set (codes 0 (wire exR6))" "sipSuccess 200"
    by (simp_all add: ex_defs)
  from reinvite_no_overlap [OF ex_start(2,3,1) ex_run6 [unfolded exT_def] this] show ?thesis
    by (simp add: ex_defs)
qed

lemma nextTx_step: "reinvite_step T s l s' \<Longrightarrow> nextTx s \<le> nextTx s'"
  by (induction rule: reinvite_step.induct)
    (auto simp: respond_def beginPeerReInvite_def onPeerReInvite2xx_def respondPeerReInvite_def endHandler_def
      endPeerReInvite_def endMediaUpdate_def ReadBye_def terminatePeerReInvite_def ackPeerReInvite_def
      setRetransmission_def retransmitTimer_def Let_def split: option.splits if_splits byeOutcome.splits)

lemma nextTx_mono: "exec (reinvite_step T) s ls s' \<Longrightarrow> nextTx s \<le> nextTx s'"
  by (induction rule: exec.induct) (auto dest: nextTx_step)

text \<open>The steps of a handler and of the retransmission it waits for.\<close>

definition ownStep :: "reinvite_label \<Rightarrow> bool" where
  "ownStep l = (case l of Hook b \<Rightarrow> True | ReadTaken \<Rightarrow> True | Glare ok \<Rightarrow> True | TakeTurn \<Rightarrow> True | Reply c ok \<Rightarrow> True
     | Leave \<Rightarrow> True | Deadline \<Rightarrow> True | _ \<Rightarrow> False)"

definition canLeave :: "ackTimers \<Rightarrow> reinvite_sys \<Rightarrow> bool" where
  "canLeave T s = (\<exists>ls s'. exec (reinvite_step T) s ls s' \<and> handler s' = None \<and> list_all ownStep ls)"

lemma canLeave_step: "reinvite_step T s l u \<Longrightarrow> ownStep l \<Longrightarrow> canLeave T u \<Longrightarrow> canLeave T s"
  unfolding canLeave_def by (metis exec_cons list.pred_inject(2))

lemma end_leaves:
  assumes "handler s = Some (tx, HEnd m)"
  shows "canLeave T s"
proof -
  have leaves: "\<exists>s'. reinvite_step T u Leave s' \<and> handler s' = None"
    if "handler u = Some (tx, HEnd m)" "\<not> endWaits tx u" for u
    using step_leave [OF that, of T] by (auto simp: endHandler_def Let_def split: prod.splits)
  show ?thesis
  proof (cases "endWaits tx s")
    case False
    then obtain s' where "reinvite_step T s Leave s'" "handler s' = None" using leaves assms by blast
    then show ?thesis
      unfolding canLeave_def by (intro exI [of _ "[Leave]"] exI [of _ s']) (auto simp: ownStep_def intro: exec.intros)
  next
    case True
    then obtain p c i where p: "peerReInvite s = Some p" "pretransmitted p = Some (Running c i)"
      by (auto simp: endWaits_def split: option.splits retransmission.splits)
    let ?u = "setRetransmission (Over True) p s"
    have "handler ?u = Some (tx, HEnd m)" "\<not> endWaits tx ?u"
      using assms by (simp_all add: setRetransmission_def endWaits_def)
    then obtain s' where "reinvite_step T ?u Leave s'" "handler s' = None" using leaves by blast
    then show ?thesis using step_deadline [OF p, of T]
      unfolding canLeave_def by (intro exI [of _ "[Deadline, Leave]"] exI [of _ s']) (auto simp: ownStep_def intro: exec_two)
  qed
qed


lemma media_leaves: "handler s = Some (tx, HMedia) \<Longrightarrow> canLeave T s"
  by (rule canLeave_step [OF step_reply [where code = 200 and ok = True, OF _ prod.collapse [symmetric]]])
    (auto simp: ownStep_def intro: end_leaves)

lemma update_leaves: "handler s = Some (tx, HUpdate) \<Longrightarrow> canLeave T s"
proof (cases "mediaUpdate s = None")
  case True
  assume "handler s = Some (tx, HUpdate)"
  from step_turn [OF this True] show ?thesis
    by (rule canLeave_step) (auto simp: ownStep_def intro: media_leaves)
next
  case False
  assume "handler s = Some (tx, HUpdate)"
  from step_glare [OF this False prod.collapse [symmetric], of T True] show ?thesis
    by (rule canLeave_step) (auto simp: ownStep_def intro: end_leaves)
qed

lemma read_leaves: "handler s = Some (tx, HRead) \<Longrightarrow> canLeave T s"
  by (rule canLeave_step [OF step_read]) (auto simp: ownStep_def intro: update_leaves)

lemma hook_leaves: "handler s = Some (tx, HHook) \<Longrightarrow> canLeave T s"
  by (rule canLeave_step [OF step_hook [where hasTimer = False]]) (auto simp: ownStep_def intro: read_leaves)

lemma handler_leaves: "handler s = Some (tx, h) \<Longrightarrow> canLeave T s"
  by (cases h) (auto intro: hook_leaves read_leaves update_leaves media_leaves end_leaves)

text \<open>
  C23. A handler is never stuck: from every state that can be reached there are steps of its own, of
  the retransmission it waits for and of nothing else that take it to its end, where \<open>requestMu\<close> is
  free for the next re-INVITE and no update of the peer's is marked any more.
\<close>

theorem reinvite_handler_leaves:
  assumes "0 < t1" "0 < t2" "reinvite_init s" "exec (reinvite_step (ackTimersValues t1 t2 t)) s ls s'"
    and "handler s' = Some (tx, h)"
  shows "\<exists>ms s''. exec (reinvite_step (ackTimersValues t1 t2 t)) s' ms s'' \<and> list_all ownStep ms \<and>
    handler s'' = None \<and> peerReInvite s'' = None \<and> (\<forall>t. mediaUpdate s'' \<noteq> Some (ByPeer t)) \<and> codes tx (wire s'') \<noteq> []"
proof -
  let ?T = "ackTimersValues t1 t2 t"
  obtain ms s'' where ms: "exec (reinvite_step ?T) s' ms s''" "handler s'' = None" "list_all ownStep ms"
    using handler_leaves [OF assms(5)] unfolding canLeave_def by blast
  note inv = reachable_inv(1) [OF assms(1-3) exec_append [OF assms(4) ms(1)]]
  have "tx < nextTx s'" using reachable_inv(1) [OF assms(1-4)] assms(5) by (simp add: reinvite_inv_def)
  also have "nextTx s' \<le> nextTx s''" using ms(1) by (rule nextTx_mono)
  finally have "codes tx (wire s'') \<noteq> []" using ms(2) inv by (auto simp: reinvite_inv_def wireInv_def)
  then show ?thesis using ms inv by (intro exI [of _ ms] exI [of _ s'']) (simp add: reinvite_inv_def)
qed

theorem reinvite_handler_leaves_witness:
  "\<exists>ms s''. exec (reinvite_step exT) exR6 ms s'' \<and> handler s'' = None \<and> codes 0 (wire s'') \<noteq> []"
proof -
  have "handler exR6 = Some (0, HEnd True)" by (simp add: ex_defs)
  from reinvite_handler_leaves [OF ex_start(2,3,1) ex_run6 [unfolded exT_def] this] show ?thesis
    unfolding exT_def by blast
qed

end
