(* ===== verification/Server_Answer.thy ===== *)
theory Server_Answer
  imports Session_Timers
begin

text \<open>
  Answering an incoming call (\<open>dialog_server_session.go\<close>): the session timer of the answer, early media
  with \<open>ProgressMedia\<close>, the ways to answer, the ACK, and the session refresh the timer runs. What the
  SIP library and the media session report for each call is given by an environment; the state keeps
  what the dialog stores and what goes out, in order.
\<close>

section \<open>The session timer of an answer\<close>

definition statusSessionIntervalTooSmall :: int where "statusSessionIntervalTooSmall = 422"

record timerAnswer =
  taHeaders :: "header list"
  taWeRefresh :: bool
  taExpiry :: duration
  taMinSE :: duration

definition buildTimerAnswer ::
  "headerGetter \<Rightarrow> SessionTimerPolicy \<Rightarrow> timerAnswer option \<times> header list \<times> int" where
  "buildTimerAnswer invite pol =
    (if \<not> Enabled pol then (None, [], 200)
     else case parseSessionTimerOffer invite of (offer, ok) \<Rightarrow>
       if \<not> ok then (None, [], 200)
       else
         let dec = negotiate (SE offer) (OfferMinSE offer) (OfferRefresher offer) pol refresherUAS in
         if BelowFloor dec then (None, [(''Min-SE'', secondsOf (Negotiated dec))], statusSessionIntervalTooSmall)
         else
           let seValue = secondsOf (Negotiated dec) @
                 (if Refresher dec \<noteq> [] then '';refresher='' @ Refresher dec else []);
               hdrs = [(''Session-Expires'', seValue), (''Supported'', ''timer'')];
               hdrs = (if Refresher dec = refresherUAC then hdrs @ [(''Require'', ''timer'')] else hdrs)
           in (Some \<lparr>taHeaders = hdrs, taWeRefresh = WeRefresh dec, taExpiry = Negotiated dec,
                 taMinSE = (case OfferMinSE offer of Some m \<Rightarrow> secs m | None \<Rightarrow> 0)\<rparr>, hdrs, 200))"

section \<open>State and environment\<close>

datatype answerErr = IntervalTooSmall | InitFailed | NoSdp | RemoteSdpFailed | RespondFailed | FinalizeFailed
  | MonitorFailed | EarlyMediaNotKeyed | AckCarriesNoAnswer | AckSdpFailed | AckReadFailed

datatype finalizeWithin = FinalizeDone | FinalizeInProgress | FinalizeError

text \<open>What goes out: a response with its headers and body, a BYE; and media and timer being started.\<close>

datatype answerAct = Sent int "header list" "nat option" | SentBye | MonitorStarted | TimerStarted

text \<open>
  The dialog: the media session, whether an RTP session was set up on it, the answer of the early
  media, the mark of an answer in progress (a channel that is closed when the answer returns) and what
  the ACK left. A body is an opaque SDP.
\<close>

record answer_state =
  mediaSession :: bool
  rtpSet :: bool
  earlyAnswerSDP :: "nat option"
  earlyUnkeyed :: bool
  answering :: bool
  stashedTimer :: "timerAnswer option"
  runningTimer :: "sessionTimer option"
  ackCarriesAnswer :: bool
  ackAnswerErr :: "answerErr option"
  acts :: "answerAct list"

text \<open>
  What the ACK of the 2xx brings: whether it answers the offer of a re-INVITE instead, with the error
  of applying that; whether the dialog waits for it; its SDP; and the results of applying it and of
  the library's \<open>ReadAck\<close>.
\<close>

record ack_env =
  reInviteAck :: "answerErr option option"
  established :: bool
  ackSdp :: bool
  ackRemoteFails :: bool
  ackFinalizeFails :: bool
  ackReadFails :: bool

record answer_env =
  inviteHeaders :: headerGetter
  offerBody :: "nat option"
  timerPolicy :: SessionTimerPolicy
  initFails :: bool
  remoteFails :: bool
  localSDP :: nat
  respondFails :: bool
  withinWait :: finalizeWithin
  finalizeFails :: bool
  monitorFails :: bool
  ackArrives :: "ack_env option"

type_synonym answer_step = "answer_state \<Rightarrow> answerErr option \<times> answer_state"

definition andThen :: "answer_step \<Rightarrow> answer_step \<Rightarrow> answer_step" where
  "andThen f g s = (case f s of (Some e, s) \<Rightarrow> (Some e, s) | (None, s) \<Rightarrow> g s)"

definition act :: "answerAct \<Rightarrow> answer_state \<Rightarrow> answer_state" where
  "act a s = s\<lparr>acts := acts s @ [a]\<rparr>"

definition failIf :: "bool \<Rightarrow> answerErr \<Rightarrow> answer_step" where
  "failIf b e s = ((if b then Some e else None), s)"

definition update :: "(answer_state \<Rightarrow> answer_state) \<Rightarrow> answer_step" where
  "update f s = (None, f s)"

text \<open>A response that fails did not go out.\<close>

definition sendResponse :: "answer_env \<Rightarrow> int \<Rightarrow> header list \<Rightarrow> nat option \<Rightarrow> answer_step" where
  "sendResponse E code hdrs body s =
    (if respondFails E then (Some RespondFailed, s) else (None, act (Sent code hdrs body) s))"

section \<open>Answering\<close>

definition prepareSessionTimers :: "answer_env \<Rightarrow> answer_step" where
  "prepareSessionTimers E s =
    (case buildTimerAnswer (inviteHeaders E) (timerPolicy E) of (ta, hdrs, status) \<Rightarrow>
       if status = statusSessionIntervalTooSmall
       then andThen (sendResponse E statusSessionIntervalTooSmall hdrs None) (failIf True IntervalTooSmall) s
       else (None, case ta of None \<Rightarrow> s | Some t \<Rightarrow> s\<lparr>stashedTimer := Some t\<rparr>))"

definition launchSessionTimers :: "answer_env \<Rightarrow> timerAnswer \<Rightarrow> answer_state \<Rightarrow> answer_state" where
  "launchSessionTimers E ta s =
    (if runningTimer s \<noteq> None then s
     else act TimerStarted (s\<lparr>runningTimer := Some (newSessionTimer (timerPolicy E)
       \<lparr>active = True, expires = taExpiry ta, weRefresh = taWeRefresh ta, minSE = taMinSE ta\<rparr>)\<rparr>))"

definition initMediaSessionFromConf :: "answer_env \<Rightarrow> answer_step" where
  "initMediaSessionFromConf E s = (if initFails E then (Some InitFailed, s) else (None, s\<lparr>mediaSession := True\<rparr>))"

text \<open>
  \<open>ReadAck\<close>: an answer that cannot be applied ends the call, by the answer that waits for the ACK or,
  without one, here.
\<close>

definition ackResult :: "ack_env \<Rightarrow> answer_state \<Rightarrow> answerErr option" where
  "ackResult A s =
    (if \<not> mediaSession s \<or> \<not> established A then None
     else if \<not> ackSdp A then (if ackCarriesAnswer s then Some AckCarriesNoAnswer else None)
     else if ackRemoteFails A then Some AckSdpFailed
     else if ackFinalizeFails A then Some FinalizeFailed
     else None)"

definition ReadAck :: "ack_env \<Rightarrow> answer_step" where
  "ReadAck A s =
    (case reInviteAck A of
       Some (Some e) \<Rightarrow> (Some e, act SentBye s)
     | Some None \<Rightarrow> (if ackReadFails A then Some AckReadFailed else None, s)
     | None \<Rightarrow>
         (case ackResult A s of
            None \<Rightarrow> (if ackReadFails A then Some AckReadFailed else None, s)
          | Some e \<Rightarrow>
              let s = s\<lparr>ackAnswerErr := Some e\<rparr> in
              if ackReadFails A \<or> answering s then (Some e, s) else (Some e, act SentBye s)))"

text \<open>
  \<open>respondSDP\<close> sends the 200 and waits for its ACK, which \<open>ReadAck\<close> reads meanwhile: without one
  that the library takes the response fails.
\<close>

definition contentTypeSdp :: header where
  "contentTypeSdp = (''Content-Type'', ''application/sdp'')"

definition awaitAck :: "answer_env \<Rightarrow> answer_step" where
  "awaitAck E s = (case ackArrives E of
     None \<Rightarrow> (Some RespondFailed, s)
   | Some A \<Rightarrow> (if ackReadFails A then Some RespondFailed else None, snd (ReadAck A s)))"

definition respondSDP :: "answer_env \<Rightarrow> nat option \<Rightarrow> answer_step" where
  "respondSDP E body s =
    (let ta = stashedTimer s;
         headers = contentTypeSdp # (case ta of None \<Rightarrow> [] | Some t \<Rightarrow> taHeaders t)
     in andThen (sendResponse E 200 headers body)
          (andThen (awaitAck E)
            (\<lambda>s. case ackAnswerErr s of
               Some e \<Rightarrow> (Some e, act SentBye s)
             | None \<Rightarrow> (None, case ta of None \<Rightarrow> s | Some t \<Rightarrow> launchSessionTimers E t s))) s)"

text \<open>An answer marks itself in progress until it returns.\<close>

definition whileAnswering :: "answer_step \<Rightarrow> answer_step" where
  "whileAnswering f s = (case f (s\<lparr>answering := True\<rparr>) of (e, s) \<Rightarrow> (e, s\<lparr>answering := False\<rparr>))"

definition RespondSDP :: "answer_env \<Rightarrow> nat option \<Rightarrow> answer_step" where
  "RespondSDP E body = whileAnswering (respondSDP E body)"

definition monitorBackground :: "answer_env \<Rightarrow> answer_step" where
  "monitorBackground E s = (if monitorFails E then (Some MonitorFailed, s) else (None, act MonitorStarted s))"

definition initRTPSession :: "answer_state \<Rightarrow> answer_state" where
  "initRTPSession s = s\<lparr>rtpSet := True\<rparr>"

definition answerUnkeyedEarlyMedia :: "answer_env \<Rightarrow> nat option \<Rightarrow> answer_step" where
  "answerUnkeyedEarlyMedia E earlyAnswer = whileAnswering (\<lambda>s.
     if withinWait E = FinalizeError then
       (Some FinalizeFailed, snd (sendResponse E 488 [] None s))
     else
       andThen (respondSDP E earlyAnswer)
         (andThen (failIf (finalizeFails E) FinalizeFailed)
           (andThen (update initRTPSession) (monitorBackground E))) s)"

definition answerEarlyMedia :: "answer_env \<Rightarrow> answer_step" where
  "answerEarlyMedia E s =
    (if earlyUnkeyed s then answerUnkeyedEarlyMedia E (earlyAnswerSDP s) s
     else RespondSDP E (case earlyAnswerSDP s of None \<Rightarrow> Some (localSDP E) | sd \<Rightarrow> sd) s)"

definition answerSession :: "answer_env \<Rightarrow> answer_step" where
  "answerSession E =
    andThen (failIf (offerBody E = None) NoSdp)
      (andThen (failIf (remoteFails E) RemoteSdpFailed)
        (andThen (update initRTPSession)
          (whileAnswering
            (andThen (respondSDP E (Some (localSDP E)))
              (andThen (failIf (finalizeFails E) FinalizeFailed) (monitorBackground E))))))"

definition Answer :: "answer_env \<Rightarrow> answer_step" where
  "Answer E =
    andThen (prepareSessionTimers E)
      (\<lambda>s. if mediaSession s then answerEarlyMedia E s
           else andThen (initMediaSessionFromConf E) (answerSession E) s)"

definition AnswerLate :: "answer_env \<Rightarrow> answer_step" where
  "AnswerLate E =
    andThen (prepareSessionTimers E)
      (andThen (initMediaSessionFromConf E)
        (andThen (update (\<lambda>s. (initRTPSession s)\<lparr>ackCarriesAnswer := True\<rparr>))
          (whileAnswering (andThen (respondSDP E (Some (localSDP E))) (monitorBackground E)))))"

definition ProgressMediaOptions :: "answer_env \<Rightarrow> answer_step" where
  "ProgressMediaOptions E =
    andThen (initMediaSessionFromConf E)
      (andThen (failIf (offerBody E = None) NoSdp)
        (andThen (failIf (remoteFails E) RemoteSdpFailed)
          (andThen (sendResponse E 183 [contentTypeSdp] (Some (localSDP E)))
            (\<lambda>s. case withinWait E of
               FinalizeInProgress \<Rightarrow> (Some EarlyMediaNotKeyed, s\<lparr>earlyAnswerSDP := Some (localSDP E), earlyUnkeyed := True\<rparr>)
             | FinalizeError \<Rightarrow> (Some FinalizeFailed, s)
             | FinalizeDone \<Rightarrow>
                 andThen (update (\<lambda>s. (initRTPSession s)\<lparr>earlyAnswerSDP := Some (localSDP E)\<rparr>)) (monitorBackground E) s))))"

section \<open>Refreshing the session\<close>

text \<open>
  The error of a re-INVITE of ours, by what \<open>errors.Is\<close> and \<open>errors.As\<close> find in it, and what the
  context reports after it and after the wait for \<open>Retry-After\<close>.
\<close>

record refreshRes = headerGetter +
  refreshStatus :: int

record reInviteErr =
  isNoSdp :: bool
  isMediaClosed :: bool
  isAfterAnswer :: bool
  isTxTimeout :: bool
  resOf :: "refreshRes option"

record refreshTry =
  tryErr :: "reInviteErr option"
  ctxAfter :: bool
  ctxInWait :: bool

record refreshRun =
  runOutcome :: "refreshOutcome option"
  runTimer :: sessionTimer
  runByes :: nat
  runTries :: nat

text \<open>The loop of \<open>refreshSession\<close>; without a further try it waits, which is \<^term>\<open>None\<close>.\<close>

fun refreshLoop :: "bool \<Rightarrow> refreshTry list \<Rightarrow> sessionTimer \<Rightarrow> nat \<Rightarrow> refreshRun" where
  "refreshLoop retried [] t n = \<lparr>runOutcome = None, runTimer = t, runByes = 0, runTries = n\<rparr>"
| "refreshLoop retried (a # as) t n =
    (let n = Suc n; over = (\<lambda>out byes. \<lparr>runOutcome = Some out, runTimer = t, runByes = byes, runTries = n\<rparr>) in
     case tryErr a of
       None \<Rightarrow> over refreshGoesOn 0
     | Some e \<Rightarrow>
         if ctxAfter a then over refreshEnded 0
         else if isNoSdp e then over refreshGoesOn 0
         else if isMediaClosed e \<or> isAfterAnswer e then over refreshEnded 0
         else
           let status = (case resOf e of None \<Rightarrow> 0 | Some r \<Rightarrow> refreshStatus r) in
           if status = 408 \<or> status = 481 \<or> isTxTimeout e then over refreshEnded 1
           else if status = statusSessionIntervalTooSmall \<and> \<not> retried then
             (case Option.bind (resOf e) (\<lambda>r. parseMinSE (headerGetter.truncate r)) of
                None \<Rightarrow> over refreshStopped 0
              | Some m \<Rightarrow> refreshLoop True as (raiseMinSE (secs m) t) n)
           else if (status = 500 \<or> status = 503) \<and> \<not> retried then
             (case Option.bind (resOf e) (\<lambda>r. retryAfter (headerGetter.truncate r)) of
                None \<Rightarrow> over refreshStopped 0
              | Some d \<Rightarrow> if ctxInWait a then over refreshEnded 0 else refreshLoop True as t n)
           else over refreshStopped 0)"

definition refreshSession :: "refreshTry list \<Rightarrow> sessionTimer \<Rightarrow> refreshRun" where
  "refreshSession tries t = refreshLoop False tries t 0"


section \<open>The timer answer\<close>



definition exInvite :: headerGetter where
  "exInvite = ofHeaders [(''Session-Expires'', secondsOf (secs 600) @ '';refresher='' @ refresherUAC)]"


text \<open>
  A caller that names no refresher, under a policy that elects none: the 2xx names none either, and
  this end leaves refreshing to the caller, which was never told.
\<close>

lemma neutral_answer_unnamed:
  assumes "parseSessionTimerOffer invite = (offer, True)" "SE offer = Some se" "OfferRefresher offer = []"
    and "Enabled pol" "\<not> PreferUASRefresher pol" "floorOf (OfferMinSE offer) pol \<le> secs se"
  shows "\<exists>t. buildTimerAnswer invite pol = (Some t, [(''Session-Expires'', secondsOf (secs se)), (''Supported'', ''timer'')], 200)
    \<and> \<not> taWeRefresh t"
  using assms
  by (auto simp: buildTimerAnswer_def negotiate_def floorOf_def Let_def max_def defaultMinSE_def refresherUAC_def
      split: option.splits if_splits)

section \<open>The order of an answer\<close>

text \<open>What \<open>Answer\<close> and \<open>AnswerLate\<close> may send and start, in this order.\<close>

definition isSent :: "int \<Rightarrow> answerAct \<Rightarrow> bool" where
  "isSent code a = (case a of Sent c hdrs body \<Rightarrow> c = code | _ \<Rightarrow> False)"

definition answerShape :: "answerErr option \<Rightarrow> answerAct list \<Rightarrow> bool" where
  "answerShape e as = (case as of
     [] \<Rightarrow> e \<noteq> None
   | a # rest \<Rightarrow>
       (isSent 422 a \<and> e = Some IntervalTooSmall \<or> isSent 488 a \<and> e = Some FinalizeFailed) \<and> rest = []
       \<or> isSent 200 a \<and>
           (rest = [SentBye] \<and> e \<noteq> None
            \<or> rest \<in> {[], [TimerStarted]}
            \<or> rest \<in> {[MonitorStarted], [TimerStarted, MonitorStarted]} \<and> e = None))"


definition bodiesSent :: "answerAct list \<Rightarrow> nat option set" where
  "bodiesSent as = {body. \<exists>hdrs. Sent 200 hdrs body \<in> set as}"

text \<open>The 200 and its ACK: a failing response, an ACK that ends the call, or the timer.\<close>

definition respondShape :: "nat option \<Rightarrow> answerErr option \<Rightarrow> answerAct list \<Rightarrow> bool" where
  "respondShape body e as = (case as of
     [] \<Rightarrow> e \<noteq> None
   | a # rest \<Rightarrow> (\<exists>hdrs. a = Sent 200 hdrs body) \<and> (rest = [SentBye] \<and> e \<noteq> None \<or> rest = [] \<or> rest = [TimerStarted] \<and> e = None))"

lemma awaitAck_acts:
  assumes "awaitAck E s = (e, s')" "answering s" "\<forall>A. ackArrives E = Some A \<longrightarrow> reInviteAck A = None"
  shows "acts s' = acts s \<and> answering s' \<and> stashedTimer s' = stashedTimer s \<and> runningTimer s' = runningTimer s"
  using assms
  by (auto simp: awaitAck_def ReadAck_def Let_def split: option.splits if_splits)

lemma respondSDP_shape:
  assumes "respondSDP E body s = (e, s')" "answering s" "\<forall>A. ackArrives E = Some A \<longrightarrow> reInviteAck A = None"
  shows "\<exists>new. acts s' = acts s @ new \<and> respondShape body e new \<and> answering s'"
proof (cases "respondFails E")
  case True
  then show ?thesis using assms(1,2)
    by (auto simp: respondSDP_def andThen_def sendResponse_def respondShape_def)
next
  case False
  let ?h = "contentTypeSdp # (case stashedTimer s of None \<Rightarrow> [] | Some t \<Rightarrow> taHeaders t)"
  let ?s1 = "act (Sent 200 ?h body) s"
  obtain e1 s1 where a: "awaitAck E ?s1 = (e1, s1)" by fastforce
  have s1: "acts s1 = acts s @ [Sent 200 ?h body]" "answering s1"
    using awaitAck_acts [OF a _ assms(3)] assms(2) by (simp_all add: act_def)
  have "(e, s') = (case e1 of Some x \<Rightarrow> (Some x, s1) | None \<Rightarrow> (case ackAnswerErr s1 of
      Some x \<Rightarrow> (Some x, act SentBye s1)
    | None \<Rightarrow> (None, case stashedTimer s of None \<Rightarrow> s1 | Some t \<Rightarrow> launchSessionTimers E t s1)))"
    using assms(1) False a by (simp add: respondSDP_def andThen_def sendResponse_def Let_def split: option.splits)
  then consider x where "e = Some x" "s' = s1 \<or> s' = act SentBye s1"
    | "e = None" "s' = s1 \<or> (\<exists>t. s' = launchSessionTimers E t s1)"
    by (auto split: option.splits)
  then show ?thesis
    by cases (use s1 in \<open>auto simp: respondShape_def isSent_def act_def launchSessionTimers_def\<close>)
qed

text \<open>What follows the response: finalizing the media and starting its monitor.\<close>

lemma respond_then_monitor:
  assumes "andThen (respondSDP E body) (andThen (failIf b FinalizeFailed) (andThen (update f) (monitorBackground E))) s = (e, s')"
    and "answering s" "\<forall>A. ackArrives E = Some A \<longrightarrow> reInviteAck A = None" "\<And>s. acts (f s) = acts s"
  shows "\<exists>new. acts s' = acts s @ new \<and> answerShape e new \<and> bodiesSent new \<subseteq> {body}"
proof -
  obtain e1 s1 where r: "respondSDP E body s = (e1, s1)" by fastforce
  obtain new where n: "acts s1 = acts s @ new" "respondShape body e1 new" using respondSDP_shape [OF r assms(2,3)] by blast
  show ?thesis
  proof (cases e1)
    case (Some err)
    then show ?thesis using assms(1) r n
      by (intro exI [of _ new]) (auto simp: andThen_def respondShape_def answerShape_def isSent_def bodiesSent_def split: list.splits)
  next
    case None
    let ?m = "if b \<or> monitorFails E then [] else [MonitorStarted]"
    have s': "acts s' = acts s @ (new @ ?m)" and e: "e = (if b then Some FinalizeFailed else if monitorFails E then Some MonitorFailed else None)"
      using assms(1,4) r n None
      by (auto simp: andThen_def failIf_def update_def monitorBackground_def act_def split: if_splits)
    have "answerShape e (new @ ?m) \<and> bodiesSent (new @ ?m) \<subseteq> {body}" using n(2) None e
      by (auto simp: respondShape_def answerShape_def isSent_def bodiesSent_def split: list.splits)
    with s' show ?thesis by blast
  qed
qed


lemma andThen_simps [simp]:
  "andThen (update id) g = g" "andThen (failIf False e) g = g"
  by (simp_all add: andThen_def update_def failIf_def fun_eq_iff)

lemma andThen_failIf: "andThen (failIf b e) g s = (if b then (Some e, s) else g s)"
  by (simp add: andThen_def failIf_def)

lemma andThen_update: "andThen (update f) g s = g (f s)"
  by (simp add: andThen_def update_def)

lemma whileAnsweringE:
  assumes "whileAnswering f s = (e, s')"
  obtains s1 where "f (s\<lparr>answering := True\<rparr>) = (e, s1)" "s' = s1\<lparr>answering := False\<rparr>"
  using assms by (auto simp: whileAnswering_def split: prod.splits)

lemma answering_shape:
  assumes "whileAnswering (andThen (respondSDP E body) (andThen (failIf b FinalizeFailed)
      (andThen (update f) (monitorBackground E)))) s = (e, s')"
    and "\<forall>A. ackArrives E = Some A \<longrightarrow> reInviteAck A = None" "\<And>s. acts (f s) = acts s"
  shows "\<exists>new. acts s' = acts s @ new \<and> answerShape e new \<and> bodiesSent new \<subseteq> {body}"
proof (rule whileAnsweringE [OF assms(1)])
  fix s1 assume "andThen (respondSDP E body) (andThen (failIf b FinalizeFailed)
      (andThen (update f) (monitorBackground E))) (s\<lparr>answering := True\<rparr>) = (e, s1)" "s' = s1\<lparr>answering := False\<rparr>"
  with respond_then_monitor [OF this(1) _ assms(2,3)] show ?thesis by auto
qed

lemma answerSession_shape:
  assumes "answerSession E s = (e, s')" "\<forall>A. ackArrives E = Some A \<longrightarrow> reInviteAck A = None"
  shows "\<exists>new. acts s' = acts s @ new \<and> answerShape e new"
proof (cases "offerBody E = None \<or> remoteFails E")
  case True
  then have "e \<noteq> None \<and> s' = s" using assms(1)
    by (auto simp: answerSession_def andThen_def failIf_def split: if_splits)
  then show ?thesis by (simp add: answerShape_def)
next
  case False
  then have "whileAnswering (andThen (respondSDP E (Some (localSDP E))) (andThen (failIf (finalizeFails E) FinalizeFailed)
      (andThen (update id) (monitorBackground E)))) (initRTPSession s) = (e, s')"
    using assms(1) by (auto simp: answerSession_def andThen_failIf andThen_update)
  from answering_shape [OF this assms(2)] show ?thesis by (auto simp: initRTPSession_def)
qed

lemma answerEarlyMedia_shape:
  assumes "answerEarlyMedia E s = (e, s')" "\<forall>A. ackArrives E = Some A \<longrightarrow> reInviteAck A = None"
  shows "\<exists>new. acts s' = acts s @ new \<and> answerShape e new \<and> bodiesSent new \<subseteq> {case earlyAnswerSDP s of None \<Rightarrow> if earlyUnkeyed s then None else Some (localSDP E) | sd \<Rightarrow> sd}"
proof (cases "earlyUnkeyed s")
  case True
  show ?thesis
  proof (cases "withinWait E = FinalizeError")
    case failed: True
    then show ?thesis using assms(1) True
      by (cases "respondFails E")
        (auto simp: answerEarlyMedia_def answerUnkeyedEarlyMedia_def whileAnswering_def sendResponse_def act_def
          answerShape_def isSent_def bodiesSent_def)
  next
    case False
    then have "whileAnswering (andThen (respondSDP E (earlyAnswerSDP s)) (andThen (failIf (finalizeFails E) FinalizeFailed)
        (andThen (update initRTPSession) (monitorBackground E)))) s = (e, s')"
      using assms(1) True by (simp add: answerEarlyMedia_def answerUnkeyedEarlyMedia_def)
    from answering_shape [OF this assms(2)] True show ?thesis
      by (cases "earlyAnswerSDP s") (simp_all add: initRTPSession_def)
  qed
next
  case False
  let ?body = "case earlyAnswerSDP s of None \<Rightarrow> Some (localSDP E) | sd \<Rightarrow> sd"
  have "whileAnswering (respondSDP E ?body) s = (e, s')"
    using assms(1) False by (simp add: answerEarlyMedia_def RespondSDP_def)
  then obtain s1 where s1: "respondSDP E ?body (s\<lparr>answering := True\<rparr>) = (e, s1)" "s' = s1\<lparr>answering := False\<rparr>"
    by (rule whileAnsweringE)
  then obtain new where "acts s' = acts s @ new" "respondShape ?body e new"
    using respondSDP_shape [OF s1(1) _ assms(2)] by auto
  then show ?thesis using False
    by (intro exI [of _ new]) (auto simp: respondShape_def answerShape_def isSent_def bodiesSent_def split: list.splits option.splits)
qed

lemma prepare_cases:
  assumes "prepareSessionTimers E s = (e, s')"
  obtains "e = None" "acts s' = acts s" "mediaSession s' = mediaSession s" "earlyAnswerSDP s' = earlyAnswerSDP s"
      "earlyUnkeyed s' = earlyUnkeyed s"
    | "acts s' = acts s" "e = Some RespondFailed"
    | hdrs where "acts s' = acts s @ [Sent 422 hdrs None]" "e = Some IntervalTooSmall"
  using assms
  by (auto simp: prepareSessionTimers_def andThen_def sendResponse_def failIf_def act_def statusSessionIntervalTooSmall_def
      split: prod.splits if_splits option.splits)



definition exAck :: ack_env where
  "exAck = \<lparr>reInviteAck = None, established = True, ackSdp = False, ackRemoteFails = False, ackFinalizeFails = False,
     ackReadFails = False\<rparr>"

definition exAnswerEnv :: "finalizeWithin \<Rightarrow> answer_env" where
  "exAnswerEnv w = \<lparr>inviteHeaders = ofHeaders [], offerBody = Some 1, timerPolicy = exPolicy, initFails = False,
     remoteFails = False, localSDP = 7, respondFails = False, withinWait = w, finalizeFails = False,
     monitorFails = False, ackArrives = Some exAck\<rparr>"

definition exDialog :: answer_state where
  "exDialog = \<lparr>mediaSession = False, rtpSet = False, earlyAnswerSDP = None, earlyUnkeyed = False, answering = False,
     stashedTimer = None, runningTimer = None, ackCarriesAnswer = False, ackAnswerErr = None, acts = []\<rparr>"

lemmas ex_answer_simps = Answer_def andThen_def prepareSessionTimers_def buildTimerAnswer_def exAnswerEnv_def exAck_def
  exDialog_def exPolicy_def parseSessionTimerOffer_def ofHeaders_def statusSessionIntervalTooSmall_def
  initMediaSessionFromConf_def answerSession_def failIf_def update_def initRTPSession_def whileAnswering_def
  respondSDP_def sendResponse_def act_def awaitAck_def ReadAck_def ackResult_def monitorBackground_def
  ProgressMediaOptions_def answerEarlyMedia_def answerUnkeyedEarlyMedia_def Let_def


text \<open>
  C26. The answer of the early media stands. When \<open>ProgressMedia\<close> has sent a 183, keyed in time or
  not, the 200 of a later \<open>Answer\<close> repeats its session description, whatever the media session would
  offer by then; and while the early media is not keyed no monitor runs on it.
\<close>

theorem early_answer_repeated:
  assumes "ProgressMediaOptions E s = (e, s1)" "e = None \<or> e = Some EarlyMediaNotKeyed" "\<not> earlyUnkeyed s"
    and "Answer E' s1 = (e', s2)" "\<forall>A. ackArrives E' = Some A \<longrightarrow> reInviteAck A = None"
    and "acts s2 = acts s1 @ new" "Sent 200 hdrs body \<in> set new"
  shows "\<exists>started. acts s1 = acts s @ Sent 183 [contentTypeSdp] body # started \<and>
    (e = Some EarlyMediaNotKeyed \<longrightarrow> started = []) \<and> (earlyUnkeyed s1 \<longleftrightarrow> e = Some EarlyMediaNotKeyed)"
proof -
  have p: "mediaSession s1" "earlyAnswerSDP s1 = Some (localSDP E)" "earlyUnkeyed s1 \<longleftrightarrow> e = Some EarlyMediaNotKeyed"
    "\<exists>started. acts s1 = acts s @ Sent 183 [contentTypeSdp] (Some (localSDP E)) # started \<and>
      (e = Some EarlyMediaNotKeyed \<longrightarrow> started = [])"
    using assms(1-3)
    by (auto simp: ProgressMediaOptions_def andThen_def initMediaSessionFromConf_def failIf_def sendResponse_def
        update_def monitorBackground_def initRTPSession_def act_def split: if_splits finalizeWithin.splits)
  obtain e3 s3 where prep: "prepareSessionTimers E' s1 = (e3, s3)" by fastforce
  have "body = Some (localSDP E)"
    using prep
  proof (cases rule: prepare_cases)
    case 1
    then have a: "answerEarlyMedia E' s3 = (e', s2)" using assms(4) prep p(1) by (simp add: Answer_def andThen_def)
    obtain new' where "acts s2 = acts s3 @ new'" "bodiesSent new' \<subseteq> {earlyAnswerSDP s3}"
      using answerEarlyMedia_shape [OF a assms(5)] 1 p(2) by auto
    then show ?thesis using assms(6,7) 1 p(2) by (auto simp: bodiesSent_def)
  next
    case 2
    then show ?thesis using assms(4,6,7) prep by (simp add: Answer_def andThen_def)
  next
    case 3
    then show ?thesis using assms(4,6,7) prep by (auto simp: Answer_def andThen_def)
  qed
  then show ?thesis using p by auto
qed

theorem early_answer_repeated_witness:
  "\<exists>s1 s2. ProgressMediaOptions (exAnswerEnv FinalizeInProgress) exDialog = (Some EarlyMediaNotKeyed, s1) \<and>
    Answer ((exAnswerEnv FinalizeDone)\<lparr>localSDP := 8\<rparr>) s1 = (None, s2) \<and>
    acts s2 = [Sent 183 [contentTypeSdp] (Some 7), Sent 200 [contentTypeSdp] (Some 7), MonitorStarted]"
proof -
  let ?E' = "(exAnswerEnv FinalizeDone)\<lparr>localSDP := 8\<rparr>"
  let ?s1 = "exDialog\<lparr>mediaSession := True, earlyAnswerSDP := Some 7, earlyUnkeyed := True, acts := [Sent 183 [contentTypeSdp] (Some 7)]\<rparr>"
  have p: "ProgressMediaOptions (exAnswerEnv FinalizeInProgress) exDialog = (Some EarlyMediaNotKeyed, ?s1)"
    by (simp add: ex_answer_simps)
  obtain s2 where a: "Answer ?E' ?s1 = (None, s2)"
    "acts s2 = acts ?s1 @ [Sent 200 [contentTypeSdp] (Some 7), MonitorStarted]" by (simp add: ex_answer_simps)
  have "\<forall>A. ackArrives ?E' = Some A \<longrightarrow> reInviteAck A = None" by (simp add: exAnswerEnv_def exAck_def)
  from early_answer_repeated [OF p _ _ a(1) this a(2), of "[contentTypeSdp]" "Some 7"] p a show ?thesis
    by (intro exI [of _ ?s1] exI [of _ s2]) (simp add: exDialog_def)
qed

section \<open>A refresh ends\<close>

text \<open>What the last try of a refresh decides.\<close>

definition verdict :: "refreshTry \<Rightarrow> refreshOutcome \<Rightarrow> nat \<Rightarrow> bool" where
  "verdict a out byes =
    ((out = refreshGoesOn \<longleftrightarrow> (case tryErr a of None \<Rightarrow> True | Some e \<Rightarrow> \<not> ctxAfter a \<and> isNoSdp e)) \<and>
     (byes = 1 \<longleftrightarrow> out = refreshEnded \<and> (\<exists>e. tryErr a = Some e \<and> \<not> ctxAfter a \<and> \<not> isNoSdp e \<and> \<not> isMediaClosed e \<and>
        \<not> isAfterAnswer e \<and> (isTxTimeout e \<or> (\<exists>r. resOf e = Some r \<and> refreshStatus r \<in> {408, 481})))) \<and> byes \<le> 1)"

lemma refreshLoop_retried:
  "\<exists>out. runOutcome (refreshLoop True (a # as) t n) = Some out \<and> verdict a out (runByes (refreshLoop True (a # as) t n)) \<and>
     runTries (refreshLoop True (a # as) t n) = Suc n \<and> runTimer (refreshLoop True (a # as) t n) = t"
  by (auto simp: verdict_def Let_def split: option.splits)


lemma refreshLoop_first:
  "refreshLoop False (a # as) t n = refreshLoop True (a # as) t n
   \<or> (\<exists>m. refreshLoop False (a # as) t n = refreshLoop True as (raiseMinSE m t) (Suc n))
   \<or> refreshLoop False (a # as) t n = refreshLoop True as t (Suc n)
   \<or> refreshLoop False (a # as) t n = \<lparr>runOutcome = Some refreshEnded, runTimer = t, runByes = 0, runTries = Suc n\<rparr>
       \<and> verdict a refreshEnded 0"
proof (cases "tryErr a")
  case (Some e)
  let ?m = "Option.bind (resOf e) (\<lambda>r. parseMinSE (headerGetter.truncate r))"
  let ?d = "Option.bind (resOf e) (\<lambda>r. retryAfter (headerGetter.truncate r))"
  let ?st = "case resOf e of None \<Rightarrow> 0 | Some r \<Rightarrow> refreshStatus r"
  let ?over = "ctxAfter a \<or> isNoSdp e \<or> isMediaClosed e \<or> isAfterAnswer e \<or> ?st = 408 \<or> ?st = 481 \<or> isTxTimeout e"
  consider (same) "?over \<or> ?st \<noteq> 422 \<and> ?st \<noteq> 500 \<and> ?st \<noteq> 503" | (raise) "\<not> ?over" "?st = 422"
    | (wait) "\<not> ?over" "?st = 500 \<or> ?st = 503" by blast
  then show ?thesis
  proof cases
    case same
    then have "refreshLoop False (a # as) t n = refreshLoop True (a # as) t n"
      unfolding refreshLoop.simps Let_def Some option.case statusSessionIntervalTooSmall_def by presburger
    then show ?thesis by simp
  next
    case raise
    then show ?thesis by (cases ?m) (simp_all add: Some Let_def statusSessionIntervalTooSmall_def exI)
  next
    case wait
    then show ?thesis by (cases ?d; cases "ctxInWait a") (auto simp: Some Let_def statusSessionIntervalTooSmall_def verdict_def)
  qed
qed simp


definition ex422 :: refreshTry where
  "ex422 = \<lparr>tryErr = Some \<lparr>isNoSdp = False, isMediaClosed = False, isAfterAnswer = False, isTxTimeout = False,
       resOf = Some \<lparr>GetHeader = (\<lambda>n. if n = ''Min-SE'' then Some (formatNat (unat (900 :: u32))) else None),
         GetHeaders = (\<lambda>n. []), refreshStatus = 422\<rparr>\<rparr>,
     ctxAfter = False, ctxInWait = False\<rparr>"

definition exTaken :: refreshTry where
  "exTaken = \<lparr>tryErr = None, ctxAfter = False, ctxInWait = False\<rparr>"


end
