(* ===== verification/Spec2Isabelle.thy ===== *)
theory Spec2Isabelle
  imports Audio Digest_Auth Rtp_Sequencer Jitter_Properties Session_Timers Media_Agreement Media_Finalize Rtp_Monitor Dtmf Media_Transport Media_Streams Registration Refer_Attempts Refer_Transfer Reinvite Server_Answer
begin

text \<open>
  Verification of diago, a library for SIP calls: its media stack (directory \<open>media\<close>) and the dialog
  layer above it (the Go files at the top of the tree).

  \<^bold>\<open>The parts and how they interact.\<close> A call is a SIP dialog with a media session. The media session
  negotiates codecs, directions and keys through SDP bodies and owns the RTP and RTCP sockets; an RTP
  session on top of it validates what is read, keeps statistics and exchanges reports; packet reader
  and writer, jitter buffer, DTMF reader and writer and real-time reader turn packets into a stream of
  audio. The dialog layer answers calls, keeps session timers and registrations alive, handles
  re-INVITEs and BYEs of the peer and sends or receives transfers.

  \<^bold>\<open>Theories and sources.\<close>
  \<^item> \<open>Diago_Prelude\<close>: types, durations and instants, labelled runs and the locale of transition
    systems; \<open>Go_Strings\<close>, \<open>Go_Net\<close>, \<open>Float64\<close>: what the sources use of \<open>strings\<close>, \<open>strconv\<close>,
    \<open>net\<close> and of float64 arithmetic, which is rational arithmetic with rounding.
  \<^item> \<open>Rtp_Sequencer\<close>, \<open>Rtp_Packet\<close>, \<open>Codec\<close>, \<open>Sdp\<close>: \<open>rtp_sequencer.go\<close>, \<open>rtp_parse.go\<close>, \<open>codec.go\<close>
    and \<open>formats.go\<close>, \<open>sdp.go\<close>.
  \<^item> \<open>Jitter_Buffer\<close> to \<open>Jitter_Properties\<close>: \<open>rtp_jitter_buffer.go\<close>, its operations, its invariant and
    the step relation \<open>jb_step\<close> of its two goroutines.
  \<^item> \<open>Media_State\<close>, \<open>Media_Session\<close>, \<open>Media_Sdp\<close>, \<open>Media_Wire\<close>, \<open>Media_Plain\<close>, \<open>Media_Agreement\<close>,
    \<open>Media_Finalize\<close>, \<open>Media_IO\<close>: \<open>media_session.go\<close> with \<open>dtls.go\<close>, \<open>ice.go\<close> and \<open>srtp.go\<close>. The record
    \<open>MediaSession\<close> has the fields of the struct; \<open>LocalSDP\<close> and \<open>RemoteSDP\<close> work on the text; the
    negotiation in the background is the step relation \<open>fin_step\<close>.
  \<^item> \<open>Media_Transport\<close>: \<open>ice_mux.go\<close> and the key-exchange connection of \<open>dtls.go\<close>; \<open>Media_Streams\<close>:
    \<open>rtp_realtime_reader.go\<close> and the copying of \<open>rtp_utils.go\<close>.
  \<^item> \<open>Rtp_Session\<close>, \<open>Rtp_Report\<close>, \<open>Rtp_Monitor\<close>: \<open>rtp_session.go\<close>, the monitors as \<open>mon_step\<close>.
  \<^item> \<open>Packet_IO\<close>, \<open>Dtmf\<close>: \<open>rtp_packet_reader.go\<close>, \<open>rtp_packet_writer.go\<close> and the DTMF files.
  \<^item> \<open>Session_Timers\<close>: \<open>session_timers.go\<close>; \<open>Server_Answer\<close>: the answering side of
    \<open>dialog_server_session.go\<close>, with the timer of the answer and the session refresh.
  \<^item> \<open>Reinvite\<close>: re-INVITEs of the peer, \<open>dialog_media.go\<close> with \<open>handleReInvite\<close> and \<open>ReadBye\<close> of both
    dialog sessions, as the step relation \<open>reinvite_step\<close>.
  \<^item> \<open>Refer_Notify\<close>, \<open>Refer_Attempts\<close>, \<open>Refer_Transfer\<close>: transfers, \<open>dialog_session.go\<close> and
    \<open>dialog_media.go\<close>; the attempts of a dialog are the step relation \<open>refer_step\<close>.
  \<^item> \<open>Registration\<close>: \<open>register_transaction.go\<close>, \<open>register_keepalive.go\<close> and \<open>Diago.Register\<close>.
  \<^item> \<open>Digest_Auth\<close>: \<open>digest_auth.go\<close>, with the nonce cache and its timers as \<open>digest_step\<close>.
  \<^item> \<open>Audio\<close>: of \<open>audio\<close> the mixing of samples (\<open>utils.go\<close>), the wav writer (\<open>wav_writer.go\<close>) and the
    silence and the interleaving of a stereo recording (\<open>monitor_pcm.go\<close>).

  \<^bold>\<open>How code is modelled.\<close> A struct is a record with the fields of the source, machine integers are
  words, durations and instants are nanoseconds as integers, strings are lists of ASCII characters.
  An error is a value, a panic is \<^term>\<open>None\<close> or a constructor of its own. Goroutines are labelled step
  relations whose steps are the critical sections of the source, so a run is an interleaving; the
  locale \<open>transition_system\<close> carries an invariant along runs and is interpreted for each of them. The
  ICE, DTLS, SRTP, RTP, RTCP and SIP libraries, sockets and timers are parameters: records of
  functions, or the results of the calls. What is relied on of them is a hypothesis of the property.

  \<^bold>\<open>What is shown.\<close> Offer and answer through the text agree on codecs, addresses and keys; media of a
  secured session is never sent in the clear nor delivered unauthenticated; the jitter buffer delivers
  in order, loses no wake-up and stays in bounds; packets written form one stream and digits sent are
  heard; session timers agree at both ends, when a call is answered and when it is refreshed; every
  re-INVITE has one final response and none is accepted after a BYE; answers keep their order; transfers
  report success only when it was notified; a registration ends only when it has lapsed; a call is let
  in only on a live challenge; a recording is complete in both channels. Lemmas show where the sources depart from their comments or from the RFCs they cite.

  \<^bold>\<open>Bounds and fuel.\<close> Loops over input are structural: they consume a list of what the environment
  delivers and wait when it is used up. The other loops have termination proofs, or are shown to take
  a number of turns bounded by the size of what they work on, such as the window of the jitter buffer
  or the two tries of a session refresh. The silence loop of a recording is partial: it is
  shown to return for frames that are not empty, and not to return for empty ones. Nothing is cut off by fuel.

  \<^bold>\<open>Not modelled.\<close> Outgoing \<open>INVITE\<close>s and the set-up of \<open>Diago\<close> (\<open>dialog_client_session.go\<close>,
  \<open>diago.go\<close>): sequences of calls into the SIP library. Bridges, playback, the buffering of
  recordings and the codecs of \<open>audio\<close>: input and output around libraries outside the tree. The dialog
  cache: a concurrent map of the standard library. The silence detection and the fade of \<open>utils.go\<close>, in
  floating point with a square root. Logging, deadlines of sockets and the wording of errors
  everywhere. Of \<open>dialog_media.go\<close> the installation of a forked media session, its close and the options
  of the audio readers and writers are left out.
\<close>

section \<open>Keying and media together\<close>

text \<open>
  C2. A session whose DTLS negotiation \<open>FinalizeWithin\<close> has taken to the background never sends media in
  the clear: after any interleaving of the negotiation with the calls of the owner, every datagram
  \<open>WriteRTP\<close> hands to the socket is the output of the SRTP library under the negotiated context, and
  it goes to the negotiated or learned address.
\<close>

theorem background_media_protected:
  assumes "finalizeErr s = None" "exec fin_step (startFinalizeRun a s) ls t" "msWriteRTP L p t = (e, out, t')"
  shows "\<forall>(d, b) \<in> set out. b = rtpTarget t \<and> (\<exists>c data. localCtxSRTP t = Some c \<and> fst (encryptRTP L c data (Header p)) = Inr d)"
proof -
  have "finInv t" using fin.inv_reachable [OF _ assms(2)] assms(1) by (auto simp: finInit_def)
  then have "dtlsUnkeyed t \<or> localCtxSRTP t \<noteq> None" using finInv_safe by (auto simp: keyed_def)
  then show ?thesis using msWriteRTP_out [OF assms(3)] by (cases "out = []") (auto simp: sentAs_def)
qed

definition exBackground :: "(bytes \<times> bytes) MediaSession" where
  "exBackground = (snd (negotiation exEnv (exHandshake None) exArmed (startFinalizeRun exArmed exOfferer)))\<lparr>finalizeRun := Some (exArmed, Some None)\<rparr>"

theorem background_media_protected_witness:
  "exec fin_step (startFinalizeRun exArmed exOfferer) [StepRun None] exBackground
    \<and> (\<exists>e t'. msWriteRTP exLib (exMedia [5]) exBackground = (e, [([7, 2, 5], Raddr exBackground)], t'))
    \<and> (\<exists>c data. localCtxSRTP exBackground = Some c \<and> fst (encryptRTP exLib c data (Header (exMedia [5]))) = Inr [7, 2, 5])"
proof -
  let ?s = "startFinalizeRun exArmed exOfferer"
  have "fst (negotiation exEnv (exHandshake None) exArmed ?s) = None" by code_simp
  then have "negotiation exEnv (exHandshake None) exArmed ?s = (None, snd (negotiation exEnv (exHandshake None) exArmed ?s))"
    by (simp add: prod_eq_iff)
  then have "fin_step ?s (StepRun None) exBackground"
    unfolding exBackground_def by (rule fin_run [rotated]) (simp add: startFinalizeRun_def)
  then have x: "exec fin_step ?s [StepRun None] exBackground" by (blast intro: exec.intros)
  have "fst (snd (msWriteRTP exLib (exMedia [5]) exBackground)) = [([7, 2, 5], Raddr exBackground)]" by code_simp
  then obtain e t' where w: "msWriteRTP exLib (exMedia [5]) exBackground = (e, [([7, 2, 5], Raddr exBackground)], t')"
    by (metis fst_conv prod.exhaust snd_conv)
  have "finalizeErr exOfferer = None" by (simp add: exOfferer_def zeroSession_def)
  then show ?thesis using background_media_protected [OF _ x w] x w by auto
qed

end
